theory Spec2Isabelle
  imports Main "HOL-Library.AList" "HOL-Library.Multiset" "HOL-Library.Product_Lexorder"
begin

section \<open>JavaScript values and objects\<close>

text \<open>
  The component of \<^verbatim>\<open>victory-line.jsx\<close> works on plain JavaScript objects: data points,
  style objects, the props of marker and label elements. A value is one of the language's
  primitives, a function (an opaque token: calling it is left to the collaborator that
  receives it), an array or an object. Numbers are modelled as integers; \<^verbatim>\<open>NaN\<close> and
  fractions play no part in what is proved here. An object is an association list from
  property names to values, in insertion order.
\<close>

datatype jsval = Undefined | Null | Bool bool | Num int | Str string | Fun nat
  | Arr "jsval list" | Obj "(string \<times> jsval) list"

type_synonym jsobj = "(string \<times> jsval) list"

datatype error = TypeError | ReferenceError

text \<open>Reading a property of an object: \<^verbatim>\<open>obj.k\<close> is \<^verbatim>\<open>undefined\<close> when the key is absent.\<close>

definition get :: "jsobj \<Rightarrow> string \<Rightarrow> jsval" where
  "get obj k = (case map_of obj k of Some v \<Rightarrow> v | None \<Rightarrow> Undefined)"

text \<open>
  Reading a property of an arbitrary value: on \<^verbatim>\<open>undefined\<close> and \<^verbatim>\<open>null\<close> the
  language throws a TypeError; on the other primitives the read gives \<^verbatim>\<open>undefined\<close>
  (the built-in properties of strings, arrays and functions are not modelled).
\<close>

fun getProp :: "jsval \<Rightarrow> string \<Rightarrow> error + jsval" where
  "getProp (Obj obj) k = Inr (get obj k)"
| "getProp Undefined k = Inl TypeError"
| "getProp Null k = Inl TypeError"
| "getProp v k = Inr Undefined"

text \<open>Sequencing of steps that may throw: the first error ends the computation.\<close>

definition thenDo :: "error + 'a \<Rightarrow> ('a \<Rightarrow> error + 'b) \<Rightarrow> error + 'b" where
  "thenDo r f = (case r of Inl e \<Rightarrow> Inl e | Inr v \<Rightarrow> f v)"

text \<open>Truthiness, as \<^verbatim>\<open>if (v)\<close>, \<^verbatim>\<open>!v\<close> and \<^verbatim>\<open>v || w\<close> read a value.\<close>

fun truthy :: "jsval \<Rightarrow> bool" where
  "truthy Undefined = False"
| "truthy Null = False"
| "truthy (Bool b) = b"
| "truthy (Num n) = (n \<noteq> 0)"
| "truthy (Str s) = (s \<noteq> [])"
| "truthy v = True"

definition js_or :: "jsval \<Rightarrow> jsval \<Rightarrow> jsval" where
  "js_or v w = (if truthy v then v else w)"

section \<open>Array operations\<close>

text \<open>
  \<^verbatim>\<open>array.slice(start, end)\<close> for indices within the array; an end before the start
  gives the empty array.
\<close>

definition slice :: "'a list \<Rightarrow> nat \<Rightarrow> nat \<Rightarrow> 'a list" where
  "slice array start end = take (end - start) (drop start array)"

text \<open>
  \<^verbatim>\<open>array.forEach((element, index) => ...)\<close> where the callback updates the variables it
  closes over: the variables are the state \<open>s\<close>, threaded through the calls in index order.
\<close>

definition forEach :: "'a list \<Rightarrow> ('a \<Rightarrow> nat \<Rightarrow> 's \<Rightarrow> 's) \<Rightarrow> 's \<Rightarrow> 's" where
  "forEach array callback s =
     fold (\<lambda>(index, element). callback element index) (enumerate 0 array) s"

text \<open>
  lodash's \<^verbatim>\<open>sortBy(collection, iteratee)\<close>: a stable sort, ascending by the value of the
  property \<open>iteratee\<close>. The order lodash puts on the property values is a parameter,
  given as a key function \<open>ascending\<close> into a linear order: two values compare as their
  keys do, and values with equal keys keep their order in the collection.
\<close>

definition sortBy :: "(jsval \<Rightarrow> 'k::linorder) \<Rightarrow> jsobj list \<Rightarrow> string \<Rightarrow> jsobj list" where
  "sortBy ascending collection iteratee =
     sort_key (\<lambda>obj. ascending (get obj iteratee)) collection"

text \<open>
  The order lodash uses on numbers, \<^verbatim>\<open>null\<close> and \<^verbatim>\<open>undefined\<close>: numbers by value
  (booleans count as 0 and 1), then \<^verbatim>\<open>null\<close>, then \<^verbatim>\<open>undefined\<close>. Strings, arrays,
  objects and functions are put last, all with the same key; the comparison lodash makes
  between them is not modelled.
\<close>

fun ascendingKey :: "jsval \<Rightarrow> nat \<times> int" where
  "ascendingKey (Num n) = (0, n)"
| "ascendingKey (Bool b) = (0, if b then 1 else 0)"
| "ascendingKey Null = (1, 0)"
| "ascendingKey Undefined = (2, 0)"
| "ascendingKey v = (3, 0)"

section \<open>The segmenter: \<^verbatim>\<open>getDataSegments\<close>\<close>

text \<open>
  A data point is a gap when \<^verbatim>\<open>datum.y === null || typeof datum.y === "undefined"\<close>.
\<close>

definition isGap :: "jsobj \<Rightarrow> bool" where
  "isGap datum \<longleftrightarrow> get datum ''y'' = Null \<or> get datum ''y'' = Undefined"

text \<open>
  The body of the \<^verbatim>\<open>forEach\<close> callback of \<^verbatim>\<open>getDataSegments\<close>. The variables it updates
  are \<open>segments\<close> and \<open>segmentStartIndex\<close>.
\<close>

definition closeRun ::
  "jsobj list \<Rightarrow> jsobj \<Rightarrow> nat \<Rightarrow> jsobj list list \<times> nat \<Rightarrow> jsobj list list \<times> nat" where
  "closeRun orderedData datum index st =
     (case st of (segments, segmentStartIndex) \<Rightarrow>
        if isGap datum
        then (segments @ [slice orderedData segmentStartIndex index], index + 1)
        else (segments, segmentStartIndex))"

text \<open>
  \<^verbatim>\<open>getDataSegments(dataset)\<close>: sort by \<^verbatim>\<open>x\<close>, cut at every gap, push the last run,
  keep the segments that are not empty (every segment is an array, so
  \<^verbatim>\<open>Array.isArray(segment)\<close> holds).
\<close>

definition getDataSegments :: "(jsval \<Rightarrow> 'k::linorder) \<Rightarrow> jsobj list \<Rightarrow> jsobj list list" where
  "getDataSegments ascending dataset =
     (let orderedData = sortBy ascending dataset ''x'' in
      case forEach orderedData (closeRun orderedData) ([], 0) of
        (segments, segmentStartIndex) \<Rightarrow>
          filter (\<lambda>segment. length segment > 0)
            (segments @ [slice orderedData segmentStartIndex (length orderedData)]))"

section \<open>Object merging: lodash's \<^verbatim>\<open>assign\<close> and \<^verbatim>\<open>defaults\<close>\<close>

text \<open>
  The own enumerable properties of a merge source. \<^verbatim>\<open>undefined\<close>, \<^verbatim>\<open>null\<close>, numbers
  and booleans have none; objects have their entries (the indexed properties of strings
  and arrays are not modelled).
\<close>

definition ownKeys :: "jsval \<Rightarrow> string list" where
  "ownKeys source = (case source of Obj obj \<Rightarrow> remdups (map fst obj) | _ \<Rightarrow> [])"

definition hasOwn :: "jsval \<Rightarrow> string \<Rightarrow> bool" where
  "hasOwn source k \<longleftrightarrow> k \<in> set (ownKeys source)"

fun propertyOf :: "jsval \<Rightarrow> string \<Rightarrow> jsval" where
  "propertyOf (Obj obj) k = get obj k"
| "propertyOf v k = Undefined"

text \<open>
  \<^verbatim>\<open>assign(object, ...sources)\<close>: for each source in order and each of its keys,
  \<^verbatim>\<open>object[key] = source[key]\<close>. A later source wins.
\<close>

definition assignOne :: "jsobj \<Rightarrow> jsval \<Rightarrow> jsobj" where
  "assignOne object source =
     fold (\<lambda>key obj. AList.update key (propertyOf source key) obj) (ownKeys source) object"

definition assign :: "jsobj \<Rightarrow> jsval list \<Rightarrow> jsobj" where
  "assign object sources = fold (\<lambda>source obj. assignOne obj source) sources object"

text \<open>
  \<^verbatim>\<open>defaults(object, ...sources)\<close>: for each source in order and each of its keys, the
  key is set only where \<^verbatim>\<open>object[key] === undefined\<close>. An earlier source wins. (The
  clause of lodash about properties inherited from \<^verbatim>\<open>Object.prototype\<close> is not modelled.)
\<close>

definition defaultsOne :: "jsobj \<Rightarrow> jsval \<Rightarrow> jsobj" where
  "defaultsOne object source =
     fold (\<lambda>key obj. if get obj key = Undefined then AList.update key (propertyOf source key) obj
                      else obj)
       (ownKeys source) object"

definition defaults :: "jsobj \<Rightarrow> jsval list \<Rightarrow> jsobj" where
  "defaults object sources = fold (\<lambda>source obj. defaultsOne obj source) sources object"

text \<open>
  \<^verbatim>\<open>array.map((element, index) => ...)\<close> with a callback that may throw: the first
  throw ends the map.
\<close>

fun mapE :: "('a \<Rightarrow> error + 'b) \<Rightarrow> 'a list \<Rightarrow> error + 'b list" where
  "mapE f [] = Inr []"
| "mapE f (x # xs) = thenDo (f x) (\<lambda>y. thenDo (mapE f xs) (\<lambda>ys. Inr (y # ys)))"

definition mapIndexed :: "('a \<Rightarrow> nat \<Rightarrow> error + 'b) \<Rightarrow> 'a list \<Rightarrow> error + 'b list" where
  "mapIndexed callback array =
     mapE (\<lambda>(index, element). callback element index) (enumerate 0 array)"

text \<open>Decimal digits of an index, for the template strings that build element keys.\<close>

fun decimal :: "nat \<Rightarrow> string" where
  "decimal n =
     (if n < 10 then [char_of (48 + n)]
      else decimal (n div 10) @ [char_of (48 + n mod 10)])"

definition keyOf :: "string \<Rightarrow> nat \<Rightarrow> jsval" where
  "keyOf prefix index = Str (prefix @ decimal index)"

section \<open>Props, state and collaborators of the component\<close>

text \<open>
  A React element handed in by the caller (\<^verbatim>\<open>markerComponent\<close>, \<^verbatim>\<open>labelComponent\<close>):
  its type and its own props.
\<close>

record component =
  component_type :: jsval
  component_props :: jsobj

text \<open>The props of \<^verbatim>\<open>VictoryLine\<close>, one field for each entry of \<^verbatim>\<open>propTypes\<close>
  and \<^verbatim>\<open>defaultProps\<close>; the field \<open>props_f\<close> is \<^verbatim>\<open>props.f\<close>.\<close>

record props =
  props_animate :: jsval
  props_categories :: jsval
  props_data :: jsval
  props_dataComponent :: jsval
  props_domain :: jsval
  props_events :: jsobj
  props_height :: jsval
  props_interpolation :: jsval
  props_labels :: jsval
  props_labelComponent :: component
  props_markerComponent :: component
  props_padding :: jsval
  props_samples :: jsval
  props_scale :: jsval
  props_seriesLabel :: jsval
  props_standalone :: jsval
  props_style :: jsval
  props_width :: jsval
  props_x :: jsval
  props_y :: jsval

definition defaultProps :: props where
  "defaultProps =
     \<lparr> props_animate = Undefined, props_categories = Undefined, props_data = Undefined,
       props_dataComponent = Undefined, props_domain = Undefined,
       props_events = [],
       props_height = Num 300,
       props_interpolation = Str ''linear'',
       props_labels = Undefined,
       props_labelComponent = \<lparr> component_type = Str ''Label'', component_props = [] \<rparr>,
       props_markerComponent = \<lparr> component_type = Str ''Point'', component_props = [] \<rparr>,
       props_padding = Num 50,
       props_samples = Num 50,
       props_scale = Str ''linear'',
       props_seriesLabel = Undefined,
       props_standalone = Bool True,
       props_style = Undefined,
       props_width = Num 450,
       props_x = Str ''x'',
       props_y = Str ''y'' \<rparr>"

text \<open>
  \<^verbatim>\<open>this.state\<close>: for each kind of element, the overrides that event handlers stored,
  by index. \<^verbatim>\<open>componentWillMount\<close> sets the three to the empty object.
\<close>

record state =
  dataState :: "(nat \<times> jsval) list"
  markersState :: "(nat \<times> jsval) list"
  labelsState :: "(nat \<times> jsval) list"

definition componentWillMount :: state where
  "componentWillMount = \<lparr> dataState = [], markersState = [], labelsState = [] \<rparr>"

definition stateAt :: "(nat \<times> jsval) list \<Rightarrow> nat \<Rightarrow> jsval" where
  "stateAt elementState index =
     (case map_of elementState index of Some v \<Rightarrow> v | None \<Rightarrow> Undefined)"

text \<open>
  The collaborators the component calls, none of them defined in \<^verbatim>\<open>victory-line.jsx\<close>:
  they are parameters of the model.
  \<^item> \<open>sortOrder\<close>: the order of lodash's \<^verbatim>\<open>sortBy\<close>;
  \<^item> \<open>getData\<close>: \<^verbatim>\<open>Data.getData(props)\<close>, the normalized data points;
  \<^item> \<open>getScale props axis\<close>:
    \<^verbatim>\<open>Scale.getBaseScale(props, axis).domain(Domain.getDomain(props, axis)).range(Helpers.getRange(props, axis))\<close>,
    a function value;
  \<^item> \<open>call f args\<close>: the result of calling the function value \<open>f\<close>;
  \<^item> \<open>evaluateStyle\<close>, \<open>evaluateProp\<close>, \<open>getEvents\<close>, \<open>getPartialEvents\<close>: the
    helpers of \<^verbatim>\<open>victory-core\<close> of these names. \<open>evaluateStyle\<close> may throw: it reads the
    keys of the style it is given, and the component hands it \<^verbatim>\<open>style.markers\<close>, which may
    be undefined.
  They are functions: a collaborator that keeps state of its own, or one other than
  \<open>evaluateStyle\<close> that throws, is outside the model.
\<close>

record 'k env =
  sortOrder :: "jsval \<Rightarrow> 'k"
  getData :: "props \<Rightarrow> jsobj list"
  getScale :: "props \<Rightarrow> string \<Rightarrow> jsval"
  call :: "jsval \<Rightarrow> jsval list \<Rightarrow> jsval"
  evaluateStyle :: "jsval \<Rightarrow> jsval \<Rightarrow> error + jsval"
  evaluateProp :: "jsval \<Rightarrow> jsval \<Rightarrow> jsval"
  getEvents :: "jsval \<Rightarrow> string \<Rightarrow> jsval"
  getPartialEvents :: "jsval \<Rightarrow> nat \<Rightarrow> jsobj \<Rightarrow> jsval"

text \<open>
  What a render pass hands to the rendering collaborator: a tree of elements. The
  children of a \<^verbatim>\<open>g\<close> or \<^verbatim>\<open>svg\<close> element are one list for each child expression of
  the JSX, an entry \<open>None\<close> being \<^verbatim>\<open>undefined\<close>.
\<close>

datatype element =
    LineSegment jsobj
  | LineLabel jsobj
  | CloneElement component jsobj
  | G jsobj "element option list list"
  | Svg jsobj "element option list list"
  | VictoryTransition jsobj element
  | VictoryLine props

section \<open>Styles and transitions\<close>

definition defaultStyles :: jsobj where
  "defaultStyles =
     [(''markers'', Obj [(''opacity'', Num 1)]),
      (''data'', Obj [(''strokeWidth'', Num 2), (''fill'', Str ''none''),
                     (''stroke'', Str ''#756f6a''), (''opacity'', Num 1)]),
      (''labels'', Obj [(''padding'', Num 5), (''fontFamily'', Str ''Helvetica''),
                       (''fontSize'', Num 10), (''strokeWidth'', Num 0),
                       (''stroke'', Str ''transparent''), (''textAnchor'', Str ''start'')])]"

text \<open>
  \<^verbatim>\<open>getStyles(props)\<close>. The local \<^verbatim>\<open>style\<close> is \<^verbatim>\<open>props.style || {}\<close>, a truthy value, so
  reading its properties does not throw.
\<close>

definition getStyles :: "props \<Rightarrow> jsobj" where
  "getStyles props =
     (let style = js_or (props_style props) (Obj []) in
      [(''parent'', Obj (defaults [(''width'', Str ''100%''), (''height'', Str ''auto'')]
                          [propertyOf style ''parent'', get defaultStyles ''parent''])),
       (''data'', Obj (defaults [] [propertyOf style ''data'', get defaultStyles ''data''])),
       (''labels'', Obj (defaults [] [propertyOf style ''labels'', get defaultStyles ''labels''])),
       (''line'', Obj (defaults [] [propertyOf style ''line'', get defaultStyles ''line'']))])"

text \<open>
  The static \<^verbatim>\<open>defaultTransitions\<close>: the durations and the three hooks. The two
  \<^verbatim>\<open>before\<close> hooks take no argument; \<^verbatim>\<open>after\<close> reads \<^verbatim>\<open>datum.y\<close>.
\<close>

definition onExit_duration :: nat where
  "onExit_duration = 500"

definition onExit_before :: jsobj where
  "onExit_before = [(''y'', Null)]"

definition onEnter_duration :: nat where
  "onEnter_duration = 500"

definition onEnter_before :: jsobj where
  "onEnter_before = [(''y'', Null)]"

definition onEnter_after :: "jsval \<Rightarrow> error + jsobj" where
  "onEnter_after datum = thenDo (getProp datum ''y'') (\<lambda>y. Inr [(''y'', y)])"

section \<open>The layout of lines, markers and labels\<close>

text \<open>\<^verbatim>\<open>getLabelStyle(style, datum)\<close>, with \<^verbatim>\<open>style\<close> the result of \<^verbatim>\<open>getStyles\<close>.\<close>

definition getLabelStyle :: "'k env \<Rightarrow> jsobj \<Rightarrow> jsval \<Rightarrow> error + jsval" where
  "getLabelStyle env style datum =
     thenDo (getProp (get style ''line'') ''stroke'') (\<lambda>fill.
     thenDo (getProp (get style ''labels'') ''padding'') (\<lambda>p.
       let padding = js_or p (Num 0);
           labelStyle = defaults [] [get style ''labels'',
                                     Obj [(''fill'', fill), (''padding'', padding)]]
       in evaluateStyle env (Obj labelStyle) datum))"

text \<open>\<^verbatim>\<open>renderLine(props, calculatedProps)\<close>: one \<^verbatim>\<open>LineSegment\<close> for each segment.\<close>

definition renderLine ::
  "'k env \<Rightarrow> props \<Rightarrow> jsobj list list \<Rightarrow> jsobj \<Rightarrow> jsobj \<Rightarrow> element list" where
  "renderLine env props dataSegments scale style =
     (let events = getEvents env (get (props_events props) ''data'') ''data'' in
      map (\<lambda>(index, data).
             let lineProps =
                   [(''key'', keyOf ''line-segment-'' index),
                    (''interpolation'', props_interpolation props),
                    (''style'', get style ''data''),
                    (''scale'', Obj scale),
                    (''index'', Num (int index)),
                    (''data'', Arr (map Obj data))]
             in LineSegment
                  (assign lineProps
                     [Obj [(''events'', getPartialEvents env events index lineProps)]]))
        (enumerate 0 dataSegments))"

text \<open>
  \<^verbatim>\<open>getLabelText(props, datum, index)\<close>. An index beyond the \<^verbatim>\<open>labels\<close> array reads
  \<^verbatim>\<open>undefined\<close>.
\<close>

definition getLabelText :: "'k env \<Rightarrow> props \<Rightarrow> jsobj \<Rightarrow> nat \<Rightarrow> jsval" where
  "getLabelText env props datum index =
     (let propsLabel =
            (case props_labels props of
               Arr labels \<Rightarrow> (if index < length labels then labels ! index else Undefined)
             | labels \<Rightarrow> evaluateProp env labels (Obj datum))
      in js_or (get datum ''label'') propsLabel)"

text \<open>
  The locals \<^verbatim>\<open>sharedProps\<close>, \<^verbatim>\<open>markerProps\<close> and \<^verbatim>\<open>labelProps\<close> of the callback of
  \<^verbatim>\<open>renderMarkersAndLabels\<close>, and the props the marker and the label are cloned with.
\<close>

definition sharedProps :: "'k env \<Rightarrow> jsobj \<Rightarrow> jsobj \<Rightarrow> nat \<Rightarrow> jsobj" where
  "sharedProps env scale datum index =
     [(''index'', Num (int index)),
      (''datum'', Obj datum),
      (''x'', call env (get scale ''x'') [get datum ''x'']),
      (''y'', call env (get scale ''y'') [get datum ''y''])]"

definition markerProps ::
  "'k env \<Rightarrow> props \<Rightarrow> state \<Rightarrow> jsobj \<Rightarrow> jsobj \<Rightarrow> jsobj \<Rightarrow> nat \<Rightarrow> error + jsobj" where
  "markerProps env props this_state scale style datum index =
     thenDo (evaluateStyle env (get style ''markers'') (Obj datum)) (\<lambda>markerStyle.
       Inr (assign
              [(''key'', keyOf ''marker-'' index),
               (''style'', markerStyle)]
              [Obj (sharedProps env scale datum index),
               Obj (component_props (props_markerComponent props)),
               stateAt (markersState this_state) index]))"

definition markerCloneProps ::
  "'k env \<Rightarrow> props \<Rightarrow> state \<Rightarrow> jsobj \<Rightarrow> jsobj \<Rightarrow> jsobj \<Rightarrow> nat \<Rightarrow> error + jsobj" where
  "markerCloneProps env props this_state scale style datum index =
     thenDo (markerProps env props this_state scale style datum index) (\<lambda>mProps.
       let markersEvents = getEvents env (get (props_events props) ''markers'') ''markers''
       in Inr (assign [(''events'', getPartialEvents env markersEvents index mProps)]
                 [Obj mProps]))"

definition labelProps ::
  "'k env \<Rightarrow> props \<Rightarrow> state \<Rightarrow> jsobj \<Rightarrow> jsval \<Rightarrow> jsval \<Rightarrow> jsobj \<Rightarrow> nat
     \<Rightarrow> error + jsobj" where
  "labelProps env props this_state scale labelStyle text datum index =
     thenDo (getProp labelStyle ''padding'') (\<lambda>dy.
     thenDo (getProp labelStyle ''textAnchor'') (\<lambda>textAnchor.
     thenDo (getProp labelStyle ''verticalAnchor'') (\<lambda>verticalAnchor.
       Inr (assign
              [(''key'', keyOf ''label-'' index),
               (''dy'', dy),
               (''textAnchor'', textAnchor),
               (''verticalAnchor'', js_or verticalAnchor (Str ''end'')),
               (''style'', labelStyle),
               (''text'', text)]
              [Obj (component_props (props_labelComponent props)),
               Obj (sharedProps env scale datum index),
               stateAt (labelsState this_state) index]))))"

definition labelCloneProps ::
  "'k env \<Rightarrow> props \<Rightarrow> state \<Rightarrow> jsobj \<Rightarrow> jsval \<Rightarrow> jsval \<Rightarrow> jsobj \<Rightarrow> nat
     \<Rightarrow> error + jsobj" where
  "labelCloneProps env props this_state scale labelStyle text datum index =
     thenDo (labelProps env props this_state scale labelStyle text datum index) (\<lambda>lProps.
       let labelsEvents = getEvents env (get (props_events props) ''labels'') ''labels''
       in Inr (assign lProps
                 [Obj [(''events'', getPartialEvents env labelsEvents index lProps)]]))"

text \<open>
  The callback of the \<^verbatim>\<open>map\<close> in \<^verbatim>\<open>renderMarkersAndLabels\<close>: \<^verbatim>\<open>undefined\<close> for a gap,
  the marker alone, or a group of the marker and its label.
\<close>

definition renderMarkerAndLabel ::
  "'k env \<Rightarrow> props \<Rightarrow> state \<Rightarrow> jsobj \<Rightarrow> jsobj \<Rightarrow> jsobj \<Rightarrow> nat
     \<Rightarrow> error + element option" where
  "renderMarkerAndLabel env props this_state scale style datum index =
     (if isGap datum then Inr None
      else
        thenDo (markerCloneProps env props this_state scale style datum index) (\<lambda>mProps.
          let marker = CloneElement (props_markerComponent props) mProps;
              text = getLabelText env props datum index
          in if truthy text \<or> props_labels props = Bool True
             then
               thenDo (getLabelStyle env style (Obj datum)) (\<lambda>labelStyle.
               thenDo (labelCloneProps env props this_state scale labelStyle text datum index)
                 (\<lambda>lProps.
                    let label = CloneElement (props_labelComponent props) lProps
                    in Inr (Some (G [(''key'', keyOf ''marker-group-'' index)]
                                    [[Some marker], [Some label]]))))
             else Inr (Some marker)))"

definition renderMarkersAndLabels ::
  "'k env \<Rightarrow> props \<Rightarrow> state \<Rightarrow> jsobj list \<Rightarrow> jsobj \<Rightarrow> jsobj
     \<Rightarrow> error + element option list" where
  "renderMarkersAndLabels env props this_state dataset scale style =
     mapIndexed (renderMarkerAndLabel env props this_state scale style) dataset"

text \<open>
  \<^verbatim>\<open>renderSeriesLabel(props, calculatedProps)\<close>. \<^verbatim>\<open>dataSegments[dataSegments.length - 1]\<close>
  is \<^verbatim>\<open>undefined\<close> when there is no segment, and then so is \<^verbatim>\<open>lastPoint\<close>.
\<close>

definition renderSeriesLabel ::
  "'k env \<Rightarrow> props \<Rightarrow> jsobj list \<Rightarrow> jsobj list list \<Rightarrow> jsobj \<Rightarrow> jsobj
     \<Rightarrow> error + element option" where
  "renderSeriesLabel env props dataset dataSegments scale style =
     (if \<not> truthy (props_seriesLabel props) then Inr None
      else
        let lastSegment =
              (if dataSegments = [] then Undefined else Arr (map Obj (last dataSegments)));
            lastPoint =
              (case lastSegment of
                 Arr points \<Rightarrow> (if points = [] then Undefined else last points)
               | v \<Rightarrow> v);
            events = getEvents env (get (props_events props) ''labels'') ''labels''
        in thenDo (getProp lastPoint ''x'') (\<lambda>px.
           thenDo (getProp lastPoint ''y'') (\<lambda>py.
           thenDo (getLabelStyle env style Undefined) (\<lambda>labelStyle.
             Inr (Some (LineLabel
                    [(''key'', Str ''line-label''),
                     (''events'', events),
                     (''data'', Arr (map Obj dataset)),
                     (''x'', call env (get scale ''x'') [px]),
                     (''y'', call env (get scale ''y'') [py]),
                     (''label'', props_seriesLabel props),
                     (''style'', labelStyle)]))))))"

text \<open>\<^verbatim>\<open>renderData(props, style)\<close>.\<close>

definition renderData ::
  "('k::linorder) env \<Rightarrow> props \<Rightarrow> state \<Rightarrow> jsobj \<Rightarrow> error + element" where
  "renderData env props this_state style =
     (let dataset = getData env props;
          dataSegments = getDataSegments (sortOrder env) dataset;
          scale = [(''x'', getScale env props ''x''), (''y'', getScale env props ''y'')]
      in thenDo (renderMarkersAndLabels env props this_state dataset scale style) (\<lambda>markers.
         thenDo (renderSeriesLabel env props dataset dataSegments scale style) (\<lambda>seriesLabel.
           Inr (G [(''style'', get style ''parent'')]
                  [map Some (renderLine env props dataSegments scale style),
                   markers,
                   [seriesLabel]]))))"

text \<open>
  \<^verbatim>\<open>render()\<close>, on the props and the state of the component. The \<^verbatim>\<open>viewBox\<close> template
  string is kept as its four parts.
\<close>

definition whitelist :: "string list" where
  "whitelist = [''data'', ''domain'', ''height'', ''padding'', ''samples'', ''style'',
                ''width'', ''x'', ''y'']"

definition render :: "('k::linorder) env \<Rightarrow> props \<Rightarrow> state \<Rightarrow> error + element" where
  "render env this_props this_state =
     (if truthy (props_animate this_props)
      then Inr (VictoryTransition
                  [(''animate'', props_animate this_props),
                   (''animationWhitelist'', Arr (map Str whitelist))]
                  (VictoryLine this_props))
      else
        let style = getStyles this_props in
        thenDo (renderData env this_props this_state style) (\<lambda>rendered.
          let group = G [(''style'', get style ''parent'')] [[Some rendered]]
          in Inr (if truthy (props_standalone this_props)
                  then Svg (assign
                              [(''style'', get style ''parent''),
                               (''viewBox'', Arr [Num 0, Num 0, props_width this_props,
                                                 props_height this_props])]
                              [get (props_events this_props) ''parent''])
                         [[Some group]]
                  else group)))"

text \<open>
  \<^verbatim>\<open>Label.render()\<close>, on the props of the label element. Only \<^verbatim>\<open>style\<close>, \<^verbatim>\<open>datum\<close>,
  \<^verbatim>\<open>events\<close>, \<^verbatim>\<open>index\<close>, \<^verbatim>\<open>position\<close> and \<^verbatim>\<open>text\<close> are bound; after the style is
  evaluated the object literal reads \<^verbatim>\<open>position.x\<close> and \<^verbatim>\<open>position.y\<close> and then the
  identifier \<^verbatim>\<open>dy\<close>, which nothing in scope declares: a ReferenceError.
\<close>

definition Label_render :: "'k env \<Rightarrow> jsobj \<Rightarrow> error + element" where
  "Label_render env this_props =
     (let style = get this_props ''style'';
          datum = get this_props ''datum'';
          position = get this_props ''position''
      in thenDo (evaluateStyle env style datum) (\<lambda>labelStyle.
         thenDo (getProp position ''x'') (\<lambda>px.
         thenDo (getProp position ''y'') (\<lambda>py.
           Inl ReferenceError))))"

text \<open>
  Collaborators to run the model with, for a pass in which \<^verbatim>\<open>Data.getData\<close> returns
  \<open>dataset\<close>. The order of the sort is lodash's on numbers. Every function value stands for
  the identity: a scale returns the value it is given. \<open>evaluateProp\<close> and
  \<open>evaluateStyle\<close> are those of \<^verbatim>\<open>victory-core\<close>: a prop that is a function is called on
  the datum and any other prop is returned as it is; a style has each of its entries
  evaluated so, and reading the keys of an undefined or null style throws a TypeError.
  There are no event handlers: the event helpers return the empty object.
\<close>

definition plainEnv :: "jsobj list \<Rightarrow> (nat \<times> int) env" where
  "plainEnv dataset =
     \<lparr> sortOrder = ascendingKey,
       getData = (\<lambda>props. dataset),
       getScale = (\<lambda>props axis. Fun 0),
       call = (\<lambda>f args. case args of [] \<Rightarrow> Undefined | v # _ \<Rightarrow> v),
       evaluateStyle = (\<lambda>style datum.
          case style of
            Undefined \<Rightarrow> Inl TypeError
          | Null \<Rightarrow> Inl TypeError
          | Obj entries \<Rightarrow>
              Inr (Obj (map (\<lambda>(k, v). (k, case v of Fun f \<Rightarrow> datum | _ \<Rightarrow> v)) entries))
          | v \<Rightarrow> Inr v),
       evaluateProp = (\<lambda>p datum. case p of Fun f \<Rightarrow> datum | _ \<Rightarrow> p),
       getEvents = (\<lambda>events namespace. Obj []),
       getPartialEvents = (\<lambda>events index childProps. Obj []) \<rparr>"

section \<open>The segmenter on a store\<close>

text \<open>
  \<^verbatim>\<open>getDataSegments\<close> once more, with the arrays and objects it works on held in a
  store, so that what it writes and what it leaves alone can be stated. A cell of the store
  is an object or an array of references; an address is a position in the store, and
  allocation appends a cell. Reading an address that holds no cell of the kind asked for
  gives the empty array or the empty object.
\<close>

datatype cell = ObjectCell jsobj | ArrayCell "nat list"

type_synonym store = "cell list"

definition alloc :: "store \<Rightarrow> cell \<Rightarrow> nat \<times> store" where
  "alloc h c = (length h, h @ [c])"

definition arrayAt :: "store \<Rightarrow> nat \<Rightarrow> nat list" where
  "arrayAt h a =
     (if a < length h then (case h ! a of ArrayCell refs \<Rightarrow> refs | ObjectCell obj \<Rightarrow> [])
      else [])"

definition objectAt :: "store \<Rightarrow> nat \<Rightarrow> jsobj" where
  "objectAt h a =
     (if a < length h then (case h ! a of ObjectCell obj \<Rightarrow> obj | ArrayCell refs \<Rightarrow> [])
      else [])"

text \<open>\<^verbatim>\<open>array.push(v)\<close> writes the cell of the array in place.\<close>

definition push :: "store \<Rightarrow> nat \<Rightarrow> nat \<Rightarrow> store" where
  "push h array v = h[array := ArrayCell (arrayAt h array @ [v])]"

text \<open>
  \<^verbatim>\<open>sortBy\<close>, \<^verbatim>\<open>slice\<close> and \<^verbatim>\<open>filter\<close> read their array and return a new one.
\<close>

definition sortBy_store ::
  "(jsval \<Rightarrow> 'k::linorder) \<Rightarrow> store \<Rightarrow> nat \<Rightarrow> string \<Rightarrow> nat \<times> store" where
  "sortBy_store ascending h collection iteratee =
     alloc h (ArrayCell
       (sort_key (\<lambda>r. ascending (get (objectAt h r) iteratee)) (arrayAt h collection)))"

definition slice_store :: "store \<Rightarrow> nat \<Rightarrow> nat \<Rightarrow> nat \<Rightarrow> nat \<times> store" where
  "slice_store h array start end = alloc h (ArrayCell (slice (arrayAt h array) start end))"

definition filter_store :: "store \<Rightarrow> nat \<Rightarrow> (nat \<Rightarrow> bool) \<Rightarrow> nat \<times> store" where
  "filter_store h array predicate = alloc h (ArrayCell (filter predicate (arrayAt h array)))"

text \<open>
  The callback of the scan and \<^verbatim>\<open>getDataSegments\<close> itself: \<open>orderedData\<close> and
  \<open>segments\<close> are the addresses of the two arrays the function allocates, \<open>datum\<close> is a
  reference to a data point.
\<close>

definition closeRun_store ::
  "nat \<Rightarrow> nat \<Rightarrow> nat \<Rightarrow> nat \<Rightarrow> store \<times> nat \<Rightarrow> store \<times> nat" where
  "closeRun_store orderedData segments datum index st =
     (case st of (h, segmentStartIndex) \<Rightarrow>
        if isGap (objectAt h datum)
        then (case slice_store h orderedData segmentStartIndex index of
                (run, h') \<Rightarrow> (push h' segments run, index + 1))
        else (h, segmentStartIndex))"

definition getDataSegments_store ::
  "(jsval \<Rightarrow> 'k::linorder) \<Rightarrow> store \<Rightarrow> nat \<Rightarrow> nat \<times> store" where
  "getDataSegments_store ascending h dataset =
     (case sortBy_store ascending h dataset ''x'' of (orderedData, h1) \<Rightarrow>
      case alloc h1 (ArrayCell []) of (segments, h2) \<Rightarrow>
      case forEach (arrayAt h2 orderedData) (closeRun_store orderedData segments) (h2, 0) of
        (h3, segmentStartIndex) \<Rightarrow>
      case slice_store h3 orderedData segmentStartIndex (length (arrayAt h3 orderedData)) of
        (run, h4) \<Rightarrow>
      filter_store (push h4 segments run) segments
        (\<lambda>segment. length (arrayAt (push h4 segments run) segment) > 0))"

text \<open>The values a store holds at an array of segments and at an array of data points.\<close>

definition segmentsAt :: "store \<Rightarrow> nat \<Rightarrow> jsobj list list" where
  "segmentsAt h segments = map (\<lambda>segment. map (objectAt h) (arrayAt h segment)) (arrayAt h segments)"

definition datasetAt :: "store \<Rightarrow> nat \<Rightarrow> jsobj list" where
  "datasetAt h dataset = map (objectAt h) (arrayAt h dataset)"

text \<open>
  A store extends another when the cells of the other are all there, unchanged.
\<close>

definition extends :: "store \<Rightarrow> store \<Rightarrow> bool" where
  "extends h0 h \<longleftrightarrow> take (length h0) h = h0"

text \<open>
  The relation the scan on the store keeps with the scan on values: below the array
  \<open>segments\<close> the store is the initial one followed by the sorted array \<open>xs\<close>, and the
  array \<open>segments\<close> holds references to arrays that were allocated after it, whose
  elements are elements of \<open>xs\<close> and whose values are the segments \<open>segs\<close>.
\<close>

definition storeRel :: "store \<Rightarrow> nat list \<Rightarrow> store \<Rightarrow> jsobj list list \<Rightarrow> bool" where
  "storeRel h xs hn segs \<longleftrightarrow>
     take (Suc (length h)) hn = h @ [ArrayCell xs] \<and> Suc (length h) < length hn \<and>
     (\<exists>segrefs. hn ! Suc (length h) = ArrayCell segrefs \<and>
        (\<forall>s \<in> set segrefs. Suc (length h) < s \<and> s < length hn \<and> set (arrayAt hn s) \<subseteq> set xs) \<and>
        map (\<lambda>s. map (objectAt h) (arrayAt hn s)) segrefs = segs)"

section \<open>The invariant of the scan\<close>

text \<open>
  The invariant of the scan after \<open>n\<close> points: the closed segments followed by the open
  run are the points seen so far without the gaps, and neither holds a gap.
\<close>

definition scanInv :: "jsobj list \<Rightarrow> nat \<Rightarrow> jsobj list list \<times> nat \<Rightarrow> bool" where
  "scanInv xs n st \<longleftrightarrow>
     (case st of (segs, start) \<Rightarrow>
        start \<le> n \<and>
        concat segs @ slice xs start n = filter (\<lambda>d. \<not> isGap d) (take n xs) \<and>
        (\<forall>d \<in> set (slice xs start n). \<not> isGap d) \<and>
        (\<forall>seg \<in> set segs. \<forall>d \<in> set seg. \<not> isGap d))"

section \<open>The render pass on a store\<close>

text \<open>
  The render pass once more, with the objects it merges held in the store, so that what
  \<^verbatim>\<open>assign\<close> and \<^verbatim>\<open>defaults\<close> write can be stated: both write the object that is their
  first argument, in place, and return it. The objects of the props and of the state that
  the pass merges from, the default styles and the data points are cells of the store; the
  pass is given their addresses. A property whose value is an object is kept in its cell by
  value: the pass writes no object through a property of another. Creating an element
  (JSX, \<^verbatim>\<open>React.cloneElement\<close>) builds a value from what the store holds at that moment.
\<close>

definition newObject :: "store \<Rightarrow> jsobj \<Rightarrow> nat \<times> store" where
  "newObject h literal = alloc h (ObjectCell literal)"

text \<open>A merge source: the object at an address, or \<^verbatim>\<open>undefined\<close>.\<close>

definition sourceAt :: "store \<Rightarrow> nat option \<Rightarrow> jsval" where
  "sourceAt h source = (case source of None \<Rightarrow> Undefined | Some object \<Rightarrow> Obj (objectAt h object))"

definition assign_store :: "nat \<times> store \<Rightarrow> nat option list \<Rightarrow> nat \<times> store" where
  "assign_store target sources =
     (case target of (object, h) \<Rightarrow>
        (object,
         fold (\<lambda>source h.
                 h[object := ObjectCell (assignOne (objectAt h object) (sourceAt h source))])
           sources h))"

definition defaults_store :: "nat \<times> store \<Rightarrow> nat option list \<Rightarrow> nat \<times> store" where
  "defaults_store target sources =
     (case target of (object, h) \<Rightarrow>
        (object,
         fold (\<lambda>source h.
                 h[object := ObjectCell (defaultsOne (objectAt h object) (sourceAt h source))])
           sources h))"

text \<open>
  Where the objects of a mounted component are: the entries of \<^verbatim>\<open>this.props.style\<close>, the
  own props of the marker and the label component, the overrides of \<^verbatim>\<open>this.state\<close> by
  index, and the entries of the module's \<^verbatim>\<open>defaultStyles\<close>. The other props are values,
  in \<open>props_values\<close>.
\<close>

record refs =
  props_values :: props
  style_at :: "(string \<times> nat) list"
  markerComponent_props_at :: nat
  labelComponent_props_at :: nat
  dataState_at :: "(nat \<times> nat) list"
  markersState_at :: "(nat \<times> nat) list"
  labelsState_at :: "(nat \<times> nat) list"
  defaultStyles_at :: "(string \<times> nat) list"

text \<open>The values the store holds for an object of objects, for the props and for the state.\<close>

definition objectsAt :: "store \<Rightarrow> ('a \<times> nat) list \<Rightarrow> ('a \<times> jsval) list" where
  "objectsAt h entries = map (\<lambda>(k, object). (k, Obj (objectAt h object))) entries"

definition propsAt :: "store \<Rightarrow> refs \<Rightarrow> props" where
  "propsAt h this =
     (props_values this)\<lparr>
        props_style := Obj (objectsAt h (style_at this)),
        props_markerComponent :=
          \<lparr> component_type = component_type (props_markerComponent (props_values this)),
            component_props = objectAt h (markerComponent_props_at this) \<rparr>,
        props_labelComponent :=
          \<lparr> component_type = component_type (props_labelComponent (props_values this)),
            component_props = objectAt h (labelComponent_props_at this) \<rparr> \<rparr>"

definition stateOf :: "store \<Rightarrow> refs \<Rightarrow> state" where
  "stateOf h this =
     \<lparr> dataState = objectsAt h (dataState_at this),
       markersState = objectsAt h (markersState_at this),
       labelsState = objectsAt h (labelsState_at this) \<rparr>"

text \<open>
  The store holds a mounted component when every address is one of the store and the
  default styles are those of the module.
\<close>

definition inStore :: "store \<Rightarrow> refs \<Rightarrow> bool" where
  "inStore h this \<longleftrightarrow>
     list_all (\<lambda>object. object < length h)
       (markerComponent_props_at this # labelComponent_props_at this
        # map snd (style_at this) @ map snd (defaultStyles_at this)
        @ map snd (dataState_at this) @ map snd (markersState_at this)
        @ map snd (labelsState_at this))
     \<and> objectsAt h (defaultStyles_at this) = defaultStyles"

text \<open>
  An address is valid when it is one of the store; \<^verbatim>\<open>undefined\<close> is a valid merge source.
\<close>

definition validSource :: "store \<Rightarrow> nat option \<Rightarrow> bool" where
  "validSource h source \<longleftrightarrow> (case source of None \<Rightarrow> True | Some a \<Rightarrow> a < length h)"

definition validRefs :: "store \<Rightarrow> ('a \<times> nat) list \<Rightarrow> bool" where
  "validRefs h entries \<longleftrightarrow> list_all (\<lambda>object. object < length h) (map snd entries)"

text \<open>Sequencing on the store: a throw keeps the store as it is at that moment.\<close>

definition thenDo_store ::
  "(error + 'a) \<times> store \<Rightarrow> ('a \<Rightarrow> store \<Rightarrow> (error + 'b) \<times> store) \<Rightarrow> (error + 'b) \<times> store" where
  "thenDo_store r f = (case r of (Inl e, h) \<Rightarrow> (Inl e, h) | (Inr v, h) \<Rightarrow> f v h)"

fun mapE_store ::
  "('a \<Rightarrow> store \<Rightarrow> (error + 'b) \<times> store) \<Rightarrow> 'a list \<Rightarrow> store \<Rightarrow> (error + 'b list) \<times> store" where
  "mapE_store f [] h = (Inr [], h)"
| "mapE_store f (x # xs) h =
     thenDo_store (f x h) (\<lambda>y h. thenDo_store (mapE_store f xs h) (\<lambda>ys h. (Inr (y # ys), h)))"

text \<open>\<^verbatim>\<open>getStyles(props)\<close>: four new objects, each filled by \<^verbatim>\<open>defaults\<close>.\<close>

definition getStyles_store :: "refs \<Rightarrow> store \<Rightarrow> (string \<times> nat) list \<times> store" where
  "getStyles_store this h =
     (let style = style_at this; defaultStyles' = defaultStyles_at this in
      case defaults_store (newObject h [(''width'', Str ''100%''), (''height'', Str ''auto'')])
             [map_of style ''parent'', map_of defaultStyles' ''parent''] of (parent, h) \<Rightarrow>
      case defaults_store (newObject h [])
             [map_of style ''data'', map_of defaultStyles' ''data''] of (data, h) \<Rightarrow>
      case defaults_store (newObject h [])
             [map_of style ''labels'', map_of defaultStyles' ''labels''] of (labels, h) \<Rightarrow>
      case defaults_store (newObject h [])
             [map_of style ''line'', map_of defaultStyles' ''line''] of (line, h) \<Rightarrow>
        ([(''parent'', parent), (''data'', data), (''labels'', labels), (''line'', line)], h))"

text \<open>
  \<^verbatim>\<open>getLabelStyle(style, datum)\<close>, with \<open>style\<close> the addresses of the entries of the style
  and \<open>datum\<close> the value of the data point.
\<close>

definition getLabelStyle_store ::
  "'k env \<Rightarrow> (string \<times> nat) list \<Rightarrow> jsval \<Rightarrow> store \<Rightarrow> (error + jsval) \<times> store" where
  "getLabelStyle_store env style datum h =
     thenDo_store (getProp (sourceAt h (map_of style ''line'')) ''stroke'', h) (\<lambda>fill h.
     thenDo_store (getProp (sourceAt h (map_of style ''labels'')) ''padding'', h) (\<lambda>p h.
       let padding = js_or p (Num 0) in
       case newObject h [] of (object, h) \<Rightarrow>
       case newObject h [(''fill'', fill), (''padding'', padding)] of (literal, h) \<Rightarrow>
       case defaults_store (object, h) [map_of style ''labels'', Some literal] of (labelStyle, h) \<Rightarrow>
         (evaluateStyle env (Obj (objectAt h labelStyle)) datum, h)))"

text \<open>
  The locals \<^verbatim>\<open>markerProps\<close> and \<^verbatim>\<open>labelProps\<close> of the callback of
  \<^verbatim>\<open>renderMarkersAndLabels\<close> and the objects the marker and the label are cloned with:
  \<open>shared\<close> is the address of \<^verbatim>\<open>sharedProps\<close>, \<open>datum\<close> that of the data point. The
  second \<^verbatim>\<open>assign\<close> of the label writes \<^verbatim>\<open>labelProps\<close> itself.
\<close>

definition markerProps_store ::
  "'k env \<Rightarrow> refs \<Rightarrow> (string \<times> nat) list \<Rightarrow> nat \<Rightarrow> nat \<Rightarrow> nat \<Rightarrow> store
     \<Rightarrow> (error + nat) \<times> store" where
  "markerProps_store env this style shared datum index h =
     thenDo_store
       (evaluateStyle env (sourceAt h (map_of style ''markers'')) (Obj (objectAt h datum)), h)
       (\<lambda>markerStyle h.
          case assign_store
                 (newObject h [(''key'', keyOf ''marker-'' index), (''style'', markerStyle)])
                 [Some shared, Some (markerComponent_props_at this),
                  map_of (markersState_at this) index] of
            (mProps, h) \<Rightarrow> (Inr mProps, h))"

definition markerCloneProps_store ::
  "'k env \<Rightarrow> refs \<Rightarrow> (string \<times> nat) list \<Rightarrow> nat \<Rightarrow> nat \<Rightarrow> nat \<Rightarrow> store
     \<Rightarrow> (error + nat) \<times> store" where
  "markerCloneProps_store env this style shared datum index h =
     thenDo_store (markerProps_store env this style shared datum index h) (\<lambda>mProps h.
       let markersEvents =
             getEvents env (get (props_events (propsAt h this)) ''markers'') ''markers''
       in case assign_store
                 (newObject h [(''events'', getPartialEvents env markersEvents index
                                             (objectAt h mProps))])
                 [Some mProps] of
            (object, h) \<Rightarrow> (Inr object, h))"

definition labelProps_store ::
  "'k env \<Rightarrow> refs \<Rightarrow> jsval \<Rightarrow> jsval \<Rightarrow> nat \<Rightarrow> nat \<Rightarrow> store \<Rightarrow> (error + nat) \<times> store" where
  "labelProps_store env this labelStyle text shared index h =
     thenDo_store (getProp labelStyle ''padding'', h) (\<lambda>dy h.
     thenDo_store (getProp labelStyle ''textAnchor'', h) (\<lambda>textAnchor h.
     thenDo_store (getProp labelStyle ''verticalAnchor'', h) (\<lambda>verticalAnchor h.
       case assign_store
              (newObject h
                 [(''key'', keyOf ''label-'' index),
                  (''dy'', dy),
                  (''textAnchor'', textAnchor),
                  (''verticalAnchor'', js_or verticalAnchor (Str ''end'')),
                  (''style'', labelStyle),
                  (''text'', text)])
              [Some (labelComponent_props_at this), Some shared,
               map_of (labelsState_at this) index] of
         (lProps, h) \<Rightarrow> (Inr lProps, h))))"

definition labelCloneProps_store ::
  "'k env \<Rightarrow> refs \<Rightarrow> jsval \<Rightarrow> jsval \<Rightarrow> nat \<Rightarrow> nat \<Rightarrow> store \<Rightarrow> (error + nat) \<times> store" where
  "labelCloneProps_store env this labelStyle text shared index h =
     thenDo_store (labelProps_store env this labelStyle text shared index h) (\<lambda>lProps h.
       let labelsEvents =
             getEvents env (get (props_events (propsAt h this)) ''labels'') ''labels''
       in case newObject h [(''events'', getPartialEvents env labelsEvents index
                                           (objectAt h lProps))] of (literal, h) \<Rightarrow>
          case assign_store (lProps, h) [Some literal] of
            (object, h) \<Rightarrow> (Inr object, h))"

text \<open>The callback of \<^verbatim>\<open>renderMarkersAndLabels\<close> and the map itself.\<close>

definition renderMarkerAndLabel_store ::
  "'k env \<Rightarrow> refs \<Rightarrow> jsobj \<Rightarrow> (string \<times> nat) list \<Rightarrow> nat \<Rightarrow> nat \<Rightarrow> store
     \<Rightarrow> (error + element option) \<times> store" where
  "renderMarkerAndLabel_store env this scale style datum index h =
     (if isGap (objectAt h datum) then (Inr None, h)
      else
        case newObject h (sharedProps env scale (objectAt h datum) index) of (shared, h) \<Rightarrow>
        thenDo_store (markerCloneProps_store env this style shared datum index h) (\<lambda>mProps h.
          let props = propsAt h this;
              marker = CloneElement (props_markerComponent props) (objectAt h mProps);
              text = getLabelText env props (objectAt h datum) index
          in if truthy text \<or> props_labels props = Bool True
             then
               thenDo_store (getLabelStyle_store env style (Obj (objectAt h datum)) h)
                 (\<lambda>labelStyle h.
               thenDo_store (labelCloneProps_store env this labelStyle text shared index h)
                 (\<lambda>lProps h.
                    let label = CloneElement (props_labelComponent (propsAt h this))
                                  (objectAt h lProps)
                    in (Inr (Some (G [(''key'', keyOf ''marker-group-'' index)]
                                     [[Some marker], [Some label]])), h)))
             else (Inr (Some marker), h)))"

definition renderMarkersAndLabels_store ::
  "'k env \<Rightarrow> refs \<Rightarrow> nat \<Rightarrow> jsobj \<Rightarrow> (string \<times> nat) list \<Rightarrow> store
     \<Rightarrow> (error + element option list) \<times> store" where
  "renderMarkersAndLabels_store env this dataset scale style h =
     mapE_store (\<lambda>(index, datum). renderMarkerAndLabel_store env this scale style datum index)
       (enumerate 0 (arrayAt h dataset)) h"

text \<open>
  \<^verbatim>\<open>renderSeriesLabel\<close>, \<^verbatim>\<open>renderData\<close> and \<^verbatim>\<open>render\<close>. \<open>dataset\<close> is the address of the
  array \<^verbatim>\<open>Data.getData(props)\<close> returns, \<open>dataSegments\<close> that of the array of segments.
  \<^verbatim>\<open>renderLine\<close> merges nothing: it is run on the values.
\<close>

definition renderSeriesLabel_store ::
  "'k env \<Rightarrow> refs \<Rightarrow> nat \<Rightarrow> nat \<Rightarrow> jsobj \<Rightarrow> (string \<times> nat) list \<Rightarrow> store
     \<Rightarrow> (error + element option) \<times> store" where
  "renderSeriesLabel_store env this dataset dataSegments scale style h =
     (let props = propsAt h this in
      if \<not> truthy (props_seriesLabel props) then (Inr None, h)
      else
        let segments = segmentsAt h dataSegments;
            lastSegment =
              (if segments = [] then Undefined else Arr (map Obj (last segments)));
            lastPoint =
              (case lastSegment of
                 Arr points \<Rightarrow> (if points = [] then Undefined else last points)
               | v \<Rightarrow> v);
            events = getEvents env (get (props_events props) ''labels'') ''labels'';
            data = datasetAt h dataset
        in thenDo_store (getProp lastPoint ''x'', h) (\<lambda>px h.
           thenDo_store (getProp lastPoint ''y'', h) (\<lambda>py h.
           thenDo_store (getLabelStyle_store env style Undefined h) (\<lambda>labelStyle h.
             (Inr (Some (LineLabel
                    [(''key'', Str ''line-label''),
                     (''events'', events),
                     (''data'', Arr (map Obj data)),
                     (''x'', call env (get scale ''x'') [px]),
                     (''y'', call env (get scale ''y'') [py]),
                     (''label'', props_seriesLabel props),
                     (''style'', labelStyle)])), h)))))"

definition renderData_store ::
  "('k::linorder) env \<Rightarrow> refs \<Rightarrow> (string \<times> nat) list \<Rightarrow> nat \<Rightarrow> store
     \<Rightarrow> (error + element) \<times> store" where
  "renderData_store env this style dataset h =
     (case getDataSegments_store (sortOrder env) h dataset of (dataSegments, h) \<Rightarrow>
      let props = propsAt h this;
          scale = [(''x'', getScale env props ''x''), (''y'', getScale env props ''y'')];
          parent = sourceAt h (map_of style ''parent'');
          line = renderLine env props (segmentsAt h dataSegments) scale (objectsAt h style)
      in thenDo_store (renderMarkersAndLabels_store env this dataset scale style h) (\<lambda>markers h.
         thenDo_store (renderSeriesLabel_store env this dataset dataSegments scale style h)
           (\<lambda>seriesLabel h.
              (Inr (G [(''style'', parent)] [map Some line, markers, [seriesLabel]]), h))))"

definition render_store ::
  "('k::linorder) env \<Rightarrow> refs \<Rightarrow> nat \<Rightarrow> store \<Rightarrow> (error + element) \<times> store" where
  "render_store env this dataset h =
     (let this_props = propsAt h this in
      if truthy (props_animate this_props)
      then (Inr (VictoryTransition
                   [(''animate'', props_animate this_props),
                    (''animationWhitelist'', Arr (map Str whitelist))]
                   (VictoryLine this_props)), h)
      else
        case getStyles_store this h of (style, h) \<Rightarrow>
        thenDo_store (renderData_store env this style dataset h) (\<lambda>rendered h.
          let parent = sourceAt h (map_of style ''parent'');
              group = G [(''style'', parent)] [[Some rendered]]
          in (Inr (if truthy (props_standalone this_props)
                   then Svg (assign
                               [(''style'', parent),
                                (''viewBox'', Arr [Num 0, Num 0, props_width this_props,
                                                  props_height this_props])]
                               [get (props_events this_props) ''parent''])
                          [[Some group]]
                   else group), h)))"

text \<open>
  A store to run the pass on. Cells 0 to 2 are the default styles, cell 3 is the \<^verbatim>\<open>data\<close>
  entry of the \<^verbatim>\<open>style\<close> prop, cells 4 and 5 are the props of the marker and the label
  component, cell 6 is the override stored for the marker of index 2, cells 7 to 9 are
  three data points, the second one a gap, cell 10 is the array of the three and cell 11
  an empty object. \<open>exampleThis\<close> is a component with these objects and a series label,
  \<open>exampleStyle\<close> a style with a \<^verbatim>\<open>markers\<close> entry, as \<^verbatim>\<open>renderData\<close> can be given one.
\<close>

definition exampleStore :: store where
  "exampleStore =
     [ObjectCell [(''opacity'', Num 1)],
      ObjectCell [(''strokeWidth'', Num 2), (''fill'', Str ''none''),
                  (''stroke'', Str ''#756f6a''), (''opacity'', Num 1)],
      ObjectCell [(''padding'', Num 5), (''fontFamily'', Str ''Helvetica''),
                  (''fontSize'', Num 10), (''strokeWidth'', Num 0),
                  (''stroke'', Str ''transparent''), (''textAnchor'', Str ''start'')],
      ObjectCell [(''stroke'', Str ''red'')],
      ObjectCell [(''size'', Num 3)],
      ObjectCell [],
      ObjectCell [(''style'', Obj [(''fill'', Str ''blue'')])],
      ObjectCell [(''x'', Num 1), (''y'', Num 1), (''label'', Str ''a'')],
      ObjectCell [(''x'', Num 2), (''y'', Null)],
      ObjectCell [(''x'', Num 3), (''y'', Num 3)],
      ArrayCell [7, 8, 9],
      ObjectCell []]"

definition exampleThis :: refs where
  "exampleThis =
     \<lparr> props_values = defaultProps\<lparr>props_seriesLabel := Str ''s''\<rparr>,
       style_at = [(''data'', 3)],
       markerComponent_props_at = 4,
       labelComponent_props_at = 5,
       dataState_at = [],
       markersState_at = [(2, 6)],
       labelsState_at = [],
       defaultStyles_at = [(''markers'', 0), (''data'', 1), (''labels'', 2)] \<rparr>"

definition exampleStyle :: "(string \<times> nat) list" where
  "exampleStyle = [(''markers'', 0), (''data'', 3), (''labels'', 2), (''line'', 11)]"

definition exampleData :: "jsobj list" where
  "exampleData =
     [[(''x'', Num 1), (''y'', Num 1), (''label'', Str ''a'')],
      [(''x'', Num 2), (''y'', Null)],
      [(''x'', Num 3), (''y'', Num 3)]]"

section \<open>Properties of the segmenter\<close>

lemma slice_Suc:
  "a \<le> n \<Longrightarrow> n < length xs \<Longrightarrow> slice xs a (Suc n) = slice xs a n @ [xs ! n]"
  by (simp add: slice_def Suc_diff_le take_Suc_conv_app_nth)

lemma slice_same: "slice xs a a = []"
  by (simp add: slice_def)

lemma forEach_take_Suc:
  "n < length xs \<Longrightarrow>
   forEach (take (Suc n) xs) f s = f (xs ! n) n (forEach (take n xs) f s)"
  by (simp add: forEach_def take_Suc_conv_app_nth enumerate_append_eq min_def)

lemma scanInv_step:
  assumes "scanInv xs n st" "n < length xs"
  shows "scanInv xs (Suc n) (closeRun xs (xs ! n) n st)"
proof (cases st)
  case (Pair segs start)
  with assms show ?thesis
    by (auto simp: scanInv_def closeRun_def slice_Suc slice_same take_Suc_conv_app_nth)
qed

lemma scanInv_forEach:
  "n \<le> length xs \<Longrightarrow> scanInv xs n (forEach (take n xs) (closeRun xs) ([], 0))"
proof (induction n)
  case 0
  show ?case by (simp add: scanInv_def forEach_def slice_same)
next
  case (Suc n)
  then show ?case by (simp add: forEach_take_Suc scanInv_step)
qed

lemma concat_filter_nonempty:
  "concat (filter (\<lambda>segment. length segment > 0) xss) = concat xss"
  by (induction xss) auto

text \<open>What \<^verbatim>\<open>getDataSegments\<close> returns, in terms of the final state of the scan.\<close>

lemma getDataSegments_scan:
  obtains segs start where
    "getDataSegments ascending D =
       filter (\<lambda>segment. length segment > 0)
         (segs @ [slice (sortBy ascending D ''x'') start (length (sortBy ascending D ''x''))])"
    "scanInv (sortBy ascending D ''x'') (length (sortBy ascending D ''x'')) (segs, start)"
proof -
  define xs where "xs = sortBy ascending D ''x''"
  obtain segs start where st: "forEach xs (closeRun xs) ([], 0) = (segs, start)"
    by (cases "forEach xs (closeRun xs) ([], 0)")
  have "scanInv xs (length xs) (forEach (take (length xs) xs) (closeRun xs) ([], 0))"
    by (rule scanInv_forEach) simp
  with st have inv: "scanInv xs (length xs) (segs, start)" by simp
  have "getDataSegments ascending D =
          filter (\<lambda>segment. length segment > 0) (segs @ [slice xs start (length xs)])"
    using st by (simp add: getDataSegments_def xs_def [symmetric])
  with inv that show thesis unfolding xs_def by blast
qed

lemma getDataSegments_concat:
  "concat (getDataSegments ascending D) =
     filter (\<lambda>d. \<not> isGap d) (sortBy ascending D ''x'')"
proof -
  obtain segs start where
    r: "getDataSegments ascending D =
       filter (\<lambda>segment. length segment > 0)
         (segs @ [slice (sortBy ascending D ''x'') start (length (sortBy ascending D ''x''))])"
    and inv: "scanInv (sortBy ascending D ''x'') (length (sortBy ascending D ''x'')) (segs, start)"
    by (rule getDataSegments_scan)
  from inv show ?thesis
    unfolding r concat_filter_nonempty by (simp add: scanInv_def)
qed

lemma getDataSegments_nonempty: "[] \<notin> set (getDataSegments ascending D)"
proof -
  obtain segs start where
    r: "getDataSegments ascending D =
       filter (\<lambda>segment. length segment > 0)
         (segs @ [slice (sortBy ascending D ''x'') start (length (sortBy ascending D ''x''))])"
    by (rule getDataSegments_scan)
  show ?thesis unfolding r by simp
qed

lemma getDataSegments_no_gap:
  "segment \<in> set (getDataSegments ascending D) \<Longrightarrow> d \<in> set segment \<Longrightarrow> \<not> isGap d"
proof -
  assume a: "segment \<in> set (getDataSegments ascending D)" "d \<in> set segment"
  obtain segs start where
    r: "getDataSegments ascending D =
       filter (\<lambda>segment. length segment > 0)
         (segs @ [slice (sortBy ascending D ''x'') start (length (sortBy ascending D ''x''))])"
    and inv: "scanInv (sortBy ascending D ''x'') (length (sortBy ascending D ''x'')) (segs, start)"
    by (rule getDataSegments_scan)
  from a inv show ?thesis
    unfolding r by (auto simp: scanInv_def split: if_splits)
qed

lemma sortBy_mset: "mset (sortBy ascending D k) = mset D"
  by (simp add: sortBy_def)

lemma sortBy_sorted: "sorted (map (\<lambda>d. ascending (get d k)) (sortBy ascending D k))"
  by (simp add: sortBy_def)

lemma sortBy_stable:
  "filter (\<lambda>d. ascending (get d k) = v) (sortBy ascending D k) =
   filter (\<lambda>d. ascending (get d k) = v) D"
  unfolding sortBy_def by (rule sort_key_stable)

text \<open>
  C1. For every dataset, the segments concatenated in order are the dataset sorted
  by \<^verbatim>\<open>x\<close> (a stable sort: ascending, a permutation of the dataset, points with equal
  \<^verbatim>\<open>x\<close> in their original order) without the points whose \<^verbatim>\<open>y\<close> is null or undefined.
  So every point that is not a gap is in exactly one segment, as often as it is in the
  dataset; no segment is empty and no segment holds a gap.
\<close>

theorem getDataSegments_partition:
  "concat (getDataSegments ascending D) =
     filter (\<lambda>d. \<not> isGap d) (sortBy ascending D ''x'')
   \<and> sorted (map (\<lambda>d. ascending (get d ''x'')) (sortBy ascending D ''x''))
   \<and> mset (sortBy ascending D ''x'') = mset D
   \<and> (\<forall>v. filter (\<lambda>d. ascending (get d ''x'') = v) (sortBy ascending D ''x'') =
          filter (\<lambda>d. ascending (get d ''x'') = v) D)
   \<and> mset (concat (getDataSegments ascending D)) = filter_mset (\<lambda>d. \<not> isGap d) (mset D)
   \<and> [] \<notin> set (getDataSegments ascending D)
   \<and> (\<forall>segment \<in> set (getDataSegments ascending D). \<forall>d \<in> set segment. \<not> isGap d)"
proof -
  have "mset (concat (getDataSegments ascending D)) =
          filter_mset (\<lambda>d. \<not> isGap d) (mset (sortBy ascending D ''x''))"
    by (simp add: getDataSegments_concat)
  then have "mset (concat (getDataSegments ascending D)) =
          filter_mset (\<lambda>d. \<not> isGap d) (mset D)"
    by (simp only: sortBy_mset)
  then show ?thesis
    using getDataSegments_concat [of ascending D] sortBy_sorted [of ascending "''x''" D]
      sortBy_mset [of ascending D "''x''"] sortBy_stable [of ascending "''x''" _ D]
      getDataSegments_nonempty [of ascending D] getDataSegments_no_gap [of _ ascending D]
    by blast
qed

theorem getDataSegments_partition_witness:
  "getDataSegments ascendingKey
     [[(''x'', Num 3), (''y'', Num 1)], [(''x'', Num 2), (''y'', Null)],
      [(''x'', Num 1), (''y'', Num 2)], [(''x'', Num 0)]] =
     [[[(''x'', Num 1), (''y'', Num 2)]], [[(''x'', Num 3), (''y'', Num 1)]]]
   \<and> concat (getDataSegments ascendingKey
     [[(''x'', Num 3), (''y'', Num 1)], [(''x'', Num 2), (''y'', Null)],
      [(''x'', Num 1), (''y'', Num 2)], [(''x'', Num 0)]]) =
     filter (\<lambda>d. \<not> isGap d) (sortBy ascendingKey
       [[(''x'', Num 3), (''y'', Num 1)], [(''x'', Num 2), (''y'', Null)],
        [(''x'', Num 1), (''y'', Num 2)], [(''x'', Num 0)]] ''x'')
   \<and> \<not> isGap [(''x'', Num 1), (''y'', Num 2)]
   \<and> \<not> isGap [(''x'', Num 3), (''y'', Num 1)]"
proof -
  have "getDataSegments ascendingKey
     [[(''x'', Num 3), (''y'', Num 1)], [(''x'', Num 2), (''y'', Null)],
      [(''x'', Num 1), (''y'', Num 2)], [(''x'', Num 0)]] =
     [[[(''x'', Num 1), (''y'', Num 2)]], [[(''x'', Num 3), (''y'', Num 1)]]]"
    by (simp add: getDataSegments_def sortBy_def forEach_def closeRun_def slice_def
        isGap_def get_def)
  then show ?thesis
    using getDataSegments_partition [of ascendingKey
     "[[(''x'', Num 3), (''y'', Num 1)], [(''x'', Num 2), (''y'', Null)],
      [(''x'', Num 1), (''y'', Num 2)], [(''x'', Num 0)]]"]
    by simp
qed

section \<open>Properties of the merges\<close>

lemma get_update: "get (AList.update k v obj) k' = (if k' = k then v else get obj k')"
  by (simp add: get_def update_conv')

lemma get_fold_update:
  "get (fold (\<lambda>key obj. AList.update key (f key) obj) ks obj) k =
     (if k \<in> set ks then f k else get obj k)"
  by (induction ks arbitrary: obj) (auto simp: get_update)

lemma keys_fold_update:
  "fst ` set (fold (\<lambda>key obj. AList.update key (f key) obj) ks obj) = fst ` set obj \<union> set ks"
  by (induction ks arbitrary: obj) (auto simp: dom_update)

lemma get_assignOne:
  "get (assignOne obj source) k = (if hasOwn source k then propertyOf source k else get obj k)"
  by (simp add: assignOne_def hasOwn_def get_fold_update)

lemma hasOwn_Obj: "hasOwn (Obj obj) k \<longleftrightarrow> k \<in> fst ` set obj"
  by (simp add: hasOwn_def ownKeys_def)

lemma keys_assignOne:
  "fst ` set (assignOne obj source) = fst ` set obj \<union> {k. hasOwn source k}"
  by (auto simp add: assignOne_def keys_fold_update hasOwn_def)

lemma assign_Nil: "assign obj [] = obj"
  by (simp add: assign_def)

lemma assign_Cons: "assign obj (source # sources) = assign (assignOne obj source) sources"
  by (simp add: assign_def)

lemma get_Cons: "get ((k', v) # obj) k = (if k = k' then v else get obj k)"
  by (simp add: get_def)

lemma get_Nil: "get [] k = Undefined"
  by (simp add: get_def)

lemma getProp_Inr: "getProp v k = Inr w \<Longrightarrow> w = propertyOf v k"
  by (cases v) auto

lemmas merge_simps = assign_Nil assign_Cons get_assignOne keys_assignOne hasOwn_Obj
  get_Cons get_Nil

lemma markerProps_Inr:
  assumes "markerProps env props this_state scale style datum index = Inr mProps"
  shows "\<exists>markerStyle.
    evaluateStyle env (get style ''markers'') (Obj datum) = Inr markerStyle \<and>
    (\<forall>k. get mProps k =
       (if hasOwn (stateAt (markersState this_state) index) k
        then propertyOf (stateAt (markersState this_state) index) k
        else if hasOwn (Obj (component_props (props_markerComponent props))) k
        then get (component_props (props_markerComponent props)) k
        else get ([(''key'', keyOf ''marker-'' index), (''style'', markerStyle)]
                  @ sharedProps env scale datum index) k)) \<and>
    (\<forall>k. k \<in> fst ` set mProps \<longleftrightarrow>
       k \<in> {''key'', ''style'', ''index'', ''datum'', ''x'', ''y''}
       \<or> hasOwn (Obj (component_props (props_markerComponent props))) k
       \<or> hasOwn (stateAt (markersState this_state) index) k)"
proof -
  from assms obtain markerStyle where
    e: "evaluateStyle env (get style ''markers'') (Obj datum) = Inr markerStyle"
    and m: "mProps = assign
              [(''key'', keyOf ''marker-'' index), (''style'', markerStyle)]
              [Obj (sharedProps env scale datum index),
               Obj (component_props (props_markerComponent props)),
               stateAt (markersState this_state) index]"
    by (auto simp: markerProps_def thenDo_def split: sum.splits)
  have "\<forall>k. get mProps k =
       (if hasOwn (stateAt (markersState this_state) index) k
        then propertyOf (stateAt (markersState this_state) index) k
        else if hasOwn (Obj (component_props (props_markerComponent props))) k
        then get (component_props (props_markerComponent props)) k
        else get ([(''key'', keyOf ''marker-'' index), (''style'', markerStyle)]
                  @ sharedProps env scale datum index) k)"
    unfolding m by (simp add: sharedProps_def merge_simps)
  moreover have "\<forall>k. k \<in> fst ` set mProps \<longleftrightarrow>
       k \<in> {''key'', ''style'', ''index'', ''datum'', ''x'', ''y''}
       \<or> hasOwn (Obj (component_props (props_markerComponent props))) k
       \<or> hasOwn (stateAt (markersState this_state) index) k"
    unfolding m by (simp add: sharedProps_def merge_simps)
  ultimately show ?thesis using e by blast
qed

lemma markerCloneProps_Inr:
  assumes "markerCloneProps env props this_state scale style datum index = Inr cProps"
  shows "\<exists>markerStyle mProps.
    evaluateStyle env (get style ''markers'') (Obj datum) = Inr markerStyle \<and>
    markerProps env props this_state scale style datum index = Inr mProps \<and>
    (\<forall>k. get cProps k =
       (if hasOwn (stateAt (markersState this_state) index) k
        then propertyOf (stateAt (markersState this_state) index) k
        else if hasOwn (Obj (component_props (props_markerComponent props))) k
        then get (component_props (props_markerComponent props)) k
        else get ([(''events'', getPartialEvents env
                       (getEvents env (get (props_events props) ''markers'') ''markers'') index
                       mProps),
                   (''key'', keyOf ''marker-'' index),
                   (''style'', markerStyle)]
                  @ sharedProps env scale datum index) k))"
proof -
  from assms obtain mProps where
    m: "markerProps env props this_state scale style datum index = Inr mProps"
    and c: "cProps = assign [(''events'', getPartialEvents env
                       (getEvents env (get (props_events props) ''markers'') ''markers'') index
                       mProps)] [Obj mProps]"
    by (auto simp: markerCloneProps_def thenDo_def split: sum.splits)
  from markerProps_Inr [OF m] obtain markerStyle where
    e: "evaluateStyle env (get style ''markers'') (Obj datum) = Inr markerStyle"
    and g: "\<forall>k. get mProps k =
       (if hasOwn (stateAt (markersState this_state) index) k
        then propertyOf (stateAt (markersState this_state) index) k
        else if hasOwn (Obj (component_props (props_markerComponent props))) k
        then get (component_props (props_markerComponent props)) k
        else get ([(''key'', keyOf ''marker-'' index), (''style'', markerStyle)]
                  @ sharedProps env scale datum index) k)"
    and ks: "\<forall>k. k \<in> fst ` set mProps \<longleftrightarrow>
       k \<in> {''key'', ''style'', ''index'', ''datum'', ''x'', ''y''}
       \<or> hasOwn (Obj (component_props (props_markerComponent props))) k
       \<or> hasOwn (stateAt (markersState this_state) index) k"
    by blast
  have "get cProps k =
       (if hasOwn (stateAt (markersState this_state) index) k
        then propertyOf (stateAt (markersState this_state) index) k
        else if hasOwn (Obj (component_props (props_markerComponent props))) k
        then get (component_props (props_markerComponent props)) k
        else get ([(''events'', getPartialEvents env
                       (getEvents env (get (props_events props) ''markers'') ''markers'') index
                       mProps),
                   (''key'', keyOf ''marker-'' index),
                   (''style'', markerStyle)]
                  @ sharedProps env scale datum index) k)" for k
  proof -
    have "get cProps k =
       (if k \<in> fst ` set mProps then get mProps k
        else get [(''events'', getPartialEvents env
                       (getEvents env (get (props_events props) ''markers'') ''markers'') index
                       mProps)] k)"
      unfolding c by (simp add: assign_Cons assign_Nil get_assignOne hasOwn_Obj)
    moreover note g [rule_format, of k] ks [rule_format, of k]
    ultimately show ?thesis
      by (cases "hasOwn (stateAt (markersState this_state) index) k";
          cases "hasOwn (Obj (component_props (props_markerComponent props))) k";
          cases "k \<in> {''key'', ''style'', ''index'', ''datum'', ''x'', ''y''}")
         (auto simp: get_Cons get_Nil sharedProps_def)
  qed
  with e m show ?thesis by blast
qed

lemma get_labelProps:
  assumes "labelProps env props this_state scale labelStyle text datum index = Inr lProps"
  shows "get lProps k =
     (if hasOwn (stateAt (labelsState this_state) index) k
      then propertyOf (stateAt (labelsState this_state) index) k
      else if k \<in> {''index'', ''datum'', ''x'', ''y''}
      then get (sharedProps env scale datum index) k
      else if hasOwn (Obj (component_props (props_labelComponent props))) k
      then get (component_props (props_labelComponent props)) k
      else get [(''key'', keyOf ''label-'' index),
                (''dy'', propertyOf labelStyle ''padding''),
                (''textAnchor'', propertyOf labelStyle ''textAnchor''),
                (''verticalAnchor'', js_or (propertyOf labelStyle ''verticalAnchor'') (Str ''end'')),
                (''style'', labelStyle),
                (''text'', text)] k)"
proof -
  from assms obtain dy textAnchor verticalAnchor where
    g: "getProp labelStyle ''padding'' = Inr dy"
       "getProp labelStyle ''textAnchor'' = Inr textAnchor"
       "getProp labelStyle ''verticalAnchor'' = Inr verticalAnchor"
    and l: "lProps = assign
              [(''key'', keyOf ''label-'' index),
               (''dy'', dy),
               (''textAnchor'', textAnchor),
               (''verticalAnchor'', js_or verticalAnchor (Str ''end'')),
               (''style'', labelStyle),
               (''text'', text)]
              [Obj (component_props (props_labelComponent props)),
               Obj (sharedProps env scale datum index),
               stateAt (labelsState this_state) index]"
    by (auto simp: labelProps_def thenDo_def split: sum.splits)
  from g have v: "dy = propertyOf labelStyle ''padding''"
    "textAnchor = propertyOf labelStyle ''textAnchor''"
    "verticalAnchor = propertyOf labelStyle ''verticalAnchor''"
    by (simp_all add: getProp_Inr)
  show ?thesis unfolding l v
    by (simp add: sharedProps_def merge_simps)
qed

lemma get_labelCloneProps:
  assumes "labelCloneProps env props this_state scale labelStyle text datum index = Inr cProps"
  shows "\<exists>lProps.
    labelProps env props this_state scale labelStyle text datum index = Inr lProps \<and>
    (\<forall>k. get cProps k =
       (if k = ''events''
        then getPartialEvents env (getEvents env (get (props_events props) ''labels'') ''labels'')
               index lProps
        else get lProps k))"
proof -
  from assms obtain lProps where
    l: "labelProps env props this_state scale labelStyle text datum index = Inr lProps"
    and c: "cProps = assign lProps
                 [Obj [(''events'', getPartialEvents env
                     (getEvents env (get (props_events props) ''labels'') ''labels'') index lProps)]]"
    by (auto simp: labelCloneProps_def thenDo_def split: sum.splits)
  have "\<forall>k. get cProps k =
       (if k = ''events''
        then getPartialEvents env (getEvents env (get (props_events props) ''labels'') ''labels'')
               index lProps
        else get lProps k)"
    unfolding c by (simp add: merge_simps)
  with l show ?thesis by blast
qed

section \<open>Properties of the marker and label layout\<close>

lemma mapE_Inr:
  "mapE f xs = Inr ys \<Longrightarrow> length ys = length xs \<and> (\<forall>i < length xs. f (xs ! i) = Inr (ys ! i))"
proof (induction xs arbitrary: ys)
  case Nil
  then show ?case by simp
next
  case (Cons x xs)
  from Cons.prems obtain y ys' where y: "f x = Inr y" and ys': "mapE f xs = Inr ys'"
    and ys: "ys = y # ys'"
    by (auto simp: thenDo_def split: sum.splits)
  from Cons.IH [OF ys'] y ys show ?case
    by (auto simp: nth_Cons split: nat.splits)
qed

lemma mapIndexed_Inr:
  assumes "mapIndexed callback array = Inr ys"
  shows "length ys = length array"
    and "i < length array \<Longrightarrow> callback (array ! i) i = Inr (ys ! i)"
proof -
  from mapE_Inr [OF assms [unfolded mapIndexed_def]]
  have l: "length ys = length array"
    and a: "\<forall>i<length array. (\<lambda>(index, element). callback element index) (enumerate 0 array ! i) = Inr (ys ! i)"
    by simp_all
  show "length ys = length array" by (rule l)
  show "i < length array \<Longrightarrow> callback (array ! i) i = Inr (ys ! i)"
    using a by (auto simp: nth_enumerate_eq)
qed

lemma renderMarkerAndLabel_gap:
  "isGap datum \<Longrightarrow> renderMarkerAndLabel env props this_state scale style datum index = Inr None"
  by (simp add: renderMarkerAndLabel_def)

lemma renderMarkersAndLabels_gap:
  assumes "renderMarkersAndLabels env props this_state dataset scale style = Inr elements"
    and "i < length dataset" and "isGap (dataset ! i)"
  shows "elements ! i = None"
proof -
  from mapIndexed_Inr(2) [OF assms(1) [unfolded renderMarkersAndLabels_def] assms(2)]
  have "renderMarkerAndLabel env props this_state scale style (dataset ! i) i = Inr (elements ! i)" .
  with assms(3) show ?thesis by (simp add: renderMarkerAndLabel_gap)
qed

lemma getDataSegments_scenarioA:
  assumes "ascending (Num 1) \<le> ascending (Num 2)" "ascending (Num 2) \<le> ascending (Num 3)"
  shows "getDataSegments ascending
     [[(''x'', Num 1), (''y'', Num 1)], [(''x'', Num 2), (''y'', Null)],
      [(''x'', Num 3), (''y'', Num 3)]] =
     [[[(''x'', Num 1), (''y'', Num 1)]], [[(''x'', Num 3), (''y'', Num 3)]]]"
  using assms
  by (simp add: getDataSegments_def sortBy_def forEach_def closeRun_def slice_def
        isGap_def get_def)

text \<open>
  C2. The data \<^verbatim>\<open>[{x:1,y:1},{x:2,y:null},{x:3,y:3}]\<close> give exactly the two segments
  \<^verbatim>\<open>[{x:1,y:1}]\<close> and \<^verbatim>\<open>[{x:3,y:3}]\<close> (for every order that does not put 1 after 2
  or 2 after 3). For a point whose \<^verbatim>\<open>y\<close> is null or undefined the callback of
  \<^verbatim>\<open>renderMarkersAndLabels\<close> returns \<^verbatim>\<open>undefined\<close>, before it evaluates any style: neither
  a marker nor a label. So when \<^verbatim>\<open>renderMarkersAndLabels\<close> returns, it returns one entry
  for each point of the dataset, and the entry of every such point is \<^verbatim>\<open>undefined\<close>.
  (It returns when the style it is given has a \<^verbatim>\<open>markers\<close> entry. The style \<^verbatim>\<open>getStyles\<close>
  builds has none, and with it the callback throws at the first point that is not a gap.)
\<close>

theorem scenarioA_gap_suppressed:
  "(ascending (Num 1) \<le> ascending (Num 2) \<longrightarrow> ascending (Num 2) \<le> ascending (Num 3) \<longrightarrow>
      getDataSegments ascending
        [[(''x'', Num 1), (''y'', Num 1)], [(''x'', Num 2), (''y'', Null)],
         [(''x'', Num 3), (''y'', Num 3)]] =
        [[[(''x'', Num 1), (''y'', Num 1)]], [[(''x'', Num 3), (''y'', Num 3)]]])
   \<and> (isGap datum \<longrightarrow>
        renderMarkerAndLabel env props this_state scale style datum index = Inr None)
   \<and> (renderMarkersAndLabels env props this_state dataset scale style = Inr elements \<longrightarrow>
        length elements = length dataset
        \<and> (\<forall>i < length dataset. isGap (dataset ! i) \<longrightarrow> elements ! i = None))"
proof (intro conjI impI allI)
  assume "ascending (Num 1) \<le> ascending (Num 2)" "ascending (Num 2) \<le> ascending (Num 3)"
  then show "getDataSegments ascending
        [[(''x'', Num 1), (''y'', Num 1)], [(''x'', Num 2), (''y'', Null)],
         [(''x'', Num 3), (''y'', Num 3)]] =
        [[[(''x'', Num 1), (''y'', Num 1)]], [[(''x'', Num 3), (''y'', Num 3)]]]"
    by (rule getDataSegments_scenarioA)
next
  assume "isGap datum"
  then show "renderMarkerAndLabel env props this_state scale style datum index = Inr None"
    by (rule renderMarkerAndLabel_gap)
next
  assume r: "renderMarkersAndLabels env props this_state dataset scale style = Inr elements"
  then show "length elements = length dataset"
    unfolding renderMarkersAndLabels_def by (rule mapIndexed_Inr(1))
  fix i assume "i < length dataset" "isGap (dataset ! i)"
  with r show "elements ! i = None" by (rule renderMarkersAndLabels_gap)
qed

theorem scenarioA_gap_suppressed_witness:
  "getDataSegments ascendingKey
        [[(''x'', Num 1), (''y'', Num 1)], [(''x'', Num 2), (''y'', Null)],
         [(''x'', Num 3), (''y'', Num 3)]] =
        [[[(''x'', Num 1), (''y'', Num 1)]], [[(''x'', Num 3), (''y'', Num 3)]]]
   \<and> renderMarkerAndLabel
        (plainEnv [[(''x'', Num 1), (''y'', Num 1)], [(''x'', Num 2), (''y'', Null)],
         [(''x'', Num 3), (''y'', Num 3)]])
        defaultProps componentWillMount [(''x'', Fun 0), (''y'', Fun 0)] (getStyles defaultProps)
        [(''x'', Num 2), (''y'', Null)] 1 = Inr None
   \<and> renderMarkersAndLabels
        (plainEnv [[(''x'', Num 1), (''y'', Num 1)], [(''x'', Num 2), (''y'', Null)],
         [(''x'', Num 3), (''y'', Num 3)]])
        defaultProps componentWillMount
        [[(''x'', Num 1), (''y'', Num 1)], [(''x'', Num 2), (''y'', Null)],
         [(''x'', Num 3), (''y'', Num 3)]]
        [(''x'', Fun 0), (''y'', Fun 0)]
        ((''markers'', Obj [(''opacity'', Num 1)]) # getStyles defaultProps) =
      Inr [Some (CloneElement \<lparr>component_type = Str ''Point'', component_props = []\<rparr>
                      [(''events'', Obj []), (''key'', Str ''marker-0''),
                       (''style'', Obj [(''opacity'', Num 1)]), (''index'', Num 0),
                       (''datum'', Obj [(''x'', Num 1), (''y'', Num 1)]),
                       (''x'', Num 1), (''y'', Num 1)]),
           None,
           Some (CloneElement \<lparr>component_type = Str ''Point'', component_props = []\<rparr>
                      [(''events'', Obj []), (''key'', Str ''marker-2''),
                       (''style'', Obj [(''opacity'', Num 1)]), (''index'', Num 2),
                       (''datum'', Obj [(''x'', Num 3), (''y'', Num 3)]),
                       (''x'', Num 3), (''y'', Num 3)])]
   \<and> [Some (CloneElement \<lparr>component_type = Str ''Point'', component_props = []\<rparr>
                      [(''events'', Obj []), (''key'', Str ''marker-0''),
                       (''style'', Obj [(''opacity'', Num 1)]), (''index'', Num 0),
                       (''datum'', Obj [(''x'', Num 1), (''y'', Num 1)]),
                       (''x'', Num 1), (''y'', Num 1)]),
           None,
           Some (CloneElement \<lparr>component_type = Str ''Point'', component_props = []\<rparr>
                      [(''events'', Obj []), (''key'', Str ''marker-2''),
                       (''style'', Obj [(''opacity'', Num 1)]), (''index'', Num 2),
                       (''datum'', Obj [(''x'', Num 3), (''y'', Num 3)]),
                       (''x'', Num 3), (''y'', Num 3)])] ! 1 = None
   \<and> isGap [(''x'', Num 2), (''y'', Null)]"
proof -
  let ?A = "[[(''x'', Num 1), (''y'', Num 1)], [(''x'', Num 2), (''y'', Null)],
         [(''x'', Num 3), (''y'', Num 3)]]"
  let ?E = "[Some (CloneElement \<lparr>component_type = Str ''Point'', component_props = []\<rparr>
                      [(''events'', Obj []), (''key'', Str ''marker-0''),
                       (''style'', Obj [(''opacity'', Num 1)]), (''index'', Num 0),
                       (''datum'', Obj [(''x'', Num 1), (''y'', Num 1)]),
                       (''x'', Num 1), (''y'', Num 1)]),
           None,
           Some (CloneElement \<lparr>component_type = Str ''Point'', component_props = []\<rparr>
                      [(''events'', Obj []), (''key'', Str ''marker-2''),
                       (''style'', Obj [(''opacity'', Num 1)]), (''index'', Num 2),
                       (''datum'', Obj [(''x'', Num 3), (''y'', Num 3)]),
                       (''x'', Num 3), (''y'', Num 3)])]"
  have o: "ascendingKey (Num 1) \<le> ascendingKey (Num 2)" "ascendingKey (Num 2) \<le> ascendingKey (Num 3)"
    by simp_all
  have r: "renderMarkersAndLabels (plainEnv ?A) defaultProps componentWillMount ?A
        [(''x'', Fun 0), (''y'', Fun 0)] ((''markers'', Obj [(''opacity'', Num 1)]) # getStyles defaultProps) = Inr ?E"
    by code_simp
  have g: "isGap [(''x'', Num 2), (''y'', Null)]" "isGap (?A ! 1)" "1 < length ?A"
    by (simp_all add: isGap_def get_def)
  note t = scenarioA_gap_suppressed [where ascending = ascendingKey and env = "plainEnv ?A"
      and props = defaultProps and this_state = componentWillMount and scale = "[(''x'', Fun 0), (''y'', Fun 0)]"]
  from t [where style = "getStyles defaultProps" and datum = "[(''x'', Num 2), (''y'', Null)]"
      and index = 1] o g(1)
  have a: "getDataSegments ascendingKey ?A =
        [[[(''x'', Num 1), (''y'', Num 1)]], [[(''x'', Num 3), (''y'', Num 3)]]]"
    and b: "renderMarkerAndLabel (plainEnv ?A) defaultProps componentWillMount [(''x'', Fun 0), (''y'', Fun 0)]
        (getStyles defaultProps) [(''x'', Num 2), (''y'', Null)] 1 = Inr None"
    by blast+
  from t [where style = "((''markers'', Obj [(''opacity'', Num 1)]) # getStyles defaultProps)" and dataset = ?A and elements = ?E] r g(2,3)
  have c: "?E ! 1 = None"
    by blast
  from a b r c g(1) show ?thesis by blast
qed


text \<open>
  C3, as amended. The props a marker or a label is cloned with are merged so that, later
  winning: first the computed \<^verbatim>\<open>key\<close> and \<^verbatim>\<open>style\<close> (for a label also \<^verbatim>\<open>dy\<close>,
  \<^verbatim>\<open>textAnchor\<close>, \<^verbatim>\<open>verticalAnchor\<close> and \<^verbatim>\<open>text\<close>), then the own props of the component
  the caller supplied, then, for a label, the computed \<^verbatim>\<open>index\<close>, \<^verbatim>\<open>datum\<close> and scaled
  \<^verbatim>\<open>x\<close> and \<^verbatim>\<open>y\<close>, then the override stored in the state for the index of the element.
  So a prop of the component overrides a computed key, style or text of the same name; for
  a label a computed \<^verbatim>\<open>index\<close>, \<^verbatim>\<open>datum\<close>, \<^verbatim>\<open>x\<close> or \<^verbatim>\<open>y\<close> overrides a prop of the
  component; and the stored override wins over the props of the component and the computed
  fields. A key that neither the state nor the component has keeps its computed value.
  How \<^verbatim>\<open>index\<close>, \<^verbatim>\<open>datum\<close>, \<^verbatim>\<open>x\<close> and \<^verbatim>\<open>y\<close> of a marker rank against the props of the
  marker component, and how \<^verbatim>\<open>events\<close> ranks against them and, for a label, against the
  state, is not part of the statement.
\<close>

theorem merge_precedence:
  "(markerCloneProps env props this_state scale style datum index = Inr markerClone \<longrightarrow>
      (hasOwn (stateAt (markersState this_state) index) k \<longrightarrow>
         get markerClone k = propertyOf (stateAt (markersState this_state) index) k)
      \<and> (\<not> hasOwn (stateAt (markersState this_state) index) k \<longrightarrow>
           hasOwn (Obj (component_props (props_markerComponent props))) k \<longrightarrow>
           k \<notin> {''index'', ''datum'', ''x'', ''y'', ''events''} \<longrightarrow>
         get markerClone k = get (component_props (props_markerComponent props)) k)
      \<and> (\<not> hasOwn (stateAt (markersState this_state) index) k \<longrightarrow>
           \<not> hasOwn (Obj (component_props (props_markerComponent props))) k \<longrightarrow>
         (\<exists>markerStyle mProps.
            evaluateStyle env (get style ''markers'') (Obj datum) = Inr markerStyle
            \<and> markerProps env props this_state scale style datum index = Inr mProps
            \<and> get markerClone k =
                get [(''events'', getPartialEvents env
                       (getEvents env (get (props_events props) ''markers'') ''markers'') index
                       mProps),
                   (''key'', keyOf ''marker-'' index),
                   (''style'', markerStyle),
                   (''index'', Num (int index)),
                   (''datum'', Obj datum),
                   (''x'', call env (get scale ''x'') [get datum ''x'']),
                   (''y'', call env (get scale ''y'') [get datum ''y''])] k)))
   \<and> (labelCloneProps env props this_state scale labelStyle labelText datum index = Inr labelClone \<longrightarrow>
        k \<noteq> ''events'' \<longrightarrow>
        (hasOwn (stateAt (labelsState this_state) index) k \<longrightarrow>
           get labelClone k = propertyOf (stateAt (labelsState this_state) index) k)
        \<and> (\<not> hasOwn (stateAt (labelsState this_state) index) k \<longrightarrow>
             k \<in> {''index'', ''datum'', ''x'', ''y''} \<longrightarrow>
           get labelClone k =
             get [(''index'', Num (int index)),
                  (''datum'', Obj datum),
                  (''x'', call env (get scale ''x'') [get datum ''x'']),
                  (''y'', call env (get scale ''y'') [get datum ''y''])] k)
        \<and> (\<not> hasOwn (stateAt (labelsState this_state) index) k \<longrightarrow>
             k \<notin> {''index'', ''datum'', ''x'', ''y''} \<longrightarrow>
             hasOwn (Obj (component_props (props_labelComponent props))) k \<longrightarrow>
           get labelClone k = get (component_props (props_labelComponent props)) k)
        \<and> (\<not> hasOwn (stateAt (labelsState this_state) index) k \<longrightarrow>
             k \<notin> {''index'', ''datum'', ''x'', ''y''} \<longrightarrow>
             \<not> hasOwn (Obj (component_props (props_labelComponent props))) k \<longrightarrow>
           get labelClone k =
             get [(''key'', keyOf ''label-'' index),
                  (''dy'', propertyOf labelStyle ''padding''),
                  (''textAnchor'', propertyOf labelStyle ''textAnchor''),
                  (''verticalAnchor'',
                     js_or (propertyOf labelStyle ''verticalAnchor'') (Str ''end'')),
                  (''style'', labelStyle),
                  (''text'', labelText)] k))"
proof -
  have marker: "(hasOwn (stateAt (markersState this_state) index) k \<longrightarrow>
         get markerClone k = propertyOf (stateAt (markersState this_state) index) k)
      \<and> (\<not> hasOwn (stateAt (markersState this_state) index) k \<longrightarrow>
           hasOwn (Obj (component_props (props_markerComponent props))) k \<longrightarrow>
           k \<notin> {''index'', ''datum'', ''x'', ''y'', ''events''} \<longrightarrow>
         get markerClone k = get (component_props (props_markerComponent props)) k)
      \<and> (\<not> hasOwn (stateAt (markersState this_state) index) k \<longrightarrow>
           \<not> hasOwn (Obj (component_props (props_markerComponent props))) k \<longrightarrow>
         (\<exists>markerStyle mProps.
            evaluateStyle env (get style ''markers'') (Obj datum) = Inr markerStyle
            \<and> markerProps env props this_state scale style datum index = Inr mProps
            \<and> get markerClone k =
                get [(''events'', getPartialEvents env
                       (getEvents env (get (props_events props) ''markers'') ''markers'') index
                       mProps),
                   (''key'', keyOf ''marker-'' index),
                   (''style'', markerStyle),
                   (''index'', Num (int index)),
                   (''datum'', Obj datum),
                   (''x'', call env (get scale ''x'') [get datum ''x'']),
                   (''y'', call env (get scale ''y'') [get datum ''y''])] k))"
    if c: "markerCloneProps env props this_state scale style datum index = Inr markerClone"
  proof -
    from markerCloneProps_Inr [OF c] obtain markerStyle mProps where
      e: "evaluateStyle env (get style ''markers'') (Obj datum) = Inr markerStyle"
      and m: "markerProps env props this_state scale style datum index = Inr mProps"
      and g: "\<forall>k. get markerClone k =
       (if hasOwn (stateAt (markersState this_state) index) k
        then propertyOf (stateAt (markersState this_state) index) k
        else if hasOwn (Obj (component_props (props_markerComponent props))) k
        then get (component_props (props_markerComponent props)) k
        else get ([(''events'', getPartialEvents env
                       (getEvents env (get (props_events props) ''markers'') ''markers'') index
                       mProps),
                   (''key'', keyOf ''marker-'' index),
                   (''style'', markerStyle)]
                  @ sharedProps env scale datum index) k)"
      by blast
    have s: "[(''events'', getPartialEvents env
                       (getEvents env (get (props_events props) ''markers'') ''markers'') index
                       mProps),
                   (''key'', keyOf ''marker-'' index),
                   (''style'', markerStyle)]
                  @ sharedProps env scale datum index =
             [(''events'', getPartialEvents env
                       (getEvents env (get (props_events props) ''markers'') ''markers'') index
                       mProps),
                   (''key'', keyOf ''marker-'' index),
                   (''style'', markerStyle),
                   (''index'', Num (int index)),
                   (''datum'', Obj datum),
                   (''x'', call env (get scale ''x'') [get datum ''x'']),
                   (''y'', call env (get scale ''y'') [get datum ''y''])]"
      by (simp add: sharedProps_def)
    from g [rule_format, of k] e m show ?thesis
      unfolding s by auto
  qed
  have label: "(hasOwn (stateAt (labelsState this_state) index) k \<longrightarrow>
           get labelClone k = propertyOf (stateAt (labelsState this_state) index) k)
        \<and> (\<not> hasOwn (stateAt (labelsState this_state) index) k \<longrightarrow>
             k \<in> {''index'', ''datum'', ''x'', ''y''} \<longrightarrow>
           get labelClone k =
             get [(''index'', Num (int index)),
                  (''datum'', Obj datum),
                  (''x'', call env (get scale ''x'') [get datum ''x'']),
                  (''y'', call env (get scale ''y'') [get datum ''y''])] k)
        \<and> (\<not> hasOwn (stateAt (labelsState this_state) index) k \<longrightarrow>
             k \<notin> {''index'', ''datum'', ''x'', ''y''} \<longrightarrow>
             hasOwn (Obj (component_props (props_labelComponent props))) k \<longrightarrow>
           get labelClone k = get (component_props (props_labelComponent props)) k)
        \<and> (\<not> hasOwn (stateAt (labelsState this_state) index) k \<longrightarrow>
             k \<notin> {''index'', ''datum'', ''x'', ''y''} \<longrightarrow>
             \<not> hasOwn (Obj (component_props (props_labelComponent props))) k \<longrightarrow>
           get labelClone k =
             get [(''key'', keyOf ''label-'' index),
                  (''dy'', propertyOf labelStyle ''padding''),
                  (''textAnchor'', propertyOf labelStyle ''textAnchor''),
                  (''verticalAnchor'',
                     js_or (propertyOf labelStyle ''verticalAnchor'') (Str ''end'')),
                  (''style'', labelStyle),
                  (''text'', labelText)] k)"
    if c: "labelCloneProps env props this_state scale labelStyle labelText datum index = Inr labelClone"
      and k: "k \<noteq> ''events''"
  proof -
    from c obtain lProps where
      l: "labelProps env props this_state scale labelStyle labelText datum index = Inr lProps"
      and g: "\<forall>k. get labelClone k =
       (if k = ''events''
        then getPartialEvents env (getEvents env (get (props_events props) ''labels'') ''labels'')
               index lProps
        else get lProps k)"
      using get_labelCloneProps by blast
    from k have "get labelClone k = get lProps k" by (simp add: g)
    then have "get labelClone k =
     (if hasOwn (stateAt (labelsState this_state) index) k
      then propertyOf (stateAt (labelsState this_state) index) k
      else if k \<in> {''index'', ''datum'', ''x'', ''y''}
      then get (sharedProps env scale datum index) k
      else if hasOwn (Obj (component_props (props_labelComponent props))) k
      then get (component_props (props_labelComponent props)) k
      else get [(''key'', keyOf ''label-'' index),
                  (''dy'', propertyOf labelStyle ''padding''),
                  (''textAnchor'', propertyOf labelStyle ''textAnchor''),
                  (''verticalAnchor'',
                     js_or (propertyOf labelStyle ''verticalAnchor'') (Str ''end'')),
                  (''style'', labelStyle),
                  (''text'', labelText)] k)"
      unfolding get_labelProps [OF l] by simp
    then show ?thesis
      unfolding sharedProps_def by presburger
  qed
  from marker label show ?thesis by blast
qed

theorem merge_precedence_witness:
  "markerCloneProps (plainEnv [[(''x'', Num 7), (''y'', Num 1), (''label'', Str ''a'')]])
      (defaultProps\<lparr>
        props_markerComponent :=
          \<lparr>component_type = Str ''Point'',
             component_props = [(''style'', Obj [(''fill'', Str ''blue'')])]\<rparr>,
        props_labelComponent :=
          \<lparr>component_type = Str ''Label'',
             component_props = [(''text'', Str ''fixed''), (''x'', Num 0)]\<rparr>\<rparr>)
      \<lparr>dataState = [], markersState = [(0, Obj [(''key'', Str ''m'')])],
          labelsState = [(0, Obj [(''dy'', Num 9)])]\<rparr>
      [(''x'', Fun 0), (''y'', Fun 0)] ((''markers'', Obj [(''opacity'', Num 1)]) # getStyles defaultProps)
      [(''x'', Num 7), (''y'', Num 1), (''label'', Str ''a'')] 0 =
     Inr [(''events'', Obj []), (''key'', Str ''m''),
          (''style'', Obj [(''fill'', Str ''blue'')]), (''index'', Num 0),
          (''datum'', Obj [(''x'', Num 7), (''y'', Num 1), (''label'', Str ''a'')]),
          (''x'', Num 7), (''y'', Num 1)]
   \<and> get [(''events'', Obj []), (''key'', Str ''m''),
          (''style'', Obj [(''fill'', Str ''blue'')]), (''index'', Num 0),
          (''datum'', Obj [(''x'', Num 7), (''y'', Num 1), (''label'', Str ''a'')]),
          (''x'', Num 7), (''y'', Num 1)] ''key'' = Str ''m''
   \<and> get [(''events'', Obj []), (''key'', Str ''m''),
          (''style'', Obj [(''fill'', Str ''blue'')]), (''index'', Num 0),
          (''datum'', Obj [(''x'', Num 7), (''y'', Num 1), (''label'', Str ''a'')]),
          (''x'', Num 7), (''y'', Num 1)] ''style'' = Obj [(''fill'', Str ''blue'')]
   \<and> get [(''events'', Obj []), (''key'', Str ''m''),
          (''style'', Obj [(''fill'', Str ''blue'')]), (''index'', Num 0),
          (''datum'', Obj [(''x'', Num 7), (''y'', Num 1), (''label'', Str ''a'')]),
          (''x'', Num 7), (''y'', Num 1)] ''index'' = Num 0
   \<and> labelCloneProps (plainEnv [[(''x'', Num 7), (''y'', Num 1), (''label'', Str ''a'')]])
      (defaultProps\<lparr>
        props_markerComponent :=
          \<lparr>component_type = Str ''Point'',
             component_props = [(''style'', Obj [(''fill'', Str ''blue'')])]\<rparr>,
        props_labelComponent :=
          \<lparr>component_type = Str ''Label'',
             component_props = [(''text'', Str ''fixed''), (''x'', Num 0)]\<rparr>\<rparr>)
      \<lparr>dataState = [], markersState = [(0, Obj [(''key'', Str ''m'')])],
          labelsState = [(0, Obj [(''dy'', Num 9)])]\<rparr>
      [(''x'', Fun 0), (''y'', Fun 0)] (Obj [(''padding'', Num 5)]) (Str ''a'')
      [(''x'', Num 7), (''y'', Num 1), (''label'', Str ''a'')] 0 =
     Inr [(''key'', Str ''label-0''), (''dy'', Num 9),
          (''textAnchor'', Undefined), (''verticalAnchor'', Str ''end''),
          (''style'', Obj [(''padding'', Num 5)]), (''text'', Str ''fixed''),
          (''x'', Num 7), (''index'', Num 0),
          (''datum'', Obj [(''x'', Num 7), (''y'', Num 1), (''label'', Str ''a'')]),
          (''y'', Num 1), (''events'', Obj [])]
   \<and> get [(''key'', Str ''label-0''), (''dy'', Num 9),
          (''textAnchor'', Undefined), (''verticalAnchor'', Str ''end''),
          (''style'', Obj [(''padding'', Num 5)]), (''text'', Str ''fixed''),
          (''x'', Num 7), (''index'', Num 0),
          (''datum'', Obj [(''x'', Num 7), (''y'', Num 1), (''label'', Str ''a'')]),
          (''y'', Num 1), (''events'', Obj [])] ''dy'' = Num 9
   \<and> get [(''key'', Str ''label-0''), (''dy'', Num 9),
          (''textAnchor'', Undefined), (''verticalAnchor'', Str ''end''),
          (''style'', Obj [(''padding'', Num 5)]), (''text'', Str ''fixed''),
          (''x'', Num 7), (''index'', Num 0),
          (''datum'', Obj [(''x'', Num 7), (''y'', Num 1), (''label'', Str ''a'')]),
          (''y'', Num 1), (''events'', Obj [])] ''x'' = Num 7
   \<and> get [(''key'', Str ''label-0''), (''dy'', Num 9),
          (''textAnchor'', Undefined), (''verticalAnchor'', Str ''end''),
          (''style'', Obj [(''padding'', Num 5)]), (''text'', Str ''fixed''),
          (''x'', Num 7), (''index'', Num 0),
          (''datum'', Obj [(''x'', Num 7), (''y'', Num 1), (''label'', Str ''a'')]),
          (''y'', Num 1), (''events'', Obj [])] ''text'' = Str ''fixed''
   \<and> get [(''key'', Str ''label-0''), (''dy'', Num 9),
          (''textAnchor'', Undefined), (''verticalAnchor'', Str ''end''),
          (''style'', Obj [(''padding'', Num 5)]), (''text'', Str ''fixed''),
          (''x'', Num 7), (''index'', Num 0),
          (''datum'', Obj [(''x'', Num 7), (''y'', Num 1), (''label'', Str ''a'')]),
          (''y'', Num 1), (''events'', Obj [])] ''verticalAnchor'' = Str ''end''"
proof -
  let ?D = "[(''x'', Num 7), (''y'', Num 1), (''label'', Str ''a'')]"
  let ?P = "(defaultProps\<lparr>
        props_markerComponent :=
          \<lparr>component_type = Str ''Point'',
             component_props = [(''style'', Obj [(''fill'', Str ''blue'')])]\<rparr>,
        props_labelComponent :=
          \<lparr>component_type = Str ''Label'',
             component_props = [(''text'', Str ''fixed''), (''x'', Num 0)]\<rparr>\<rparr>)"
  let ?S = "\<lparr>dataState = [], markersState = [(0, Obj [(''key'', Str ''m'')])],
          labelsState = [(0, Obj [(''dy'', Num 9)])]\<rparr>"
  let ?CM = "[(''events'', Obj []), (''key'', Str ''m''),
          (''style'', Obj [(''fill'', Str ''blue'')]), (''index'', Num 0),
          (''datum'', Obj [(''x'', Num 7), (''y'', Num 1), (''label'', Str ''a'')]),
          (''x'', Num 7), (''y'', Num 1)]"
  let ?CL = "[(''key'', Str ''label-0''), (''dy'', Num 9),
          (''textAnchor'', Undefined), (''verticalAnchor'', Str ''end''),
          (''style'', Obj [(''padding'', Num 5)]), (''text'', Str ''fixed''),
          (''x'', Num 7), (''index'', Num 0),
          (''datum'', Obj [(''x'', Num 7), (''y'', Num 1), (''label'', Str ''a'')]),
          (''y'', Num 1), (''events'', Obj [])]"
  let ?sty = "((''markers'', Obj [(''opacity'', Num 1)]) # getStyles defaultProps)"
  have mc: "markerCloneProps (plainEnv [?D]) ?P ?S [(''x'', Fun 0), (''y'', Fun 0)] ?sty ?D 0 = Inr ?CM"
    by code_simp
  have lc: "labelCloneProps (plainEnv [?D]) ?P ?S [(''x'', Fun 0), (''y'', Fun 0)] (Obj [(''padding'', Num 5)]) (Str ''a'')
      ?D 0 = Inr ?CL"
    by code_simp
  have ms: "hasOwn (stateAt (markersState ?S) 0) ''key''"
    "\<not> hasOwn (stateAt (markersState ?S) 0) ''style''"
    "\<not> hasOwn (stateAt (markersState ?S) 0) ''index''"
    "propertyOf (stateAt (markersState ?S) 0) ''key'' = Str ''m''"
    by (simp_all add: hasOwn_def ownKeys_def stateAt_def get_def)
  have mp: "hasOwn (Obj (component_props (props_markerComponent ?P))) ''style''"
    "\<not> hasOwn (Obj (component_props (props_markerComponent ?P))) ''index''"
    "get (component_props (props_markerComponent ?P)) ''style'' = Obj [(''fill'', Str ''blue'')]"
    by (simp_all add: hasOwn_def ownKeys_def get_def)
  have ls: "hasOwn (stateAt (labelsState ?S) 0) ''dy''"
    "\<not> hasOwn (stateAt (labelsState ?S) 0) ''x''"
    "\<not> hasOwn (stateAt (labelsState ?S) 0) ''text''"
    "\<not> hasOwn (stateAt (labelsState ?S) 0) ''verticalAnchor''"
    "propertyOf (stateAt (labelsState ?S) 0) ''dy'' = Num 9"
    by (simp_all add: hasOwn_def ownKeys_def stateAt_def get_def)
  have lp: "hasOwn (Obj (component_props (props_labelComponent ?P))) ''text''"
    "\<not> hasOwn (Obj (component_props (props_labelComponent ?P))) ''verticalAnchor''"
    "get (component_props (props_labelComponent ?P)) ''text'' = Str ''fixed''"
    by (simp_all add: hasOwn_def ownKeys_def get_def)
  have sx: "call (plainEnv [?D]) (get [(''x'', Fun 0), (''y'', Fun 0)] ''x'') [get ?D ''x''] = Num 7"
    by (simp add: plainEnv_def get_def)
  note t = merge_precedence [where env = "plainEnv [?D]" and props = ?P and this_state = ?S
      and scale = "[(''x'', Fun 0), (''y'', Fun 0)]" and style = ?sty and datum = ?D and index = 0
      and markerClone = ?CM and labelClone = ?CL
      and labelStyle = "Obj [(''padding'', Num 5)]" and labelText = "Str ''a''"]
  have m1: "get ?CM ''key'' = Str ''m''"
    using t [where k = "''key''"] mc ms by simp
  have m2: "get ?CM ''style'' = Obj [(''fill'', Str ''blue'')]"
    using t [where k = "''style''"] mc ms mp by simp
  have m3: "get ?CM ''index'' = Num 0"
    using t [where k = "''index''"] mc ms mp by (auto simp: get_Cons)
  have l1: "get ?CL ''dy'' = Num 9"
    using t [where k = "''dy''"] lc ls by simp
  have l2: "get ?CL ''x'' = Num 7"
    using t [where k = "''x''"] lc ls sx by (simp add: get_Cons)
  have l3: "get ?CL ''text'' = Str ''fixed''"
    using t [where k = "''text''"] lc ls lp by simp
  have l4: "get ?CL ''verticalAnchor'' = Str ''end''"
    using t [where k = "''verticalAnchor''"] lc ls lp by (simp add: get_Cons get_Nil js_or_def)
  from mc m1 m2 m3 lc l1 l2 l3 l4 show ?thesis by blast
qed

theorem merge_precedence_counterexample:
  "renderMarkersAndLabels (plainEnv [[(''x'', Num 7), (''y'', Num 1), (''label'', Str ''a'')]])
     (defaultProps\<lparr>
        props_markerComponent :=
          \<lparr>component_type = Str ''Point'',
             component_props = [(''style'', Obj [(''fill'', Str ''blue'')])]\<rparr>,
        props_labelComponent :=
          \<lparr>component_type = Str ''Label'',
             component_props = [(''text'', Str ''fixed''), (''x'', Num 0)]\<rparr>\<rparr>)
     componentWillMount
     [[(''x'', Num 7), (''y'', Num 1), (''label'', Str ''a'')]]
     [(''x'', Fun 0), (''y'', Fun 0)] ((''markers'', Obj [(''opacity'', Num 1)]) # getStyles defaultProps) =
   Inr [Some
       (G [(''key'', Str ''marker-group-0'')]
         [[Some
            (CloneElement
              \<lparr>component_type = Str ''Point'',
                 component_props = [(''style'', Obj [(''fill'', Str ''blue'')])]\<rparr>
              [(''events'', Obj []), (''key'', Str ''marker-0''),
               (''style'', Obj [(''fill'', Str ''blue'')]), (''index'', Num 0),
               (''datum'', Obj [(''x'', Num 7), (''y'', Num 1), (''label'', Str ''a'')]),
               (''x'', Num 7), (''y'', Num 1)])],
          [Some
            (CloneElement
              \<lparr>component_type = Str ''Label'',
                 component_props = [(''text'', Str ''fixed''), (''x'', Num 0)]\<rparr>
              [(''key'', Str ''label-0''), (''dy'', Num 5),
               (''textAnchor'', Str ''start''),
               (''verticalAnchor'', Str ''end''),
               (''style'',
                Obj [(''padding'', Num 5),
                     (''fontFamily'', Str ''Helvetica''),
                     (''fontSize'', Num 10), (''strokeWidth'', Num 0),
                     (''stroke'', Str ''transparent''),
                     (''textAnchor'', Str ''start''),
                     (''fill'', Undefined)]),
               (''text'', Str ''fixed''), (''x'', Num 7), (''index'', Num 0),
               (''datum'', Obj [(''x'', Num 7), (''y'', Num 1), (''label'', Str ''a'')]),
               (''y'', Num 1), (''events'', Obj [])])]])]
   \<and> evaluateStyle (plainEnv [[(''x'', Num 7), (''y'', Num 1), (''label'', Str ''a'')]])
        (get ((''markers'', Obj [(''opacity'', Num 1)]) # getStyles defaultProps) ''markers'')
        (Obj [(''x'', Num 7), (''y'', Num 1), (''label'', Str ''a'')]) = Inr (Obj [(''opacity'', Num 1)])
   \<and> getLabelText (plainEnv [[(''x'', Num 7), (''y'', Num 1), (''label'', Str ''a'')]])
       (defaultProps\<lparr>
        props_markerComponent :=
          \<lparr>component_type = Str ''Point'',
             component_props = [(''style'', Obj [(''fill'', Str ''blue'')])]\<rparr>,
        props_labelComponent :=
          \<lparr>component_type = Str ''Label'',
             component_props = [(''text'', Str ''fixed''), (''x'', Num 0)]\<rparr>\<rparr>)
       [(''x'', Num 7), (''y'', Num 1), (''label'', Str ''a'')] 0 = Str ''a''"
  by code_simp


lemma getDataSegments_all_gaps:
  assumes "\<forall>d \<in> set D. isGap d"
  shows "getDataSegments ascending D = []"
proof -
  have "set (sortBy ascending D ''x'') = set D"
    by (simp add: sortBy_def)
  with assms have "filter (\<lambda>d. \<not> isGap d) (sortBy ascending D ''x'') = []"
    by (simp add: filter_empty_conv)
  then have c: "concat (getDataSegments ascending D) = []"
    by (simp add: getDataSegments_concat)
  show ?thesis
  proof (cases "getDataSegments ascending D")
    case Nil
    then show ?thesis .
  next
    case (Cons s ss)
    with c have "s = []" by simp
    with Cons have "[] \<in> set (getDataSegments ascending D)" by simp
    with getDataSegments_nonempty show ?thesis by blast
  qed
qed

lemma mapE_const:
  "\<forall>x \<in> set xs. f x = Inr v \<Longrightarrow> mapE f xs = Inr (replicate (length xs) v)"
  by (induction xs) (simp_all add: thenDo_def)

lemma renderMarkersAndLabels_all_gaps:
  assumes "\<forall>d \<in> set dataset. isGap d"
  shows "renderMarkersAndLabels env props this_state dataset scale style =
           Inr (replicate (length dataset) None)"
proof -
  have "\<forall>p \<in> set (enumerate 0 dataset).
          (\<lambda>(index, element). renderMarkerAndLabel env props this_state scale style element index) p
            = Inr None"
    using assms by (auto simp: renderMarkerAndLabel_def in_set_enumerate_eq)
  from mapE_const [OF this] show ?thesis
    by (simp add: renderMarkersAndLabels_def mapIndexed_def)
qed

lemma renderSeriesLabel_no_segment:
  "truthy (props_seriesLabel props) \<Longrightarrow>
   renderSeriesLabel env props dataset [] scale style = Inl TypeError"
  by (simp add: renderSeriesLabel_def thenDo_def)

lemma render_all_gaps_throws:
  assumes "\<forall>d \<in> set (getData env props). isGap d"
    and "truthy (props_seriesLabel props)" and "\<not> truthy (props_animate props)"
  shows "render env props this_state = Inl TypeError"
  using assms
  by (simp add: render_def renderData_def Let_def getDataSegments_all_gaps
      renderMarkersAndLabels_all_gaps renderSeriesLabel_no_segment thenDo_def)

lemma Label_render_throws: "Label_render env this_props \<noteq> Inr element"
  by (simp add: Label_render_def Let_def thenDo_def split: sum.splits)

text \<open>
  C4 fails on the code. With a series label and data whose points are all gaps there is
  no segment: \<^verbatim>\<open>renderSeriesLabel\<close> reads \<^verbatim>\<open>lastPoint.x\<close> of an undefined \<^verbatim>\<open>lastPoint\<close>
  and the pass throws a TypeError. And \<^verbatim>\<open>Label.render\<close>, on the props a label is cloned
  with, throws as well: they hold no \<^verbatim>\<open>position\<close>.
\<close>

theorem render_throws_without_segments:
  "render (plainEnv [[(''x'', Num 1), (''y'', Null)]])
     (defaultProps\<lparr>props_data := Arr [Obj [(''x'', Num 1), (''y'', Null)]],
                     props_seriesLabel := Str ''s''\<rparr>)
     componentWillMount = Inl TypeError
   \<and> Label_render (plainEnv [[(''x'', Num 1), (''y'', Num 1), (''label'', Str ''a'')]])
       [(''key'', Str ''label-0''), (''dy'', Num 5), (''textAnchor'', Str ''start''),
        (''verticalAnchor'', Str ''end''), (''style'', Obj [(''padding'', Num 5)]),
        (''text'', Str ''a''), (''index'', Num 0),
        (''datum'', Obj [(''x'', Num 1), (''y'', Num 1), (''label'', Str ''a'')]),
        (''x'', Num 1), (''y'', Num 1), (''events'', Obj [])] = Inl TypeError"
  by code_simp

text \<open>
  C7 fails on the code, in \<^verbatim>\<open>getLabelStyle\<close>. With \<^verbatim>\<open>style = {data: {stroke: "red"}}\<close>
  the style \<^verbatim>\<open>getStyles\<close> builds has the stroke \<^verbatim>\<open>"red"\<close> under \<^verbatim>\<open>data\<close>, which is the
  style \<^verbatim>\<open>renderLine\<close> draws the line with, and an empty \<^verbatim>\<open>line\<close>. \<^verbatim>\<open>getLabelStyle\<close>
  reads the fill of the label from \<^verbatim>\<open>style.line.stroke\<close>, which is undefined: the label
  style it returns has no fill, for a data point and, as \<^verbatim>\<open>renderSeriesLabel\<close> calls it,
  for the series label.
\<close>

theorem label_fill_is_not_the_line_stroke:
  "propertyOf (get (getStyles (defaultProps\<lparr>props_seriesLabel := Str ''s'',
           props_style := Obj [(''data'', Obj [(''stroke'', Str ''red'')])]\<rparr>)) ''data'') ''stroke'' = Str ''red''
   \<and> get (getStyles (defaultProps\<lparr>props_seriesLabel := Str ''s'',
           props_style := Obj [(''data'', Obj [(''stroke'', Str ''red'')])]\<rparr>)) ''line'' = Obj []
   \<and> renderLine (plainEnv [[(''x'', Num 1), (''y'', Num 1)]])
        (defaultProps\<lparr>props_seriesLabel := Str ''s'',
           props_style := Obj [(''data'', Obj [(''stroke'', Str ''red'')])]\<rparr>)
        [[[(''x'', Num 1), (''y'', Num 1)]]] [(''x'', Fun 0), (''y'', Fun 0)]
        (getStyles (defaultProps\<lparr>props_seriesLabel := Str ''s'',
           props_style := Obj [(''data'', Obj [(''stroke'', Str ''red'')])]\<rparr>)) =
      [LineSegment
         [(''key'', Str ''line-segment-0''), (''interpolation'', Str ''linear''),
          (''style'', Obj [(''stroke'', Str ''red''), (''strokeWidth'', Num 2),
                          (''fill'', Str ''none''), (''opacity'', Num 1)]),
          (''scale'', Obj [(''x'', Fun 0), (''y'', Fun 0)]), (''index'', Num 0),
          (''data'', Arr [Obj [(''x'', Num 1), (''y'', Num 1)]]),
          (''events'', Obj [])]]
   \<and> getLabelStyle (plainEnv [[(''x'', Num 1), (''y'', Num 1)]])
        (getStyles (defaultProps\<lparr>props_seriesLabel := Str ''s'',
           props_style := Obj [(''data'', Obj [(''stroke'', Str ''red'')])]\<rparr>))
        (Obj [(''x'', Num 1), (''y'', Num 1)]) =
      Inr (Obj [(''padding'', Num 5), (''fontFamily'', Str ''Helvetica''),
                (''fontSize'', Num 10), (''strokeWidth'', Num 0),
                (''stroke'', Str ''transparent''),
                (''textAnchor'', Str ''start''), (''fill'', Undefined)])
   \<and> renderSeriesLabel (plainEnv [[(''x'', Num 1), (''y'', Num 1)]])
        (defaultProps\<lparr>props_seriesLabel := Str ''s'',
           props_style := Obj [(''data'', Obj [(''stroke'', Str ''red'')])]\<rparr>)
        [[(''x'', Num 1), (''y'', Num 1)]] [[[(''x'', Num 1), (''y'', Num 1)]]] [(''x'', Fun 0), (''y'', Fun 0)]
        (getStyles (defaultProps\<lparr>props_seriesLabel := Str ''s'',
           props_style := Obj [(''data'', Obj [(''stroke'', Str ''red'')])]\<rparr>)) =
      Inr (Some (LineLabel
         [(''key'', Str ''line-label''), (''events'', Obj []),
          (''data'', Arr [Obj [(''x'', Num 1), (''y'', Num 1)]]),
          (''x'', Num 1), (''y'', Num 1), (''label'', Str ''s''),
          (''style'', Obj [(''padding'', Num 5), (''fontFamily'', Str ''Helvetica''),
                (''fontSize'', Num 10), (''strokeWidth'', Num 0),
                (''stroke'', Str ''transparent''),
                (''textAnchor'', Str ''start''), (''fill'', Undefined)])]))"
  by code_simp

lemma get_assign_y_null: "get (assign datum [Obj [(''y'', Null)]]) ''y'' = Null"
  by (simp add: merge_simps)

text \<open>
  C6. With a truthy \<^verbatim>\<open>animate\<close> prop, \<^verbatim>\<open>render\<close> returns the transition wrapper around a
  \<^verbatim>\<open>VictoryLine\<close> with the same props, with the whitelist \<^verbatim>\<open>data\<close>, \<^verbatim>\<open>domain\<close>, \<^verbatim>\<open>height\<close>,
  \<^verbatim>\<open>padding\<close>, \<^verbatim>\<open>samples\<close>, \<^verbatim>\<open>style\<close>, \<^verbatim>\<open>width\<close>, \<^verbatim>\<open>x\<close>, \<^verbatim>\<open>y\<close>. The default hooks:
  \<^verbatim>\<open>onExit.before\<close> and \<^verbatim>\<open>onEnter.before\<close> give \<^verbatim>\<open>{y: null}\<close>, which merged into a data
  point makes it a gap, and \<^verbatim>\<open>onEnter.after\<close> gives the \<^verbatim>\<open>y\<close> of the datum. Without a
  truthy \<^verbatim>\<open>animate\<close> (as when it is set to null), \<^verbatim>\<open>render\<close> does not return the
  transition wrapper.
\<close>

theorem animate_delegates_to_transition:
  "(truthy (props_animate this_props) \<longrightarrow>
      render env this_props this_state =
        Inr (VictoryTransition
               [(''animate'', props_animate this_props),
                (''animationWhitelist'',
                 Arr [Str ''data'', Str ''domain'', Str ''height'', Str ''padding'',
                      Str ''samples'', Str ''style'', Str ''width'', Str ''x'', Str ''y''])]
               (VictoryLine this_props)))
   \<and> onExit_before = [(''y'', Null)]
   \<and> isGap (assign datum [Obj onExit_before])
   \<and> onEnter_before = [(''y'', Null)]
   \<and> isGap (assign datum [Obj onEnter_before])
   \<and> onEnter_after (Obj datum) = Inr [(''y'', get datum ''y'')]
   \<and> (\<not> truthy (props_animate this_props) \<longrightarrow>
        render env this_props this_state \<noteq> Inr (VictoryTransition attrs child))
   \<and> render env (this_props\<lparr>props_animate := Null\<rparr>) this_state
        \<noteq> Inr (VictoryTransition attrs child)"
proof -
  have nt: "render env p this_state \<noteq> Inr (VictoryTransition attrs child)"
    if "\<not> truthy (props_animate p)" for p
    using that by (simp add: render_def Let_def thenDo_def split: sum.splits)
  have "render env (this_props\<lparr>props_animate := Null\<rparr>) this_state
        \<noteq> Inr (VictoryTransition attrs child)"
    by (rule nt) simp
  moreover have "truthy (props_animate this_props) \<longrightarrow>
      render env this_props this_state =
        Inr (VictoryTransition
               [(''animate'', props_animate this_props),
                (''animationWhitelist'',
                 Arr [Str ''data'', Str ''domain'', Str ''height'', Str ''padding'',
                      Str ''samples'', Str ''style'', Str ''width'', Str ''x'', Str ''y''])]
               (VictoryLine this_props))"
    by (simp add: render_def whitelist_def)
  moreover have "isGap (assign datum [Obj onExit_before])"
    "isGap (assign datum [Obj onEnter_before])"
    by (simp_all add: isGap_def onExit_before_def onEnter_before_def get_assign_y_null)
  moreover have "onEnter_after (Obj datum) = Inr [(''y'', get datum ''y'')]"
    by (simp add: onEnter_after_def thenDo_def)
  ultimately show ?thesis
    using nt [of this_props] by (simp add: onExit_before_def onEnter_before_def)
qed

theorem animate_delegates_to_transition_witness:
  "render (plainEnv [[(''x'', Num 1), (''y'', Num 1)]])
     (defaultProps\<lparr>props_animate := Obj [(''duration'', Num 500)],
                     props_data := Arr [Obj [(''x'', Num 1), (''y'', Num 1)]]\<rparr>)
     componentWillMount =
        Inr (VictoryTransition
               [(''animate'', Obj [(''duration'', Num 500)]),
                (''animationWhitelist'',
                 Arr [Str ''data'', Str ''domain'', Str ''height'', Str ''padding'',
                      Str ''samples'', Str ''style'', Str ''width'', Str ''x'', Str ''y''])]
               (VictoryLine
                  (defaultProps\<lparr>props_animate := Obj [(''duration'', Num 500)],
                     props_data := Arr [Obj [(''x'', Num 1), (''y'', Num 1)]]\<rparr>)))
   \<and> render (plainEnv [[(''x'', Num 1), (''y'', Num 1)]])
        (defaultProps\<lparr>props_data := Arr [Obj [(''x'', Num 1), (''y'', Num 1)]]\<rparr>)
        componentWillMount
        \<noteq> Inr (VictoryTransition []
                 (VictoryLine
                    (defaultProps\<lparr>props_data := Arr [Obj [(''x'', Num 1), (''y'', Num 1)]]\<rparr>)))
   \<and> isGap (assign [(''x'', Num 1), (''y'', Num 1)] [Obj onExit_before])"
proof -
  let ?a = "defaultProps\<lparr>props_animate := Obj [(''duration'', Num 500)],
                     props_data := Arr [Obj [(''x'', Num 1), (''y'', Num 1)]]\<rparr>"
  let ?p = "defaultProps\<lparr>props_data := Arr [Obj [(''x'', Num 1), (''y'', Num 1)]]\<rparr>"
  have t: "truthy (props_animate ?a)"
    by simp
  have f: "\<not> truthy (props_animate ?p)"
    by (simp add: defaultProps_def)
  from animate_delegates_to_transition [of ?a "plainEnv [[(''x'', Num 1), (''y'', Num 1)]]"
      componentWillMount "[(''x'', Num 1), (''y'', Num 1)]"] t
    animate_delegates_to_transition [of ?p "plainEnv [[(''x'', Num 1), (''y'', Num 1)]]"
      componentWillMount "[(''x'', Num 1), (''y'', Num 1)]" "[]" "VictoryLine ?p"] f
  show ?thesis by simp
qed

text \<open>
  C8, as amended. The label text of a point is the point's own \<^verbatim>\<open>label\<close> field if that is
  truthy (present and not empty, zero, false or null); otherwise it is the entry of the
  \<^verbatim>\<open>labels\<close> prop at the index of the point when the prop is an array, and the \<^verbatim>\<open>labels\<close>
  prop evaluated on the point when it is not. In what \<^verbatim>\<open>renderMarkersAndLabels\<close> returns,
  the entry of a point that is not a gap is its marker alone when the text is not truthy
  and \<^verbatim>\<open>labels\<close> is not \<^verbatim>\<open>true\<close>; otherwise it is a group of the marker and a label.
\<close>

theorem label_text_and_visibility:
  "getLabelText env props datum index =
       (if truthy (get datum ''label'') then get datum ''label''
        else case props_labels props of
               Arr labels \<Rightarrow> (if index < length labels then labels ! index else Undefined)
             | labels \<Rightarrow> evaluateProp env labels (Obj datum))
   \<and> (renderMarkersAndLabels env props this_state dataset scale style = Inr elements \<longrightarrow>
      i < length dataset \<longrightarrow> \<not> isGap (dataset ! i) \<longrightarrow>
       (\<exists>mProps.
          markerCloneProps env props this_state scale style (dataset ! i) i = Inr mProps
          \<and> (\<not> truthy (getLabelText env props (dataset ! i) i) \<longrightarrow>
               props_labels props \<noteq> Bool True \<longrightarrow>
               elements ! i = Some (CloneElement (props_markerComponent props) mProps))
          \<and> (truthy (getLabelText env props (dataset ! i) i) \<or> props_labels props = Bool True \<longrightarrow>
               (\<exists>labelStyle lProps.
                  getLabelStyle env style (Obj (dataset ! i)) = Inr labelStyle
                  \<and> labelCloneProps env props this_state scale labelStyle
                      (getLabelText env props (dataset ! i) i) (dataset ! i) i = Inr lProps
                  \<and> elements ! i =
                      Some (G [(''key'', keyOf ''marker-group-'' i)]
                              [[Some (CloneElement (props_markerComponent props) mProps)],
                               [Some (CloneElement (props_labelComponent props) lProps)]])))))"
proof (intro conjI impI)
  show "getLabelText env props datum index =
       (if truthy (get datum ''label'') then get datum ''label''
        else case props_labels props of
               Arr labels \<Rightarrow> (if index < length labels then labels ! index else Undefined)
             | labels \<Rightarrow> evaluateProp env labels (Obj datum))"
    by (simp add: getLabelText_def js_or_def Let_def)
next
  assume r: "renderMarkersAndLabels env props this_state dataset scale style = Inr elements"
    and i: "i < length dataset" and g: "\<not> isGap (dataset ! i)"
  from mapIndexed_Inr(2) [OF r [unfolded renderMarkersAndLabels_def] i]
  have e: "renderMarkerAndLabel env props this_state scale style (dataset ! i) i
             = Inr (elements ! i)" .
  from e g obtain mProps where
    m: "markerCloneProps env props this_state scale style (dataset ! i) i = Inr mProps"
    by (auto simp add: renderMarkerAndLabel_def thenDo_def split: sum.splits)
  have a: "elements ! i = Some (CloneElement (props_markerComponent props) mProps)"
    if "\<not> truthy (getLabelText env props (dataset ! i) i)" "props_labels props \<noteq> Bool True"
    using e g m that by (simp add: renderMarkerAndLabel_def Let_def thenDo_def)
  have l: "\<exists>labelStyle lProps.
             getLabelStyle env style (Obj (dataset ! i)) = Inr labelStyle
             \<and> labelCloneProps env props this_state scale labelStyle
                 (getLabelText env props (dataset ! i) i) (dataset ! i) i = Inr lProps
             \<and> elements ! i =
                 Some (G [(''key'', keyOf ''marker-group-'' i)]
                         [[Some (CloneElement (props_markerComponent props) mProps)],
                          [Some (CloneElement (props_labelComponent props) lProps)]])"
    if "truthy (getLabelText env props (dataset ! i) i) \<or> props_labels props = Bool True"
    using e g m that
    by (auto simp add: renderMarkerAndLabel_def Let_def thenDo_def split: sum.splits)
  from m a l show "(\<exists>mProps.
          markerCloneProps env props this_state scale style (dataset ! i) i = Inr mProps
          \<and> (\<not> truthy (getLabelText env props (dataset ! i) i) \<longrightarrow>
               props_labels props \<noteq> Bool True \<longrightarrow>
               elements ! i = Some (CloneElement (props_markerComponent props) mProps))
          \<and> (truthy (getLabelText env props (dataset ! i) i) \<or> props_labels props = Bool True \<longrightarrow>
               (\<exists>labelStyle lProps.
                  getLabelStyle env style (Obj (dataset ! i)) = Inr labelStyle
                  \<and> labelCloneProps env props this_state scale labelStyle
                      (getLabelText env props (dataset ! i) i) (dataset ! i) i = Inr lProps
                  \<and> elements ! i =
                      Some (G [(''key'', keyOf ''marker-group-'' i)]
                              [[Some (CloneElement (props_markerComponent props) mProps)],
                               [Some (CloneElement (props_labelComponent props) lProps)]]))))"
    by blast
qed

theorem label_text_and_visibility_witness:
  "getLabelText (plainEnv [[(''x'', Num 1), (''y'', Num 1), (''label'', Str ''own'')], [(''x'', Num 2), (''y'', Num 2)]]) (defaultProps\<lparr>props_labels := Arr [Str ''p0'']\<rparr>)
       [(''x'', Num 1), (''y'', Num 1), (''label'', Str ''own'')] 0 = Str ''own''
   \<and> getLabelText (plainEnv [[(''x'', Num 1), (''y'', Num 1), (''label'', Str ''own'')], [(''x'', Num 2), (''y'', Num 2)]]) (defaultProps\<lparr>props_labels := Arr [Str ''p0'']\<rparr>)
       [(''x'', Num 2), (''y'', Num 2)] 1 = Undefined
   \<and> renderMarkersAndLabels (plainEnv [[(''x'', Num 1), (''y'', Num 1), (''label'', Str ''own'')], [(''x'', Num 2), (''y'', Num 2)]]) (defaultProps\<lparr>props_labels := Arr [Str ''p0'']\<rparr>)
        componentWillMount
        [[(''x'', Num 1), (''y'', Num 1), (''label'', Str ''own'')], [(''x'', Num 2), (''y'', Num 2)]]
        [(''x'', Fun 0), (''y'', Fun 0)] ((''markers'', Obj [(''opacity'', Num 1)]) # getStyles defaultProps) =
      Inr [Some
       (G [(''key'', Str ''marker-group-0'')]
         [[Some
            (CloneElement
              \<lparr>component_type = Str ''Point'', component_props = []\<rparr>
              [(''events'', Obj []), (''key'', Str ''marker-0''),
               (''style'', Obj [(''opacity'', Num 1)]), (''index'', Num 0),
               (''datum'', Obj [(''x'', Num 1), (''y'', Num 1), (''label'', Str ''own'')]),
               (''x'', Num 1), (''y'', Num 1)])],
          [Some
            (CloneElement
              \<lparr>component_type = Str ''Label'', component_props = []\<rparr>
              [(''key'', Str ''label-0''), (''dy'', Num 5),
               (''textAnchor'', Str ''start''),
               (''verticalAnchor'', Str ''end''),
               (''style'',
                Obj [(''padding'', Num 5),
                     (''fontFamily'', Str ''Helvetica''),
                     (''fontSize'', Num 10), (''strokeWidth'', Num 0),
                     (''stroke'', Str ''transparent''),
                     (''textAnchor'', Str ''start''),
                     (''fill'', Undefined)]),
               (''text'', Str ''own''), (''index'', Num 0),
               (''datum'', Obj [(''x'', Num 1), (''y'', Num 1), (''label'', Str ''own'')]),
               (''x'', Num 1), (''y'', Num 1), (''events'', Obj [])])]]),
      Some
       (CloneElement \<lparr>component_type = Str ''Point'', component_props = []\<rparr>
         [(''events'', Obj []), (''key'', Str ''marker-1''),
          (''style'', Obj [(''opacity'', Num 1)]), (''index'', Num 1),
          (''datum'', Obj [(''x'', Num 2), (''y'', Num 2)]), (''x'', Num 2),
          (''y'', Num 2)])]
   \<and> (\<exists>mProps lProps.
        [Some
       (G [(''key'', Str ''marker-group-0'')]
         [[Some
            (CloneElement
              \<lparr>component_type = Str ''Point'', component_props = []\<rparr>
              [(''events'', Obj []), (''key'', Str ''marker-0''),
               (''style'', Obj [(''opacity'', Num 1)]), (''index'', Num 0),
               (''datum'', Obj [(''x'', Num 1), (''y'', Num 1), (''label'', Str ''own'')]),
               (''x'', Num 1), (''y'', Num 1)])],
          [Some
            (CloneElement
              \<lparr>component_type = Str ''Label'', component_props = []\<rparr>
              [(''key'', Str ''label-0''), (''dy'', Num 5),
               (''textAnchor'', Str ''start''),
               (''verticalAnchor'', Str ''end''),
               (''style'',
                Obj [(''padding'', Num 5),
                     (''fontFamily'', Str ''Helvetica''),
                     (''fontSize'', Num 10), (''strokeWidth'', Num 0),
                     (''stroke'', Str ''transparent''),
                     (''textAnchor'', Str ''start''),
                     (''fill'', Undefined)]),
               (''text'', Str ''own''), (''index'', Num 0),
               (''datum'', Obj [(''x'', Num 1), (''y'', Num 1), (''label'', Str ''own'')]),
               (''x'', Num 1), (''y'', Num 1), (''events'', Obj [])])]]),
      Some
       (CloneElement \<lparr>component_type = Str ''Point'', component_props = []\<rparr>
         [(''events'', Obj []), (''key'', Str ''marker-1''),
          (''style'', Obj [(''opacity'', Num 1)]), (''index'', Num 1),
          (''datum'', Obj [(''x'', Num 2), (''y'', Num 2)]), (''x'', Num 2),
          (''y'', Num 2)])] ! 0 =
          Some (G [(''key'', keyOf ''marker-group-'' 0)]
                  [[Some (CloneElement (props_markerComponent (defaultProps\<lparr>props_labels := Arr [Str ''p0'']\<rparr>)) mProps)],
                   [Some (CloneElement (props_labelComponent (defaultProps\<lparr>props_labels := Arr [Str ''p0'']\<rparr>)) lProps)]]))
   \<and> (\<exists>mProps.
        [Some
       (G [(''key'', Str ''marker-group-0'')]
         [[Some
            (CloneElement
              \<lparr>component_type = Str ''Point'', component_props = []\<rparr>
              [(''events'', Obj []), (''key'', Str ''marker-0''),
               (''style'', Obj [(''opacity'', Num 1)]), (''index'', Num 0),
               (''datum'', Obj [(''x'', Num 1), (''y'', Num 1), (''label'', Str ''own'')]),
               (''x'', Num 1), (''y'', Num 1)])],
          [Some
            (CloneElement
              \<lparr>component_type = Str ''Label'', component_props = []\<rparr>
              [(''key'', Str ''label-0''), (''dy'', Num 5),
               (''textAnchor'', Str ''start''),
               (''verticalAnchor'', Str ''end''),
               (''style'',
                Obj [(''padding'', Num 5),
                     (''fontFamily'', Str ''Helvetica''),
                     (''fontSize'', Num 10), (''strokeWidth'', Num 0),
                     (''stroke'', Str ''transparent''),
                     (''textAnchor'', Str ''start''),
                     (''fill'', Undefined)]),
               (''text'', Str ''own''), (''index'', Num 0),
               (''datum'', Obj [(''x'', Num 1), (''y'', Num 1), (''label'', Str ''own'')]),
               (''x'', Num 1), (''y'', Num 1), (''events'', Obj [])])]]),
      Some
       (CloneElement \<lparr>component_type = Str ''Point'', component_props = []\<rparr>
         [(''events'', Obj []), (''key'', Str ''marker-1''),
          (''style'', Obj [(''opacity'', Num 1)]), (''index'', Num 1),
          (''datum'', Obj [(''x'', Num 2), (''y'', Num 2)]), (''x'', Num 2),
          (''y'', Num 2)])] ! 1 =
          Some (CloneElement (props_markerComponent (defaultProps\<lparr>props_labels := Arr [Str ''p0'']\<rparr>)) mProps))"
proof -
  let ?p = "(defaultProps\<lparr>props_labels := Arr [Str ''p0'']\<rparr>)"
  let ?D = "[[(''x'', Num 1), (''y'', Num 1), (''label'', Str ''own'')], [(''x'', Num 2), (''y'', Num 2)]]"
  let ?E = "[Some
       (G [(''key'', Str ''marker-group-0'')]
         [[Some
            (CloneElement
              \<lparr>component_type = Str ''Point'', component_props = []\<rparr>
              [(''events'', Obj []), (''key'', Str ''marker-0''),
               (''style'', Obj [(''opacity'', Num 1)]), (''index'', Num 0),
               (''datum'', Obj [(''x'', Num 1), (''y'', Num 1), (''label'', Str ''own'')]),
               (''x'', Num 1), (''y'', Num 1)])],
          [Some
            (CloneElement
              \<lparr>component_type = Str ''Label'', component_props = []\<rparr>
              [(''key'', Str ''label-0''), (''dy'', Num 5),
               (''textAnchor'', Str ''start''),
               (''verticalAnchor'', Str ''end''),
               (''style'',
                Obj [(''padding'', Num 5),
                     (''fontFamily'', Str ''Helvetica''),
                     (''fontSize'', Num 10), (''strokeWidth'', Num 0),
                     (''stroke'', Str ''transparent''),
                     (''textAnchor'', Str ''start''),
                     (''fill'', Undefined)]),
               (''text'', Str ''own''), (''index'', Num 0),
               (''datum'', Obj [(''x'', Num 1), (''y'', Num 1), (''label'', Str ''own'')]),
               (''x'', Num 1), (''y'', Num 1), (''events'', Obj [])])]]),
      Some
       (CloneElement \<lparr>component_type = Str ''Point'', component_props = []\<rparr>
         [(''events'', Obj []), (''key'', Str ''marker-1''),
          (''style'', Obj [(''opacity'', Num 1)]), (''index'', Num 1),
          (''datum'', Obj [(''x'', Num 2), (''y'', Num 2)]), (''x'', Num 2),
          (''y'', Num 2)])]"
  let ?sty = "((''markers'', Obj [(''opacity'', Num 1)]) # getStyles defaultProps)"
  have r: "renderMarkersAndLabels (plainEnv ?D) ?p componentWillMount ?D [(''x'', Fun 0), (''y'', Fun 0)] ?sty = Inr ?E"
    by code_simp
  have g: "\<not> isGap (?D ! 0)" "\<not> isGap (?D ! 1)" "0 < length ?D" "1 < length ?D"
    by (simp_all add: isGap_def get_def)
  have d: "?D ! 0 = [(''x'', Num 1), (''y'', Num 1), (''label'', Str ''own'')]"
    "?D ! 1 = [(''x'', Num 2), (''y'', Num 2)]"
    by simp_all
  have l: "truthy (get (?D ! 0) ''label'')" "get (?D ! 0) ''label'' = Str ''own''"
    "\<not> truthy (get (?D ! 1) ''label'')"
    by (simp_all add: get_def)
  have n: "props_labels ?p = Arr [Str ''p0'']" "props_labels ?p \<noteq> Bool True"
    by simp_all
  note t = label_text_and_visibility [where env = "plainEnv ?D" and props = ?p
      and this_state = componentWillMount and dataset = ?D
      and scale = "[(''x'', Fun 0), (''y'', Fun 0)]" and style = ?sty and elements = ?E]
  from t [where datum = "?D ! 0" and index = 0] l
  have a: "getLabelText (plainEnv ?D) ?p (?D ! 0) 0 = Str ''own''"
    by simp
  from t [where datum = "?D ! 1" and index = 1] l n
  have b: "getLabelText (plainEnv ?D) ?p (?D ! 1) 1 = Undefined"
    by simp
  from a have ta: "truthy (getLabelText (plainEnv ?D) ?p (?D ! 0) 0)" by simp
  from b have tb: "\<not> truthy (getLabelText (plainEnv ?D) ?p (?D ! 1) 1)" by simp
  from t [where i = 0] r g(1,3) ta
  have e0: "\<exists>mProps lProps. ?E ! 0 =
          Some (G [(''key'', keyOf ''marker-group-'' 0)]
                  [[Some (CloneElement (props_markerComponent ?p) mProps)],
                   [Some (CloneElement (props_labelComponent ?p) lProps)]])"
    by blast
  from t [where i = 1] r g(2,4) tb n(2)
  have e1: "\<exists>mProps. ?E ! 1 = Some (CloneElement (props_markerComponent ?p) mProps)"
    by blast
  from a b r e0 e1 show ?thesis
    unfolding d by blast
qed

theorem label_text_and_visibility_counterexample:
  "map_of [(''x'', Num 1), (''y'', Num 1), (''label'', Str '''')] ''label'' = Some (Str '''')
   \<and> getLabelText (plainEnv [[(''x'', Num 1), (''y'', Num 1), (''label'', Str '''')]])
        (defaultProps\<lparr>props_labels := Arr [Str ''a'']\<rparr>)
        [(''x'', Num 1), (''y'', Num 1), (''label'', Str '''')] 0 = Str ''a''
   \<and> renderMarkersAndLabels (plainEnv [[(''x'', Num 1), (''y'', Num 1), (''label'', Str '''')]])
        (defaultProps\<lparr>props_labels := Arr [Str ''a'']\<rparr>)
        componentWillMount
        [[(''x'', Num 1), (''y'', Num 1), (''label'', Str '''')]]
        [(''x'', Fun 0), (''y'', Fun 0)] ((''markers'', Obj [(''opacity'', Num 1)]) # getStyles defaultProps) =
      Inr [Some
       (G [(''key'', Str ''marker-group-0'')]
         [[Some
            (CloneElement
              \<lparr>component_type = Str ''Point'', component_props = []\<rparr>
              [(''events'', Obj []), (''key'', Str ''marker-0''),
               (''style'', Obj [(''opacity'', Num 1)]), (''index'', Num 0),
               (''datum'',
                Obj [(''x'', Num 1), (''y'', Num 1), (''label'', Str '''')]),
               (''x'', Num 1), (''y'', Num 1)])],
          [Some
            (CloneElement
              \<lparr>component_type = Str ''Label'', component_props = []\<rparr>
              [(''key'', Str ''label-0''), (''dy'', Num 5),
               (''textAnchor'', Str ''start''),
               (''verticalAnchor'', Str ''end''),
               (''style'',
                Obj [(''padding'', Num 5),
                     (''fontFamily'', Str ''Helvetica''),
                     (''fontSize'', Num 10), (''strokeWidth'', Num 0),
                     (''stroke'', Str ''transparent''),
                     (''textAnchor'', Str ''start''),
                     (''fill'', Undefined)]),
               (''text'', Str ''a''), (''index'', Num 0),
               (''datum'',
                Obj [(''x'', Num 1), (''y'', Num 1), (''label'', Str '''')]),
               (''x'', Num 1), (''y'', Num 1), (''events'', Obj [])])]])]"
  by code_simp

section \<open>Properties of the segmenter on a store\<close>

lemma extends_refl: "extends h h"
  by (simp add: extends_def)

lemma extends_length:
  assumes "extends h0 h"
  shows "length h0 \<le> length h"
proof -
  from assms have "length (take (length h0) h) = length h0"
    unfolding extends_def by (rule arg_cong)
  then show ?thesis by simp
qed

lemma extends_alloc: "extends h0 h \<Longrightarrow> extends h0 (snd (alloc h c))"
  using extends_length [of h0 h] by (simp add: extends_def alloc_def)

lemma extends_push: "extends h0 h \<Longrightarrow> length h0 \<le> a \<Longrightarrow> extends h0 (push h a v)"
  by (simp add: extends_def push_def)

lemma forEach_invariant:
  assumes "\<And>x i s. P s \<Longrightarrow> P (f x i s)" and "P s"
  shows "P (forEach xs f s)"
proof -
  have "P (fold (\<lambda>(index, element). f element index) ps s)" for ps
    using assms(2) by (induction ps arbitrary: s) (auto intro: assms(1))
  then show ?thesis by (simp add: forEach_def)
qed

lemma closeRun_store_extends:
  assumes "extends h0 (fst st)" "length h0 \<le> segments"
  shows "extends h0 (fst (closeRun_store orderedData segments datum index st))"
proof (cases st)
  case (Pair h start)
  with assms show ?thesis
    using extends_push [OF extends_alloc [of h0 h], of segments]
    by (simp add: closeRun_store_def slice_store_def split: prod.splits) (simp add: alloc_def)
qed

lemma getDataSegments_store_extends:
  "extends h (snd (getDataSegments_store ascending h dataset))"
proof -
  obtain h1 where h1: "sortBy_store ascending h dataset ''x'' = (length h, h1)"
    and e1: "extends h h1"
    using extends_alloc [OF extends_refl, of h] by (simp add: sortBy_store_def alloc_def)
  obtain h2 where h2: "alloc h1 (ArrayCell []) = (length h1, h2)" and e2: "extends h h2"
    using extends_alloc [OF e1] by (simp add: alloc_def)
  have l1: "length h \<le> length h1" using e1 by (rule extends_length)
  obtain h3 start where h3:
    "forEach (arrayAt h2 (length h)) (closeRun_store (length h) (length h1)) (h2, 0) = (h3, start)"
    by (cases "forEach (arrayAt h2 (length h)) (closeRun_store (length h) (length h1)) (h2, 0)")
  have "extends h (fst (forEach (arrayAt h2 (length h))
          (closeRun_store (length h) (length h1)) (h2, 0)))"
    by (rule forEach_invariant [where P = "\<lambda>s. extends h (fst s)"])
       (simp_all add: closeRun_store_extends l1 e2)
  with h3 have e3: "extends h h3" by simp
  obtain run h4 where h4:
    "slice_store h3 (length h) start (length (arrayAt h3 (length h))) = (run, h4)"
    and e4: "extends h h4"
    using extends_alloc [OF e3] by (simp add: slice_store_def alloc_def)
  have e5: "extends h (push h4 (length h1) run)"
    using e4 l1 by (rule extends_push)
  show ?thesis
    using extends_alloc [OF e5]
    by (simp add: getDataSegments_store_def h1 h2 h3 h4 filter_store_def)
qed

lemma map_insort_key:
  "map f (insort_key (\<lambda>r. k (f r)) x xs) = insort_key k (f x) (map f xs)"
  by (induction xs) simp_all

lemma map_sort_key: "map f (sort_key (\<lambda>r. k (f r)) xs) = sort_key k (map f xs)"
  by (induction xs) (simp_all add: map_insort_key)

lemma nth_prefix:
  assumes "take m hn = p" "a < length p"
  shows "a < length hn" and "hn ! a = p ! a"
proof -
  from assms have a: "a < m" "a < length hn" by auto
  then show "a < length hn" by simp
  from a have "take m hn ! a = hn ! a" by simp
  with assms(1) show "hn ! a = p ! a" by simp
qed

lemma arrayAt_prefix: "take m hn = p \<Longrightarrow> a < length p \<Longrightarrow> arrayAt hn a = arrayAt p a"
  using nth_prefix [of m hn p a] by (simp add: arrayAt_def)

lemma objectAt_prefix: "take m hn = p \<Longrightarrow> a < length p \<Longrightarrow> objectAt hn a = objectAt p a"
  using nth_prefix [of m hn p a] by (simp add: objectAt_def)

lemma objectAt_append: "a < length h \<Longrightarrow> objectAt (h @ h') a = objectAt h a"
  by (simp add: objectAt_def nth_append)

lemma arrayAt_append: "a < length h \<Longrightarrow> arrayAt (h @ h') a = arrayAt h a"
  by (simp add: arrayAt_def nth_append)

lemma arrayAt_new: "arrayAt (h @ [ArrayCell xs]) (length h) = xs"
  by (simp add: arrayAt_def)

lemma arrayAt_update_other:
  "a \<noteq> b \<Longrightarrow> arrayAt (h[b := c]) a = arrayAt h a"
  by (simp add: arrayAt_def)

lemma arrayAt_update_same:
  "b < length h \<Longrightarrow> arrayAt (h[b := ArrayCell xs]) b = xs"
  by (simp add: arrayAt_def)

lemma storeRel_ordered:
  assumes "storeRel h xs hn segs"
  shows "arrayAt hn (length h) = xs"
    and "r < length h \<Longrightarrow> objectAt hn r = objectAt h r"
proof -
  from assms have t: "take (Suc (length h)) hn = h @ [ArrayCell xs]"
    by (simp add: storeRel_def)
  show "arrayAt hn (length h) = xs"
    using arrayAt_prefix [OF t, of "length h"] by (simp add: arrayAt_new)
  show "r < length h \<Longrightarrow> objectAt hn r = objectAt h r"
    using objectAt_prefix [OF t, of r] by (simp add: objectAt_append)
qed

lemma map_slice: "map f (slice xs a b) = slice (map f xs) a b"
  by (simp add: slice_def take_map drop_map)

lemma set_slice: "set (slice xs a b) \<subseteq> set xs"
  unfolding slice_def by (meson set_take_subset set_drop_subset subset_trans)

lemma storeRel_close:
  assumes rel: "storeRel h xs hn segs"
    and sl: "slice_store hn (length h) a b = (run, hn')"
  shows "storeRel h xs (push hn' (Suc (length h)) run)
           (segs @ [slice (map (objectAt h) xs) a b])"
proof -
  from rel obtain segrefs where
    t: "take (Suc (length h)) hn = h @ [ArrayCell xs]"
    and l: "Suc (length h) < length hn"
    and c: "hn ! Suc (length h) = ArrayCell segrefs"
    and s: "\<forall>s \<in> set segrefs. Suc (length h) < s \<and> s < length hn \<and> set (arrayAt hn s) \<subseteq> set xs"
    and m: "map (\<lambda>s. map (objectAt h) (arrayAt hn s)) segrefs = segs"
    unfolding storeRel_def by blast
  from sl have run: "run = length hn"
    and hn': "hn' = hn @ [ArrayCell (slice xs a b)]"
    by (simp_all add: slice_store_def alloc_def storeRel_ordered(1) [OF rel])
  from l c have old: "arrayAt hn' (Suc (length h)) = segrefs"
    by (simp add: hn' arrayAt_def nth_append)
  define hp where "hp = push hn' (Suc (length h)) run"
  have hp: "hp = hn'[Suc (length h) := ArrayCell (segrefs @ [length hn])]"
    by (simp add: hp_def push_def old run)
  have len: "length hp = Suc (length hn)"
    by (simp add: hp hn')
  have t': "take (Suc (length h)) hp = h @ [ArrayCell xs]"
    using t l by (simp add: hp hn')
  have c': "hp ! Suc (length h) = ArrayCell (segrefs @ [length hn])"
    using l by (simp add: hp hn')
  have keep: "arrayAt hp s = arrayAt hn s" if "s \<in> set segrefs" for s
  proof -
    from s that have "Suc (length h) < s" "s < length hn" by auto
    then show ?thesis
      by (simp add: hp hn' arrayAt_update_other arrayAt_append)
  qed
  have new: "arrayAt hp (length hn) = slice xs a b"
    using l by (simp add: hp hn' arrayAt_update_other arrayAt_new)
  have s': "\<forall>s \<in> set (segrefs @ [length hn]).
              Suc (length h) < s \<and> s < length hp \<and> set (arrayAt hp s) \<subseteq> set xs"
    using s l by (auto simp: keep new len set_slice [THEN subsetD])
  have "map (\<lambda>s. map (objectAt h) (arrayAt hp s)) segrefs = segs"
    using m keep by (metis (no_types, lifting) map_eq_conv)
  then have m': "map (\<lambda>s. map (objectAt h) (arrayAt hp s)) (segrefs @ [length hn]) =
           segs @ [slice (map (objectAt h) xs) a b]"
    by (simp add: new map_slice)
  from t' len l c' s' m' show ?thesis
    unfolding storeRel_def hp_def [symmetric] by auto
qed

lemma storeRel_init: "storeRel h xs (h @ [ArrayCell xs, ArrayCell []]) []"
  by (simp add: storeRel_def nth_append)

lemma closeRun_store_sim:
  assumes rel: "storeRel h xs hn segs"
    and valid: "\<forall>r \<in> set xs. r < length h"
    and n: "n < length xs"
  shows "storeRel h xs
           (fst (closeRun_store (length h) (Suc (length h)) (xs ! n) n (hn, start)))
           (fst (closeRun (map (objectAt h) xs) (map (objectAt h) xs ! n) n (segs, start)))
         \<and> snd (closeRun_store (length h) (Suc (length h)) (xs ! n) n (hn, start)) =
           snd (closeRun (map (objectAt h) xs) (map (objectAt h) xs ! n) n (segs, start))"
proof -
  from valid n have "xs ! n < length h" by simp
  then have o: "objectAt hn (xs ! n) = objectAt h (xs ! n)"
    by (rule storeRel_ordered(2) [OF rel])
  show ?thesis
  proof (cases "isGap (objectAt h (xs ! n))")
    case True
    obtain run hn' where sl: "slice_store hn (length h) start n = (run, hn')"
      by (cases "slice_store hn (length h) start n")
    from storeRel_close [OF rel sl] True n show ?thesis
      by (simp add: closeRun_store_def closeRun_def o sl)
  next
    case False
    with rel n show ?thesis
      by (simp add: closeRun_store_def closeRun_def o)
  qed
qed

lemma store_loop:
  assumes valid: "\<forall>r \<in> set xs. r < length h"
  shows "n \<le> length xs \<Longrightarrow>
    storeRel h xs
      (fst (forEach (take n xs) (closeRun_store (length h) (Suc (length h)))
              (h @ [ArrayCell xs, ArrayCell []], 0)))
      (fst (forEach (take n (map (objectAt h) xs)) (closeRun (map (objectAt h) xs)) ([], 0)))
    \<and> snd (forEach (take n xs) (closeRun_store (length h) (Suc (length h)))
              (h @ [ArrayCell xs, ArrayCell []], 0)) =
      snd (forEach (take n (map (objectAt h) xs)) (closeRun (map (objectAt h) xs)) ([], 0))"
proof (induction n)
  case 0
  show ?case by (simp add: forEach_def storeRel_init)
next
  case (Suc n)
  then have n: "n < length xs" and ih:
    "storeRel h xs
      (fst (forEach (take n xs) (closeRun_store (length h) (Suc (length h)))
              (h @ [ArrayCell xs, ArrayCell []], 0)))
      (fst (forEach (take n (map (objectAt h) xs)) (closeRun (map (objectAt h) xs)) ([], 0)))"
    "snd (forEach (take n xs) (closeRun_store (length h) (Suc (length h)))
              (h @ [ArrayCell xs, ArrayCell []], 0)) =
      snd (forEach (take n (map (objectAt h) xs)) (closeRun (map (objectAt h) xs)) ([], 0))"
    by simp_all
  obtain hn start where S:
    "forEach (take n xs) (closeRun_store (length h) (Suc (length h)))
              (h @ [ArrayCell xs, ArrayCell []], 0) = (hn, start)"
    by (cases "forEach (take n xs) (closeRun_store (length h) (Suc (length h)))
              (h @ [ArrayCell xs, ArrayCell []], 0)")
  obtain segs start' where P:
    "forEach (take n (map (objectAt h) xs)) (closeRun (map (objectAt h) xs)) ([], 0)
       = (segs, start')"
    by (cases "forEach (take n (map (objectAt h) xs)) (closeRun (map (objectAt h) xs)) ([], 0)")
  from ih S P have rel: "storeRel h xs hn segs" and st: "start' = start" by simp_all
  have n': "n < length (map (objectAt h) xs)" using n by simp
  show ?case
    unfolding forEach_take_Suc [OF n] forEach_take_Suc [OF n'] S P st
    by (rule closeRun_store_sim [OF rel valid n])
qed

lemma getDataSegments_store_refines_later:
  assumes valid: "\<forall>r \<in> set (arrayAt h dataset). r < length h"
  shows "segmentsAt (snd (getDataSegments_store ascending h dataset) @ cells)
           (fst (getDataSegments_store ascending h dataset)) =
         getDataSegments ascending (datasetAt h dataset)"
proof -
  define xs where "xs = sort_key (\<lambda>r. ascending (get (objectAt h r) ''x'')) (arrayAt h dataset)"
  define pxs where "pxs = map (objectAt h) xs"
  have pxs: "pxs = sortBy ascending (datasetAt h dataset) ''x''"
    using map_sort_key [of "objectAt h" "\<lambda>obj. ascending (get obj ''x'')" "arrayAt h dataset"]
    by (simp add: pxs_def xs_def sortBy_def datasetAt_def)
  have valid': "\<forall>r \<in> set xs. r < length h"
    using valid by (simp add: xs_def)
  define h2 where "h2 = h @ [ArrayCell xs, ArrayCell []]"
  obtain h3 start where S:
    "forEach xs (closeRun_store (length h) (Suc (length h))) (h2, 0) = (h3, start)"
    by (cases "forEach xs (closeRun_store (length h) (Suc (length h))) (h2, 0)")
  obtain segs start' where P: "forEach pxs (closeRun pxs) ([], 0) = (segs, start')"
    by (cases "forEach pxs (closeRun pxs) ([], 0)")
  from store_loop [OF valid', of "length xs"] S P
  have rel: "storeRel h xs h3 segs" and st: "start' = start"
    by (simp_all add: h2_def pxs_def)
  obtain run h4 where sl: "slice_store h3 (length h) start (length xs) = (run, h4)"
    by (cases "slice_store h3 (length h) start (length xs)")
  define h5 where "h5 = push h4 (Suc (length h)) run"
  from storeRel_close [OF rel sl]
  have rel5: "storeRel h xs h5 (segs @ [slice pxs start (length xs)])"
    by (simp add: h5_def pxs_def)
  then obtain segrefs where
    c: "h5 ! Suc (length h) = ArrayCell segrefs" and l: "Suc (length h) < length h5"
    and s: "\<forall>s \<in> set segrefs. Suc (length h) < s \<and> s < length h5 \<and> set (arrayAt h5 s) \<subseteq> set xs"
    and m: "map (\<lambda>s. map (objectAt h) (arrayAt h5 s)) segrefs = segs @ [slice pxs start (length xs)]"
    unfolding storeRel_def by blast
  from c l have a5: "arrayAt h5 (Suc (length h)) = segrefs"
    by (simp add: arrayAt_def)
  define F where "F = filter (\<lambda>segment. length (arrayAt h5 segment) > 0) segrefs"
  have e1: "sortBy_store ascending h dataset ''x'' = (length h, h @ [ArrayCell xs])"
    by (simp add: sortBy_store_def alloc_def xs_def)
  have e2: "alloc (h @ [ArrayCell xs]) (ArrayCell []) = (Suc (length h), h2)"
    by (simp add: alloc_def h2_def)
  have e3: "arrayAt h2 (length h) = xs"
    by (simp add: h2_def arrayAt_def nth_append)
  have e4: "arrayAt h3 (length h) = xs"
    by (rule storeRel_ordered(1) [OF rel])
  have e5: "filter_store h5 (Suc (length h))
              (\<lambda>segment. length (arrayAt h5 segment) > 0) = (length h5, h5 @ [ArrayCell F])"
    by (simp add: filter_store_def alloc_def a5 F_def)
  have res: "getDataSegments_store ascending h dataset = (length h5, h5 @ [ArrayCell F])"
    unfolding getDataSegments_store_def e1 prod.case e2 e3 S e4 sl h5_def [symmetric] e5
    by (rule refl)
  have o: "objectAt (h5 @ ArrayCell F # cells) r = objectAt h r" if "r < length h" for r
  proof -
    from l that have "r < length h5" by simp
    then have "objectAt (h5 @ ArrayCell F # cells) r = objectAt h5 r" by (rule objectAt_append)
    with storeRel_ordered(2) [OF rel5 that] show ?thesis by simp
  qed
  have seg: "map (objectAt (h5 @ ArrayCell F # cells)) (arrayAt (h5 @ ArrayCell F # cells) s) =
             map (objectAt h) (arrayAt h5 s)" if "s \<in> set segrefs" for s
  proof -
    from s that have sl: "s < length h5" and sub: "set (arrayAt h5 s) \<subseteq> set xs" by auto
    from sl have "arrayAt (h5 @ ArrayCell F # cells) s = arrayAt h5 s" by (rule arrayAt_append)
    moreover have "\<forall>r \<in> set (arrayAt h5 s). objectAt (h5 @ ArrayCell F # cells) r = objectAt h r"
      using sub valid' o by blast
    ultimately show ?thesis by simp
  qed
  have "segmentsAt (h5 @ ArrayCell F # cells) (length h5) =
          map (\<lambda>s. map (objectAt (h5 @ ArrayCell F # cells)) (arrayAt (h5 @ ArrayCell F # cells) s)) F"
    by (simp add: segmentsAt_def arrayAt_def)
  also have "\<dots> = map (\<lambda>s. map (objectAt h) (arrayAt h5 s)) F"
    using seg by (simp add: F_def)
  also have "\<dots> = filter (\<lambda>segment. length segment > 0)
                     (map (\<lambda>s. map (objectAt h) (arrayAt h5 s)) segrefs)"
    by (simp add: F_def filter_map comp_def)
  also have "\<dots> = filter (\<lambda>segment. length segment > 0) (segs @ [slice pxs start (length xs)])"
    by (simp only: m)
  also have "\<dots> = getDataSegments ascending (datasetAt h dataset)"
    using P by (simp add: getDataSegments_def pxs [symmetric] st) (simp add: pxs_def)
  finally show ?thesis by (simp add: res)
qed

lemma getDataSegments_store_refines:
  assumes valid: "\<forall>r \<in> set (arrayAt h dataset). r < length h"
  shows "segmentsAt (snd (getDataSegments_store ascending h dataset))
           (fst (getDataSegments_store ascending h dataset)) =
         getDataSegments ascending (datasetAt h dataset)"
  using getDataSegments_store_refines_later [OF assms, of ascending "[]"] by simp

lemma extends_nth:
  assumes "extends h0 h" "a < length h0"
  shows "h ! a = h0 ! a"
  using nth_prefix(2) [of "length h0" h h0 a] assms by (simp add: extends_def)

lemma extends_arrayAt: "extends h0 h \<Longrightarrow> a < length h0 \<Longrightarrow> arrayAt h a = arrayAt h0 a"
  unfolding extends_def by (rule arrayAt_prefix)

lemma extends_objectAt: "extends h0 h \<Longrightarrow> a < length h0 \<Longrightarrow> objectAt h a = objectAt h0 a"
  unfolding extends_def by (rule objectAt_prefix)

lemma getDataSegments_store_shape:
  "\<exists>h5 F. getDataSegments_store ascending h dataset = (length h5, h5 @ [ArrayCell F])
     \<and> extends h h5"
proof -
  obtain h1 where h1: "sortBy_store ascending h dataset ''x'' = (length h, h1)"
    and e1: "extends h h1"
    using extends_alloc [OF extends_refl, of h] by (simp add: sortBy_store_def alloc_def)
  obtain h2 where h2: "alloc h1 (ArrayCell []) = (length h1, h2)" and e2: "extends h h2"
    using extends_alloc [OF e1] by (simp add: alloc_def)
  have l1: "length h \<le> length h1" using e1 by (rule extends_length)
  obtain h3 start where h3:
    "forEach (arrayAt h2 (length h)) (closeRun_store (length h) (length h1)) (h2, 0) = (h3, start)"
    by (cases "forEach (arrayAt h2 (length h)) (closeRun_store (length h) (length h1)) (h2, 0)")
  have "extends h (fst (forEach (arrayAt h2 (length h))
          (closeRun_store (length h) (length h1)) (h2, 0)))"
    by (rule forEach_invariant [where P = "\<lambda>s. extends h (fst s)"])
       (simp_all add: closeRun_store_extends l1 e2)
  with h3 have e3: "extends h h3" by simp
  obtain run h4 where h4:
    "slice_store h3 (length h) start (length (arrayAt h3 (length h))) = (run, h4)"
    and e4: "extends h h4"
    using extends_alloc [OF e3] by (simp add: slice_store_def alloc_def)
  have e5: "extends h (push h4 (length h1) run)"
    using e4 l1 by (rule extends_push)
  have "getDataSegments_store ascending h dataset =
          filter_store (push h4 (length h1) run) (length h1)
            (\<lambda>segment. length (arrayAt (push h4 (length h1) run) segment) > 0)"
    unfolding getDataSegments_store_def h1 prod.case h2 h3 h4 by (rule refl)
  with e5 show ?thesis
    unfolding filter_store_def alloc_def by blast
qed

lemma getDataSegments_store_fresh:
  "length h \<le> fst (getDataSegments_store ascending h dataset)"
  using getDataSegments_store_shape [of ascending h dataset] extends_length by auto

text \<open>
  C10. On a store, \<^verbatim>\<open>getDataSegments\<close> writes only to arrays it has allocated itself: every
  cell that was in the store before the call is the same after it, and the array it
  returns is a new one. So the input array holds the same references in the same order
  (its length and its element order are unchanged), and every data point it refers to
  has the same fields.
\<close>

theorem getDataSegments_leaves_input_unchanged:
  "take (length h) (snd (getDataSegments_store ascending h dataset)) = h
   \<and> length h \<le> fst (getDataSegments_store ascending h dataset)
   \<and> (dataset < length h \<longrightarrow>
        arrayAt (snd (getDataSegments_store ascending h dataset)) dataset = arrayAt h dataset
        \<and> (\<forall>r \<in> set (arrayAt h dataset). r < length h \<longrightarrow>
             objectAt (snd (getDataSegments_store ascending h dataset)) r = objectAt h r))"
  using getDataSegments_store_extends [of h ascending dataset]
    getDataSegments_store_fresh [of h ascending dataset]
  by (auto simp: extends_arrayAt extends_objectAt) (simp add: extends_def)

theorem getDataSegments_leaves_input_unchanged_witness:
  "take 4 (snd (getDataSegments_store ascendingKey
     [ObjectCell [(''x'', Num 3), (''y'', Num 1)],
      ObjectCell [(''x'', Num 2), (''y'', Null)],
      ObjectCell [(''x'', Num 1), (''y'', Num 2)],
      ArrayCell [0, 1, 2]] 3)) =
     [ObjectCell [(''x'', Num 3), (''y'', Num 1)],
      ObjectCell [(''x'', Num 2), (''y'', Null)],
      ObjectCell [(''x'', Num 1), (''y'', Num 2)],
      ArrayCell [0, 1, 2]]
   \<and> arrayAt (snd (getDataSegments_store ascendingKey
     [ObjectCell [(''x'', Num 3), (''y'', Num 1)],
      ObjectCell [(''x'', Num 2), (''y'', Null)],
      ObjectCell [(''x'', Num 1), (''y'', Num 2)],
      ArrayCell [0, 1, 2]] 3)) 3 = [0, 1, 2]
   \<and> objectAt (snd (getDataSegments_store ascendingKey
     [ObjectCell [(''x'', Num 3), (''y'', Num 1)],
      ObjectCell [(''x'', Num 2), (''y'', Null)],
      ObjectCell [(''x'', Num 1), (''y'', Num 2)],
      ArrayCell [0, 1, 2]] 3)) 0 = [(''x'', Num 3), (''y'', Num 1)]
   \<and> getDataSegments_store ascendingKey
     [ObjectCell [(''x'', Num 3), (''y'', Num 1)],
      ObjectCell [(''x'', Num 2), (''y'', Null)],
      ObjectCell [(''x'', Num 1), (''y'', Num 2)],
      ArrayCell [0, 1, 2]] 3 =
     (8, [ObjectCell [(''x'', Num 3), (''y'', Num 1)],
      ObjectCell [(''x'', Num 2), (''y'', Null)],
      ObjectCell [(''x'', Num 1), (''y'', Num 2)], ArrayCell [0, 1, 2],
      ArrayCell [2, 1, 0], ArrayCell [6, 7], ArrayCell [2], ArrayCell [0],
      ArrayCell [6, 7]])"
proof -
  let ?h = "[ObjectCell [(''x'', Num 3), (''y'', Num 1)],
      ObjectCell [(''x'', Num 2), (''y'', Null)],
      ObjectCell [(''x'', Num 1), (''y'', Num 2)],
      ArrayCell [0, 1, 2]]"
  have r: "getDataSegments_store ascendingKey ?h 3 =
     (8, [ObjectCell [(''x'', Num 3), (''y'', Num 1)],
      ObjectCell [(''x'', Num 2), (''y'', Null)],
      ObjectCell [(''x'', Num 1), (''y'', Num 2)], ArrayCell [0, 1, 2],
      ArrayCell [2, 1, 0], ArrayCell [6, 7], ArrayCell [2], ArrayCell [0],
      ArrayCell [6, 7]])"
    by code_simp
  note t = getDataSegments_leaves_input_unchanged [of ?h ascendingKey 3]
  have l: "3 < length ?h" "0 < length ?h" "0 \<in> set (arrayAt ?h 3)"
    by (simp_all add: arrayAt_def)
  from t have "take (length ?h) (snd (getDataSegments_store ascendingKey ?h 3)) = ?h"
    by blast
  moreover have "length ?h = 4"
    by simp
  ultimately have t1: "take 4 (snd (getDataSegments_store ascendingKey ?h 3)) = ?h"
    by (simp only:)
  from t l have "arrayAt (snd (getDataSegments_store ascendingKey ?h 3)) 3 = arrayAt ?h 3"
    by blast
  then have t2: "arrayAt (snd (getDataSegments_store ascendingKey ?h 3)) 3 = [0, 1, 2]"
    by (simp add: arrayAt_def)
  from t l have "objectAt (snd (getDataSegments_store ascendingKey ?h 3)) 0 = objectAt ?h 0"
    by blast
  then have t3: "objectAt (snd (getDataSegments_store ascendingKey ?h 3)) 0 =
           [(''x'', Num 3), (''y'', Num 1)]"
    by (simp add: objectAt_def)
  from t1 t2 t3 r show ?thesis by simp
qed

lemma filter_key_segments:
  "filter (\<lambda>d. ascending (get d ''x'') = v) (concat (getDataSegments ascending D)) =
   filter (\<lambda>d. ascending (get d ''x'') = v) (filter (\<lambda>d. \<not> isGap d) D)"
proof -
  have "filter (\<lambda>d. ascending (get d ''x'') = v) (concat (getDataSegments ascending D)) =
        filter (\<lambda>d. \<not> isGap d)
          (filter (\<lambda>d. ascending (get d ''x'') = v) (sortBy ascending D ''x''))"
    by (simp add: getDataSegments_concat conj_commute)
  also have "\<dots> = filter (\<lambda>d. \<not> isGap d) (filter (\<lambda>d. ascending (get d ''x'') = v) D)"
    by (simp only: sortBy_stable)
  finally show ?thesis by (simp add: conj_commute)
qed

text \<open>
  C9. The points of the segments that have one and the same \<^verbatim>\<open>x\<close> are, in the order of
  the segments, the points of the dataset with that \<^verbatim>\<open>x\<close> that are not gaps, in the order
  of the dataset: the sort is stable. And the output is a function of the input alone: on
  a store, the segments read from the returned array are \<^verbatim>\<open>getDataSegments\<close> of the data
  points read from the input array, so two calls on arrays with the same points return
  the same segments, whatever else the stores hold.
\<close>

theorem getDataSegments_deterministic_stable:
  "filter (\<lambda>d. ascending (get d ''x'') = v) (concat (getDataSegments ascending D)) =
     filter (\<lambda>d. ascending (get d ''x'') = v) (filter (\<lambda>d. \<not> isGap d) D)
   \<and> ((\<forall>r \<in> set (arrayAt h dataset). r < length h) \<longrightarrow>
        segmentsAt (snd (getDataSegments_store ascending h dataset))
          (fst (getDataSegments_store ascending h dataset)) =
        getDataSegments ascending (datasetAt h dataset))
   \<and> ((\<forall>r \<in> set (arrayAt h dataset). r < length h) \<longrightarrow>
       (\<forall>r \<in> set (arrayAt h' dataset'). r < length h') \<longrightarrow>
       datasetAt h dataset = datasetAt h' dataset' \<longrightarrow>
        segmentsAt (snd (getDataSegments_store ascending h dataset))
          (fst (getDataSegments_store ascending h dataset)) =
        segmentsAt (snd (getDataSegments_store ascending h' dataset'))
          (fst (getDataSegments_store ascending h' dataset')))"
  using filter_key_segments [of ascending v D]
    getDataSegments_store_refines [of h dataset ascending]
    getDataSegments_store_refines [of h' dataset' ascending]
  by simp


theorem getDataSegments_deterministic_stable_witness:
  "filter (\<lambda>d. ascendingKey (get d ''x'') = (0, 1)) (concat (getDataSegments ascendingKey
     [[(''x'', Num 1), (''y'', Num 1), (''label'', Str ''a'')],
      [(''x'', Num 0), (''y'', Num 5)],
      [(''x'', Num 1), (''y'', Num 2), (''label'', Str ''b'')]])) =
     [[(''x'', Num 1), (''y'', Num 1), (''label'', Str ''a'')],
      [(''x'', Num 1), (''y'', Num 2), (''label'', Str ''b'')]]
   \<and> segmentsAt (snd (getDataSegments_store ascendingKey
     [ObjectCell [(''x'', Num 3), (''y'', Num 1)],
      ObjectCell [(''x'', Num 2), (''y'', Null)],
      ObjectCell [(''x'', Num 1), (''y'', Num 2)],
      ArrayCell [0, 1, 2]] 3))
       (fst (getDataSegments_store ascendingKey
     [ObjectCell [(''x'', Num 3), (''y'', Num 1)],
      ObjectCell [(''x'', Num 2), (''y'', Null)],
      ObjectCell [(''x'', Num 1), (''y'', Num 2)],
      ArrayCell [0, 1, 2]] 3)) =
     [[[(''x'', Num 1), (''y'', Num 2)]], [[(''x'', Num 3), (''y'', Num 1)]]]
   \<and> segmentsAt (snd (getDataSegments_store ascendingKey
     [ObjectCell [(''x'', Num 3), (''y'', Num 1)],
      ObjectCell [(''x'', Num 2), (''y'', Null)],
      ObjectCell [(''x'', Num 1), (''y'', Num 2)],
      ArrayCell [0, 1, 2]] 3))
       (fst (getDataSegments_store ascendingKey
     [ObjectCell [(''x'', Num 3), (''y'', Num 1)],
      ObjectCell [(''x'', Num 2), (''y'', Null)],
      ObjectCell [(''x'', Num 1), (''y'', Num 2)],
      ArrayCell [0, 1, 2]] 3)) =
     segmentsAt (snd (getDataSegments_store ascendingKey
     [ArrayCell [3, 1, 2], ObjectCell [(''x'', Num 2), (''y'', Null)],
      ObjectCell [(''x'', Num 1), (''y'', Num 2)],
      ObjectCell [(''x'', Num 3), (''y'', Num 1)]] 0))
       (fst (getDataSegments_store ascendingKey
     [ArrayCell [3, 1, 2], ObjectCell [(''x'', Num 2), (''y'', Null)],
      ObjectCell [(''x'', Num 1), (''y'', Num 2)],
      ObjectCell [(''x'', Num 3), (''y'', Num 1)]] 0))"
proof -
  let ?D = "[[(''x'', Num 1), (''y'', Num 1), (''label'', Str ''a'')],
      [(''x'', Num 0), (''y'', Num 5)],
      [(''x'', Num 1), (''y'', Num 2), (''label'', Str ''b'')]]"
  let ?h = "[ObjectCell [(''x'', Num 3), (''y'', Num 1)],
      ObjectCell [(''x'', Num 2), (''y'', Null)],
      ObjectCell [(''x'', Num 1), (''y'', Num 2)],
      ArrayCell [0, 1, 2]]"
  let ?g = "[ArrayCell [3, 1, 2], ObjectCell [(''x'', Num 2), (''y'', Null)],
      ObjectCell [(''x'', Num 1), (''y'', Num 2)],
      ObjectCell [(''x'', Num 3), (''y'', Num 1)]]"
  note t = getDataSegments_deterministic_stable [where ascending = ascendingKey
      and v = "(0, 1)" and D = ?D and h = ?h and dataset = 3 and h' = ?g and dataset' = 0]
  have v: "\<forall>r \<in> set (arrayAt ?h 3). r < length ?h" "\<forall>r \<in> set (arrayAt ?g 0). r < length ?g"
    by (simp_all add: arrayAt_def)
  have d: "datasetAt ?h 3 = datasetAt ?g 0"
    by (simp add: datasetAt_def arrayAt_def objectAt_def)
  have f: "filter (\<lambda>d. ascendingKey (get d ''x'') = (0, 1)) (filter (\<lambda>d. \<not> isGap d) ?D) =
     [[(''x'', Num 1), (''y'', Num 1), (''label'', Str ''a'')],
      [(''x'', Num 1), (''y'', Num 2), (''label'', Str ''b'')]]"
    by (simp add: isGap_def get_def)
  have p: "getDataSegments ascendingKey (datasetAt ?h 3) =
     [[[(''x'', Num 1), (''y'', Num 2)]], [[(''x'', Num 3), (''y'', Num 1)]]]"
    by code_simp
  from t f have c1: "filter (\<lambda>d. ascendingKey (get d ''x'') = (0, 1))
      (concat (getDataSegments ascendingKey ?D)) =
     [[(''x'', Num 1), (''y'', Num 1), (''label'', Str ''a'')],
      [(''x'', Num 1), (''y'', Num 2), (''label'', Str ''b'')]]"
    by simp
  from t v(1) p have c2: "segmentsAt (snd (getDataSegments_store ascendingKey ?h 3))
       (fst (getDataSegments_store ascendingKey ?h 3)) =
     [[[(''x'', Num 1), (''y'', Num 2)]], [[(''x'', Num 3), (''y'', Num 1)]]]"
    by simp
  from t v d have c3: "segmentsAt (snd (getDataSegments_store ascendingKey ?h 3))
       (fst (getDataSegments_store ascendingKey ?h 3)) =
     segmentsAt (snd (getDataSegments_store ascendingKey ?g 0))
       (fst (getDataSegments_store ascendingKey ?g 0))"
    by blast
  from c1 c2 c3 show ?thesis by blast
qed

section \<open>Properties of the render pass on a store\<close>

lemma newObject_eq: "newObject h literal = (length h, h @ [ObjectCell literal])"
  by (simp add: newObject_def alloc_def)

lemma objectAt_new: "objectAt (h @ ObjectCell obj # cells) (length h) = obj"
  by (simp add: objectAt_def)

lemma objectAt_update_same: "a < length h \<Longrightarrow> objectAt (h[a := ObjectCell obj]) a = obj"
  by (simp add: objectAt_def)

lemma objectAt_update_other: "b \<noteq> a \<Longrightarrow> objectAt (h[a := c]) b = objectAt h b"
  by (simp add: objectAt_def)

lemma sourceAt_update_other: "source \<noteq> Some a \<Longrightarrow> sourceAt (h[a := c]) source = sourceAt h source"
  by (cases source) (simp_all add: sourceAt_def objectAt_update_other)

lemma merge_store_fold:
  assumes "a < length h" "h ! a = ObjectCell obj" "Some a \<notin> set sources"
  shows "fold (\<lambda>source h. h[a := ObjectCell (f (objectAt h a) (sourceAt h source))]) sources h =
         h[a := ObjectCell (fold (\<lambda>source obj. f obj source) (map (sourceAt h) sources) obj)]"
  using assms
proof (induction sources arbitrary: h obj)
  case Nil
  from Nil(2) have "h[a := ObjectCell obj] = h"
    by (metis list_update_id)
  then show ?case by simp
next
  case (Cons s sources)
  let ?o = "f obj (sourceAt h s)"
  let ?h = "h[a := ObjectCell ?o]"
  from Cons.prems have l: "a < length ?h" and n: "Some a \<notin> set sources" and s: "s \<noteq> Some a"
    and c: "?h ! a = ObjectCell ?o" and o: "objectAt h a = obj"
    by (auto simp: objectAt_def)
  have "sourceAt ?h x = sourceAt h x" if "x \<in> set sources" for x
    using that n by (intro sourceAt_update_other) auto
  then have m: "map (sourceAt ?h) sources = map (sourceAt h) sources"
    by simp
  show ?case
    using Cons.IH [OF l c n]
    by (simp add: m o)
qed

lemma assign_store_eq:
  assumes "a < length h" "h ! a = ObjectCell obj" "Some a \<notin> set sources"
  shows "assign_store (a, h) sources =
           (a, h[a := ObjectCell (assign obj (map (sourceAt h) sources))])"
  using merge_store_fold [OF assms, of assignOne]
  by (simp add: assign_store_def assign_def)

lemma defaults_store_eq:
  assumes "a < length h" "h ! a = ObjectCell obj" "Some a \<notin> set sources"
  shows "defaults_store (a, h) sources =
           (a, h[a := ObjectCell (defaults obj (map (sourceAt h) sources))])"
  using merge_store_fold [OF assms, of defaultsOne]
  by (simp add: defaults_store_def defaults_def)

lemma sourceAt_append: "validSource h source \<Longrightarrow> sourceAt (h @ cells) source = sourceAt h source"
  by (cases source) (simp_all add: sourceAt_def validSource_def objectAt_append)

lemma assign_new:
  assumes "\<forall>source \<in> set sources. validSource h source"
  shows "assign_store (newObject h literal) sources =
           (length h, h @ [ObjectCell (assign literal (map (sourceAt h) sources))])"
proof -
  have n: "Some (length h) \<notin> set sources"
    using assms by (auto simp: validSource_def)
  have m: "map (sourceAt (h @ [ObjectCell literal])) sources = map (sourceAt h) sources"
    using assms by (simp add: sourceAt_append)
  show ?thesis
    unfolding newObject_eq
    using assign_store_eq [of "length h" "h @ [ObjectCell literal]" literal sources] n
    by (simp add: m)
qed

lemma defaults_new:
  assumes "\<forall>source \<in> set sources. validSource h source"
  shows "defaults_store (newObject h literal) sources =
           (length h, h @ [ObjectCell (defaults literal (map (sourceAt h) sources))])"
proof -
  have n: "Some (length h) \<notin> set sources"
    using assms by (auto simp: validSource_def)
  have m: "map (sourceAt (h @ [ObjectCell literal])) sources = map (sourceAt h) sources"
    using assms by (simp add: sourceAt_append)
  show ?thesis
    unfolding newObject_eq
    using defaults_store_eq [of "length h" "h @ [ObjectCell literal]" literal sources] n
    by (simp add: m)
qed


lemma validRefs_iff:
  "validRefs h entries \<longleftrightarrow> (\<forall>object \<in> snd ` set entries. object < length h)"
  by (simp add: validRefs_def list_all_iff)

lemma validRefs_map_of: "validRefs h entries \<Longrightarrow> validSource h (map_of entries k)"
  by (auto simp: validRefs_iff validSource_def dest!: map_of_SomeD split: option.splits)

lemma validRefs_append: "validRefs h entries \<Longrightarrow> validRefs (h @ cells) entries"
  by (auto simp: validRefs_iff)

lemma validSource_append: "validSource h source \<Longrightarrow> validSource (h @ cells) source"
  by (auto simp: validSource_def split: option.splits)

lemma validSource_Some: "validSource h (Some a) \<longleftrightarrow> a < length h"
  by (simp add: validSource_def)

lemma objectsAt_append:
  "validRefs h entries \<Longrightarrow> objectsAt (h @ cells) entries = objectsAt h entries"
  by (auto simp: validRefs_iff objectsAt_def objectAt_append)

lemma map_of_objectsAt:
  "map_of (objectsAt h entries) k = map_option (\<lambda>object. Obj (objectAt h object)) (map_of entries k)"
  by (induction entries) (auto simp: objectsAt_def)

lemma get_objectsAt: "get (objectsAt h entries) k = sourceAt h (map_of entries k)"
  by (simp add: get_def map_of_objectsAt sourceAt_def split: option.splits)

lemma stateAt_objectsAt: "stateAt (objectsAt h entries) index = sourceAt h (map_of entries index)"
  by (simp add: stateAt_def map_of_objectsAt sourceAt_def split: option.splits)

lemma inStore_iff:
  "inStore h this \<longleftrightarrow>
     validRefs h (style_at this) \<and> validRefs h (defaultStyles_at this)
     \<and> validRefs h (dataState_at this) \<and> validRefs h (markersState_at this)
     \<and> validRefs h (labelsState_at this)
     \<and> markerComponent_props_at this < length h \<and> labelComponent_props_at this < length h
     \<and> objectsAt h (defaultStyles_at this) = defaultStyles"
  by (auto simp: inStore_def validRefs_iff list_all_iff)

lemma inStore_valid:
  assumes "inStore h this"
  shows "validRefs h (style_at this)" "validRefs h (defaultStyles_at this)"
    "validRefs h (dataState_at this)" "validRefs h (markersState_at this)"
    "validRefs h (labelsState_at this)"
    "markerComponent_props_at this < length h" "labelComponent_props_at this < length h"
    "objectsAt h (defaultStyles_at this) = defaultStyles"
  using assms by (simp_all add: inStore_iff)

lemma inStore_append:
  assumes "inStore h this"
  shows "inStore (h @ cells) this"
  using inStore_valid [OF assms]
  by (simp add: inStore_iff validRefs_append objectsAt_append)

lemma propsAt_append: "inStore h this \<Longrightarrow> propsAt (h @ cells) this = propsAt h this"
  by (simp add: propsAt_def inStore_valid objectsAt_append objectAt_append)

lemma stateOf_append: "inStore h this \<Longrightarrow> stateOf (h @ cells) this = stateOf h this"
  by (simp add: stateOf_def inStore_valid objectsAt_append)

lemma extends_append: "extends h h' \<longleftrightarrow> (\<exists>cells. h' = h @ cells)"
proof
  assume "extends h h'"
  then have "h' = h @ drop (length h) h'"
    unfolding extends_def by (metis append_take_drop_id)
  then show "\<exists>cells. h' = h @ cells" ..
next
  assume "\<exists>cells. h' = h @ cells"
  then show "extends h h'" by (auto simp: extends_def)
qed

lemma getLabelStyle_store_spec:
  assumes "validRefs h style"
  shows "\<exists>cells. getLabelStyle_store env style datum h =
                   (getLabelStyle env (objectsAt h style) datum, h @ cells)"
proof (cases "getProp (sourceAt h (map_of style ''line'')) ''stroke''")
  case (Inl e)
  then have "getLabelStyle_store env style datum h =
               (getLabelStyle env (objectsAt h style) datum, h @ [])"
    by (simp add: getLabelStyle_store_def getLabelStyle_def thenDo_store_def thenDo_def
        get_objectsAt)
  then show ?thesis ..
next
  case fill: (Inr fill)
  show ?thesis
  proof (cases "getProp (sourceAt h (map_of style ''labels'')) ''padding''")
    case (Inl e)
    with fill have "getLabelStyle_store env style datum h =
               (getLabelStyle env (objectsAt h style) datum, h @ [])"
      by (simp add: getLabelStyle_store_def getLabelStyle_def thenDo_store_def thenDo_def
          get_objectsAt)
    then show ?thesis ..
  next
    case p: (Inr p)
    let ?literal = "[(''fill'', fill), (''padding'', js_or p (Num 0))]"
    let ?h2 = "h @ [ObjectCell [], ObjectCell ?literal]"
    let ?sources = "[map_of style ''labels'', Some (Suc (length h))]"
    have v: "validSource h (map_of style ''labels'')"
      using assms by (rule validRefs_map_of)
    then have n: "Some (length h) \<notin> set ?sources"
      by (cases "map_of style ''labels''") (auto simp: validSource_def)
    have s: "map (sourceAt ?h2) ?sources = [sourceAt h (map_of style ''labels''), Obj ?literal]"
      using v by (simp add: sourceAt_append) (simp add: sourceAt_def objectAt_def nth_append)
    have d: "defaults_store (length h, ?h2) ?sources =
               (length h, h @ [ObjectCell (defaults [] [sourceAt h (map_of style ''labels''),
                                                        Obj ?literal]),
                               ObjectCell ?literal])"
      using defaults_store_eq [of "length h" ?h2 "[]" ?sources] n
      unfolding s by simp
    have "getLabelStyle_store env style datum h =
               (getLabelStyle env (objectsAt h style) datum,
                h @ [ObjectCell (defaults [] [sourceAt h (map_of style ''labels''), Obj ?literal]),
                     ObjectCell ?literal])"
      using fill p
      by (simp add: getLabelStyle_store_def getLabelStyle_def thenDo_store_def thenDo_def
          get_objectsAt newObject_eq d Let_def objectAt_new)
    then show ?thesis ..
  qed
qed


lemma markerCloneProps_store_spec:
  assumes i: "inStore h this" and v: "validRefs h style"
    and s: "shared < length h" "objectAt h shared = sharedProps env scale (objectAt h datum) index"
  shows "\<exists>cells r.
           markerCloneProps_store env this style shared datum index h = (r, h @ cells)
           \<and> ((\<forall>e. r = Inl e \<longrightarrow>
                   markerCloneProps env (propsAt h this) (stateOf h this) scale (objectsAt h style) (objectAt h datum) index = Inl e)
              \<and> (\<forall>object. r = Inr object \<longrightarrow>
                   markerCloneProps env (propsAt h this) (stateOf h this) scale (objectsAt h style) (objectAt h datum) index
                   = Inr (objectAt (h @ cells) object)))"
proof (cases "evaluateStyle env (sourceAt h (map_of style ''markers'')) (Obj (objectAt h datum))")
  case (Inl e)
  then have "markerCloneProps_store env this style shared datum index h = (Inl e, h @ [])"
    and "markerCloneProps env (propsAt h this) (stateOf h this) scale
                     (objectsAt h style) (objectAt h datum) index = Inl e"
    by (simp_all add: markerCloneProps_store_def markerProps_store_def thenDo_store_def
        markerCloneProps_def markerProps_def thenDo_def get_objectsAt)
  then show ?thesis by (intro exI [of _ "[]"] exI [of _ "Inl e"]) simp
next
  case (Inr markerStyle)
  note iv = inStore_valid [OF i]
  let ?sources = "[Some shared, Some (markerComponent_props_at this),
                   map_of (markersState_at this) index]"
  let ?mProps = "assign [(''key'', keyOf ''marker-'' index), (''style'', markerStyle)]
                   [sourceAt h (Some shared), sourceAt h (Some (markerComponent_props_at this)),
                    sourceAt h (map_of (markersState_at this) index)]"
  let ?h1 = "h @ [ObjectCell ?mProps]"
  let ?events = "getPartialEvents env
                   (getEvents env (get (props_events (propsAt h this)) ''markers'') ''markers'')
                   index ?mProps"
  let ?clone = "assign [(''events'', ?events)] [Obj ?mProps]"
  have vs: "\<forall>source \<in> set ?sources. validSource h source"
    using s(1) iv(6) validRefs_map_of [OF iv(4)] by (simp add: validSource_Some)
  have m: "markerProps_store env this style shared datum index h = (Inr (length h), ?h1)"
    using Inr by (simp add: markerProps_store_def thenDo_store_def assign_new [OF vs])
  have "\<forall>source \<in> set [Some (length h)]. validSource ?h1 source"
    by (simp add: validSource_Some)
  from assign_new [OF this]
  have c: "assign_store (newObject ?h1 [(''events'', ?events)]) [Some (length h)] =
             (Suc (length h), ?h1 @ [ObjectCell ?clone])"
    by (simp add: sourceAt_def objectAt_new)
  have st: "markerCloneProps_store env this style shared datum index h =
              (Inr (Suc (length h)), h @ [ObjectCell ?mProps, ObjectCell ?clone])"
    by (simp add: markerCloneProps_store_def m thenDo_store_def Let_def objectAt_new
        propsAt_append [OF i] c)
  have srcs: "[sourceAt h (Some shared), sourceAt h (Some (markerComponent_props_at this)),
                    sourceAt h (map_of (markersState_at this) index)] =
          [Obj (sharedProps env scale (objectAt h datum) index),
           Obj (component_props (props_markerComponent (propsAt h this))),
           stateAt (markersState (stateOf h this)) index]"
    by (simp add: sourceAt_def s(2) propsAt_def stateOf_def stateAt_objectsAt)
  have pure: "markerCloneProps env (propsAt h this) (stateOf h this) scale
                     (objectsAt h style) (objectAt h datum) index = Inr ?clone"
    using Inr unfolding srcs
    by (simp add: markerCloneProps_def markerProps_def thenDo_def get_objectsAt Let_def)
  have "objectAt (h @ [ObjectCell ?mProps, ObjectCell ?clone]) (Suc (length h)) = ?clone"
    by (simp add: objectAt_def nth_append)
  with st pure show ?thesis
    by (intro exI [of _ "[ObjectCell ?mProps, ObjectCell ?clone]"]
              exI [of _ "Inr (Suc (length h))"]) simp
qed


lemma labelCloneProps_store_spec:
  assumes i: "inStore h this"
    and s: "shared < length h" "objectAt h shared = sharedProps env scale datum index"
  shows "\<exists>cells r.
           labelCloneProps_store env this labelStyle labelText shared index h = (r, h @ cells)
           \<and> ((\<forall>e. r = Inl e \<longrightarrow>
                   labelCloneProps env (propsAt h this) (stateOf h this) scale labelStyle labelText datum index = Inl e)
              \<and> (\<forall>object. r = Inr object \<longrightarrow>
                   labelCloneProps env (propsAt h this) (stateOf h this) scale labelStyle labelText datum index
                   = Inr (objectAt (h @ cells) object)))"
proof -
  have failure: ?thesis
    if "getProp labelStyle ''padding'' = Inl e \<or> getProp labelStyle ''textAnchor'' = Inl e
        \<or> getProp labelStyle ''verticalAnchor'' = Inl e" for e
  proof -
    from that have u: "labelStyle = Undefined \<or> labelStyle = Null"
      by (cases labelStyle) auto
    then have "labelCloneProps_store env this labelStyle labelText shared index h
                 = (Inl TypeError, h @ [])"
      and "labelCloneProps env (propsAt h this) (stateOf h this) scale labelStyle
                     labelText datum index = Inl TypeError"
      by (auto simp: labelCloneProps_store_def labelProps_store_def thenDo_store_def
          labelCloneProps_def labelProps_def thenDo_def)
    then show ?thesis by (intro exI [of _ "[]"] exI [of _ "Inl TypeError"]) simp
  qed
  have success: ?thesis
    if g: "getProp labelStyle ''padding'' = Inr dy" "getProp labelStyle ''textAnchor'' = Inr ta"
        "getProp labelStyle ''verticalAnchor'' = Inr va" for dy ta va
  proof -
    note iv = inStore_valid [OF i]
    let ?sources = "[Some (labelComponent_props_at this), Some shared,
                     map_of (labelsState_at this) index]"
    let ?lProps = "assign
                     [(''key'', keyOf ''label-'' index),
                      (''dy'', dy),
                      (''textAnchor'', ta),
                      (''verticalAnchor'', js_or va (Str ''end'')),
                      (''style'', labelStyle),
                      (''text'', labelText)]
                     [sourceAt h (Some (labelComponent_props_at this)), sourceAt h (Some shared),
                      sourceAt h (map_of (labelsState_at this) index)]"
    let ?h1 = "h @ [ObjectCell ?lProps]"
    let ?events = "getPartialEvents env
                     (getEvents env (get (props_events (propsAt h this)) ''labels'') ''labels'')
                     index ?lProps"
    let ?h2 = "h @ [ObjectCell ?lProps, ObjectCell [(''events'', ?events)]]"
    let ?clone = "assign ?lProps [Obj [(''events'', ?events)]]"
    have vs: "\<forall>source \<in> set ?sources. validSource h source"
      using s(1) iv(7) validRefs_map_of [OF iv(5)] by (simp add: validSource_Some)
    have l: "labelProps_store env this labelStyle labelText shared index h
               = (Inr (length h), ?h1)"
      using g by (simp add: labelProps_store_def thenDo_store_def assign_new [OF vs])
    have "assign_store (length h, ?h2) [Some (Suc (length h))] =
            (length h, ?h2[length h := ObjectCell
               (assign ?lProps (map (sourceAt ?h2) [Some (Suc (length h))]))])"
      by (rule assign_store_eq) simp_all
    then have c: "assign_store (length h, ?h2) [Some (Suc (length h))] =
            (length h, h @ [ObjectCell ?clone, ObjectCell [(''events'', ?events)]])"
      by (simp add: sourceAt_def objectAt_def nth_append)
    have st: "labelCloneProps_store env this labelStyle labelText shared index h =
              (Inr (length h), h @ [ObjectCell ?clone, ObjectCell [(''events'', ?events)]])"
      by (simp add: labelCloneProps_store_def l thenDo_store_def Let_def objectAt_new
          propsAt_append [OF i] newObject_eq c)
    have srcs: "[sourceAt h (Some (labelComponent_props_at this)), sourceAt h (Some shared),
                 sourceAt h (map_of (labelsState_at this) index)] =
          [Obj (component_props (props_labelComponent (propsAt h this))),
           Obj (sharedProps env scale datum index),
           stateAt (labelsState (stateOf h this)) index]"
      by (simp add: sourceAt_def s(2) propsAt_def stateOf_def stateAt_objectsAt)
    have pure: "labelCloneProps env (propsAt h this) (stateOf h this) scale labelStyle
                     labelText datum index = Inr ?clone"
      using g unfolding srcs
      by (simp add: labelCloneProps_def labelProps_def thenDo_def Let_def)
    have "objectAt (h @ [ObjectCell ?clone, ObjectCell [(''events'', ?events)]]) (length h)
            = ?clone"
      by (simp add: objectAt_new)
    with st pure show ?thesis
      by (intro exI [of _ "[ObjectCell ?clone, ObjectCell [(''events'', ?events)]]"]
                exI [of _ "Inr (length h)"]) simp
  qed
  show ?thesis
  proof (cases "getProp labelStyle ''padding''")
    case (Inl e)
    then show ?thesis using failure by blast
  next
    case dy: (Inr dy)
    show ?thesis
    proof (cases "getProp labelStyle ''textAnchor''")
      case (Inl e)
      then show ?thesis using failure by blast
    next
      case ta: (Inr ta)
      show ?thesis
      proof (cases "getProp labelStyle ''verticalAnchor''")
        case (Inl e)
        then show ?thesis using failure by blast
      next
        case (Inr va)
        with dy ta show ?thesis by (rule success)
      qed
    qed
  qed
qed


lemma renderMarkerAndLabel_store_spec:
  assumes i: "inStore h this" and v: "validRefs h style" and d: "datum < length h"
  shows "\<exists>cells. renderMarkerAndLabel_store env this scale style datum index h =
           (renderMarkerAndLabel env (propsAt h this) (stateOf h this) scale (objectsAt h style)
              (objectAt h datum) index, h @ cells)"
proof (cases "isGap (objectAt h datum)")
  case True
  then have "renderMarkerAndLabel_store env this scale style datum index h =
           (renderMarkerAndLabel env (propsAt h this) (stateOf h this) scale (objectsAt h style)
              (objectAt h datum) index, h @ [])"
    by (simp add: renderMarkerAndLabel_store_def renderMarkerAndLabel_def)
  then show ?thesis ..
next
  case False
  let ?props = "propsAt h this"
  let ?state = "stateOf h this"
  let ?style = "objectsAt h style"
  let ?datum = "objectAt h datum"
  let ?shared = "sharedProps env scale ?datum index"
  let ?h1 = "h @ [ObjectCell ?shared]"
  note at = propsAt_append [OF i] stateOf_append [OF i] objectsAt_append [OF v]
    objectAt_append [OF d]
  have s1: "length h < length ?h1" "objectAt ?h1 (length h) = sharedProps env scale (objectAt ?h1 datum) index"
    by (simp_all add: objectAt_new at)
  from markerCloneProps_store_spec [OF inStore_append [OF i] validRefs_append [OF v] s1]
  obtain cells r where
    m: "markerCloneProps_store env this style (length h) datum index ?h1
          = (r, h @ (ObjectCell ?shared # cells))"
    and mr: "(\<forall>e. r = Inl e \<longrightarrow>
                   markerCloneProps env ?props ?state scale ?style ?datum index = Inl e)
              \<and> (\<forall>object. r = Inr object \<longrightarrow>
                   markerCloneProps env ?props ?state scale ?style ?datum index
                   = Inr (objectAt (h @ (ObjectCell ?shared # cells)) object))"
    unfolding at by auto
  let ?h2 = "h @ (ObjectCell ?shared # cells)"
  let ?text = "getLabelText env ?props ?datum index"
  show ?thesis
  proof (cases r)
    case (Inl e)
    with m mr False have "renderMarkerAndLabel_store env this scale style datum index h =
           (renderMarkerAndLabel env ?props ?state scale ?style ?datum index,
            h @ (ObjectCell ?shared # cells))"
      by (simp add: renderMarkerAndLabel_store_def renderMarkerAndLabel_def newObject_eq
          thenDo_store_def thenDo_def)
    then show ?thesis ..
  next
    case (Inr mProps)
    with mr have pm: "markerCloneProps env ?props ?state scale ?style ?datum index
                   = Inr (objectAt ?h2 mProps)"
      by simp
    show ?thesis
    proof (cases "truthy ?text \<or> props_labels ?props = Bool True")
      case no: False
      with m Inr pm False have "renderMarkerAndLabel_store env this scale style datum index h =
           (renderMarkerAndLabel env ?props ?state scale ?style ?datum index,
            h @ (ObjectCell ?shared # cells))"
        by (simp add: renderMarkerAndLabel_store_def renderMarkerAndLabel_def newObject_eq
            thenDo_store_def thenDo_def Let_def at)
      then show ?thesis ..
    next
      case yes: True
      have "validRefs ?h2 style"
        using v by (rule validRefs_append)
      from getLabelStyle_store_spec [OF this, where env = env and datum = "Obj ?datum"]
      obtain cells' where
        g: "getLabelStyle_store env style (Obj ?datum) ?h2 =
              (getLabelStyle env ?style (Obj ?datum), h @ (ObjectCell ?shared # cells @ cells'))"
        unfolding at by auto
      let ?h3 = "h @ (ObjectCell ?shared # cells @ cells')"
      show ?thesis
      proof (cases "getLabelStyle env ?style (Obj ?datum)")
        case (Inl e)
        with m Inr pm False yes g
        have "renderMarkerAndLabel_store env this scale style datum index h =
           (renderMarkerAndLabel env ?props ?state scale ?style ?datum index,
            h @ (ObjectCell ?shared # cells @ cells'))"
          by (simp add: renderMarkerAndLabel_store_def renderMarkerAndLabel_def newObject_eq
              thenDo_store_def thenDo_def Let_def at)
        then show ?thesis ..
      next
        case ls: (Inr labelStyle)
        have s3: "length h < length ?h3"
          "objectAt ?h3 (length h) = sharedProps env scale ?datum index"
          by (simp_all add: objectAt_new)
        have "inStore ?h3 this"
          using i by (rule inStore_append)
        from labelCloneProps_store_spec [OF this s3, where labelStyle = labelStyle
            and labelText = ?text]
        obtain cells'' r' where
          l: "labelCloneProps_store env this labelStyle ?text (length h) index ?h3
                = (r', h @ (ObjectCell ?shared # cells @ cells' @ cells''))"
          and lr: "(\<forall>e. r' = Inl e \<longrightarrow>
                   labelCloneProps env ?props ?state scale labelStyle ?text ?datum index = Inl e)
              \<and> (\<forall>object. r' = Inr object \<longrightarrow>
                   labelCloneProps env ?props ?state scale labelStyle ?text ?datum index
                   = Inr (objectAt (h @ (ObjectCell ?shared # cells @ cells' @ cells'')) object))"
          unfolding at by auto
        from m Inr pm False yes g ls l lr
        have "renderMarkerAndLabel_store env this scale style datum index h =
           (renderMarkerAndLabel env ?props ?state scale ?style ?datum index,
            h @ (ObjectCell ?shared # cells @ cells' @ cells''))"
          by (cases r')
             (simp_all add: renderMarkerAndLabel_store_def renderMarkerAndLabel_def newObject_eq
              thenDo_store_def thenDo_def Let_def at)
        then show ?thesis ..
      qed
    qed
  qed
qed


lemma mapE_store_spec:
  assumes "\<And>x cells. x \<in> set xs \<Longrightarrow> \<exists>cells'. f x (h @ cells) = (g x, h @ cells @ cells')"
  shows "\<exists>cells'. mapE_store f xs (h @ cells) = (mapE g xs, h @ cells @ cells')"
  using assms
proof (induction xs arbitrary: cells)
  case Nil
  have "mapE_store f [] (h @ cells) = (mapE g [], h @ cells @ [])" by simp
  then show ?case ..
next
  case (Cons x xs)
  from Cons.prems [of x cells] obtain c1 where
    x: "f x (h @ cells) = (g x, h @ cells @ c1)" by auto
  show ?case
  proof (cases "g x")
    case (Inl e)
    with x have "mapE_store f (x # xs) (h @ cells) = (mapE g (x # xs), h @ cells @ c1)"
      by (simp add: thenDo_store_def thenDo_def)
    then show ?thesis ..
  next
    case (Inr y)
    from Cons.IH [of "cells @ c1"] Cons.prems obtain c2 where
      xs: "mapE_store f xs (h @ cells @ c1) = (mapE g xs, h @ (cells @ c1) @ c2)"
      by auto
    from x Inr xs have "mapE_store f (x # xs) (h @ cells) = (mapE g (x # xs), h @ cells @ c1 @ c2)"
      by (cases "mapE g xs") (simp_all add: thenDo_store_def thenDo_def)
    then show ?thesis ..
  qed
qed

lemma mapE_map: "mapE f (map k xs) = mapE (\<lambda>x. f (k x)) xs"
  by (induction xs) simp_all

lemma enumerate_map: "enumerate n (map k xs) = map (\<lambda>(i, x). (i, k x)) (enumerate n xs)"
  by (induction xs arbitrary: n) simp_all

lemma renderMarkersAndLabels_store_spec:
  assumes i: "inStore h this" and v: "validRefs h style"
    and d: "\<forall>datum \<in> set (arrayAt h dataset). datum < length h"
  shows "\<exists>cells. renderMarkersAndLabels_store env this dataset scale style h =
           (renderMarkersAndLabels env (propsAt h this) (stateOf h this) (datasetAt h dataset)
              scale (objectsAt h style), h @ cells)"
proof -
  let ?f = "\<lambda>(index, datum). renderMarkerAndLabel_store env this scale style datum index"
  let ?g = "\<lambda>(index, datum). renderMarkerAndLabel env (propsAt h this) (stateOf h this) scale
              (objectsAt h style) (objectAt h datum) index"
  have step: "\<exists>cells'. ?f x (h @ cells) = (?g x, h @ cells @ cells')"
    if "x \<in> set (enumerate 0 (arrayAt h dataset))" for x cells
  proof -
    obtain index datum where x: "x = (index, datum)" by (cases x)
    with that d have l: "datum < length h"
      by (auto simp: in_set_enumerate_eq)
    then have "datum < length (h @ cells)" by simp
    from renderMarkerAndLabel_store_spec [OF inStore_append [OF i] validRefs_append [OF v] this,
        where env = env and scale = scale and index = index]
    show ?thesis
      unfolding x
      by (simp add: propsAt_append [OF i] stateOf_append [OF i] objectsAt_append [OF v]
          objectAt_append [OF l])
  qed
  from mapE_store_spec [of "enumerate 0 (arrayAt h dataset)" ?f h ?g "[]", OF step]
  obtain cells where
    "mapE_store ?f (enumerate 0 (arrayAt h dataset)) h =
       (mapE ?g (enumerate 0 (arrayAt h dataset)), h @ cells)"
    by auto
  moreover have "renderMarkersAndLabels env (propsAt h this) (stateOf h this)
                   (datasetAt h dataset) scale (objectsAt h style) =
                 mapE ?g (enumerate 0 (arrayAt h dataset))"
    by (simp add: renderMarkersAndLabels_def mapIndexed_def datasetAt_def enumerate_map mapE_map
        case_prod_unfold)
  ultimately show ?thesis
    by (simp add: renderMarkersAndLabels_store_def)
qed

lemma renderSeriesLabel_store_spec:
  assumes i: "inStore h this" and v: "validRefs h style"
  shows "\<exists>cells. renderSeriesLabel_store env this dataset dataSegments scale style h =
           (renderSeriesLabel env (propsAt h this) (datasetAt h dataset)
              (segmentsAt h dataSegments) scale (objectsAt h style), h @ cells)"
proof -
  let ?props = "propsAt h this"
  let ?segments = "segmentsAt h dataSegments"
  let ?lastSegment = "if ?segments = [] then Undefined else Arr (map Obj (last ?segments))"
  let ?lastPoint = "case ?lastSegment of
                      Arr points \<Rightarrow> (if points = [] then Undefined else last points)
                    | v \<Rightarrow> v"
  from getLabelStyle_store_spec [OF v, of env Undefined] obtain cells where
    g: "getLabelStyle_store env style Undefined h =
          (getLabelStyle env (objectsAt h style) Undefined, h @ cells)"
    by auto
  have n: "\<not> truthy (props_seriesLabel ?props) \<or> (\<exists>e. getProp ?lastPoint ''x'' = Inl e)
           \<or> (\<exists>e. getProp ?lastPoint ''y'' = Inl e) \<Longrightarrow>
           renderSeriesLabel_store env this dataset dataSegments scale style h =
           (renderSeriesLabel env ?props (datasetAt h dataset) ?segments scale
              (objectsAt h style), h @ [])"
    by (cases "getProp ?lastPoint ''x''")
       (auto simp: renderSeriesLabel_store_def renderSeriesLabel_def Let_def thenDo_store_def
          thenDo_def)
  have y: "truthy (props_seriesLabel ?props) \<Longrightarrow> getProp ?lastPoint ''x'' = Inr px \<Longrightarrow>
           getProp ?lastPoint ''y'' = Inr py \<Longrightarrow>
           renderSeriesLabel_store env this dataset dataSegments scale style h =
           (renderSeriesLabel env ?props (datasetAt h dataset) ?segments scale
              (objectsAt h style), h @ cells)" for px py
    using g
    by (cases "getLabelStyle env (objectsAt h style) Undefined")
       (simp_all add: renderSeriesLabel_store_def renderSeriesLabel_def Let_def thenDo_store_def
          thenDo_def propsAt_append [OF i])
  show ?thesis
  proof (cases "truthy (props_seriesLabel ?props)")
    case False
    with n show ?thesis by blast
  next
    case True
    show ?thesis
    proof (cases "getProp ?lastPoint ''x''")
      case (Inl e)
      with n show ?thesis by blast
    next
      case px: (Inr px)
      show ?thesis
      proof (cases "getProp ?lastPoint ''y''")
        case (Inl e)
        with n show ?thesis by blast
      next
        case (Inr py)
        with True px y show ?thesis by blast
      qed
    qed
  qed
qed


lemma defaults_new_later:
  assumes "\<forall>source \<in> set sources. validSource h source"
  shows "defaults_store (newObject (h @ cells) literal) sources =
           (length h + length cells,
            h @ cells @ [ObjectCell (defaults literal (map (sourceAt h) sources))])"
proof -
  from assms have v: "\<forall>source \<in> set sources. validSource (h @ cells) source"
    by (simp add: validSource_append)
  have "map (sourceAt (h @ cells)) sources = map (sourceAt h) sources"
    using assms by (simp add: sourceAt_append)
  with defaults_new [OF v, of literal] show ?thesis by simp
qed

lemma getStyles_store_spec:
  assumes i: "inStore h this"
  shows "\<exists>cells style. getStyles_store this h = (style, h @ cells)
           \<and> validRefs (h @ cells) style
           \<and> objectsAt (h @ cells) style = getStyles (propsAt h this)"
proof -
  note iv = inStore_valid [OF i]
  let ?style = "style_at this" and ?defaults = "defaultStyles_at this"
  let ?parent = "defaults [(''width'', Str ''100%''), (''height'', Str ''auto'')]
                   [sourceAt h (map_of ?style ''parent''), sourceAt h (map_of ?defaults ''parent'')]"
  let ?data = "defaults [] [sourceAt h (map_of ?style ''data''), sourceAt h (map_of ?defaults ''data'')]"
  let ?labels = "defaults []
                   [sourceAt h (map_of ?style ''labels''), sourceAt h (map_of ?defaults ''labels'')]"
  let ?line = "defaults [] [sourceAt h (map_of ?style ''line''), sourceAt h (map_of ?defaults ''line'')]"
  let ?refs = "[(''parent'', length h), (''data'', Suc (length h)),
                (''labels'', Suc (Suc (length h))), (''line'', Suc (Suc (Suc (length h))))]"
  let ?cells = "[ObjectCell ?parent, ObjectCell ?data, ObjectCell ?labels, ObjectCell ?line]"
  have vs: "\<forall>source \<in> set [map_of ?style k, map_of ?defaults k]. validSource h source" for k
    using validRefs_map_of [OF iv(1)] validRefs_map_of [OF iv(2)] by simp
  have s: "getStyles_store this h = (?refs, h @ ?cells)"
    unfolding getStyles_store_def Let_def
    using defaults_new_later [OF vs, where cells = "[]"]
      defaults_new_later [OF vs, where cells = "[ObjectCell ?parent]"]
      defaults_new_later [OF vs, where cells = "[ObjectCell ?parent, ObjectCell ?data]"]
      defaults_new_later [OF vs,
        where cells = "[ObjectCell ?parent, ObjectCell ?data, ObjectCell ?labels]"]
    by simp
  have v: "validRefs (h @ ?cells) ?refs"
    by (simp add: validRefs_iff)
  have o: "objectsAt (h @ ?cells) ?refs =
             [(''parent'', Obj ?parent), (''data'', Obj ?data), (''labels'', Obj ?labels),
              (''line'', Obj ?line)]"
    by (simp add: objectsAt_def objectAt_def nth_append)
  have g: "getStyles (propsAt h this) =
             [(''parent'', Obj ?parent), (''data'', Obj ?data), (''labels'', Obj ?labels),
              (''line'', Obj ?line)]"
    unfolding getStyles_def iv(8) [symmetric]
    by (simp add: propsAt_def js_or_def Let_def get_objectsAt)
  from s v o g show ?thesis by metis
qed


lemma datasetAt_append:
  assumes "dataset < length h" "\<forall>datum \<in> set (arrayAt h dataset). datum < length h"
  shows "datasetAt (h @ cells) dataset = datasetAt h dataset"
    and "arrayAt (h @ cells) dataset = arrayAt h dataset"
  using assms by (simp_all add: datasetAt_def arrayAt_append objectAt_append)

lemma renderData_store_spec:
  assumes i: "inStore h this" and v: "validRefs h style"
    and dv: "dataset < length h" "\<forall>datum \<in> set (arrayAt h dataset). datum < length h"
    and gd: "getData env (propsAt h this) = datasetAt h dataset"
  shows "\<exists>cells. renderData_store env this style dataset h =
           (renderData env (propsAt h this) (stateOf h this) (objectsAt h style), h @ cells)"
proof -
  let ?props = "propsAt h this"
  let ?state = "stateOf h this"
  let ?style = "objectsAt h style"
  let ?dataset = "datasetAt h dataset"
  let ?segments = "getDataSegments (sortOrder env) ?dataset"
  let ?scale = "[(''x'', getScale env ?props ''x''), (''y'', getScale env ?props ''y'')]"
  obtain r h1 where g: "getDataSegments_store (sortOrder env) h dataset = (r, h1)"
    by (cases "getDataSegments_store (sortOrder env) h dataset")
  from getDataSegments_store_extends [of h "sortOrder env" dataset] g
  obtain c0 where h1: "h1 = h @ c0"
    by (auto simp: extends_append)
  note g = g [unfolded h1]
  have seg: "segmentsAt (h @ c0 @ cells) r = ?segments" for cells
    using getDataSegments_store_refines_later [OF dv(2), of "sortOrder env" cells] g by simp
  from seg [of "[]"] have seg0: "segmentsAt (h @ c0) r = ?segments" by simp
  note at = propsAt_append [OF i] stateOf_append [OF i] objectsAt_append [OF v]
    datasetAt_append [OF dv]
  have "\<forall>datum \<in> set (arrayAt (h @ c0) dataset). datum < length (h @ c0)"
    using dv(2) by (auto simp: at)
  from renderMarkersAndLabels_store_spec [OF inStore_append [OF i] validRefs_append [OF v] this,
      where env = env and scale = ?scale]
  obtain c1 where
    m: "renderMarkersAndLabels_store env this dataset ?scale style (h @ c0) =
          (renderMarkersAndLabels env ?props ?state ?dataset ?scale ?style, h @ c0 @ c1)"
    unfolding at by auto
  have "inStore (h @ c0 @ c1) this" "validRefs (h @ c0 @ c1) style"
    using i v by (simp_all add: inStore_append validRefs_append)
  from renderSeriesLabel_store_spec [OF this, where env = env and scale = ?scale
      and dataset = dataset and dataSegments = r]
  obtain c2 where
    s: "renderSeriesLabel_store env this dataset r ?scale style (h @ c0 @ c1) =
          (renderSeriesLabel env ?props ?dataset ?segments ?scale ?style, h @ c0 @ c1 @ c2)"
    unfolding at seg by auto
  have p: "sourceAt (h @ c0) (map_of style ''parent'') = sourceAt h (map_of style ''parent'')"
    using validRefs_map_of [OF v] by (rule sourceAt_append)
  have "renderData_store env this style dataset h =
           (renderData env ?props ?state ?style,
            h @ c0 @ (case renderMarkersAndLabels env ?props ?state ?dataset ?scale ?style of
                        Inl e \<Rightarrow> c1 | Inr markers \<Rightarrow> c1 @ c2))"
    using m s
    by (cases "renderMarkersAndLabels env ?props ?state ?dataset ?scale ?style";
        cases "renderSeriesLabel env ?props ?dataset ?segments ?scale ?style")
       (simp_all add: renderData_store_def renderData_def g Let_def thenDo_store_def thenDo_def
          at seg0 gd get_objectsAt p)
  then show ?thesis by blast
qed

lemma render_store_spec:
  assumes i: "inStore h this"
    and dv: "dataset < length h" "\<forall>datum \<in> set (arrayAt h dataset). datum < length h"
    and gd: "getData env (propsAt h this) = datasetAt h dataset"
  shows "\<exists>cells. render_store env this dataset h =
           (render env (propsAt h this) (stateOf h this), h @ cells)"
proof (cases "truthy (props_animate (propsAt h this))")
  case True
  then have "render_store env this dataset h =
           (render env (propsAt h this) (stateOf h this), h @ [])"
    by (simp add: render_store_def render_def Let_def)
  then show ?thesis ..
next
  case False
  let ?props = "propsAt h this"
  let ?state = "stateOf h this"
  from getStyles_store_spec [OF i] obtain c0 style where
    g: "getStyles_store this h = (style, h @ c0)"
    and v: "validRefs (h @ c0) style"
    and o: "objectsAt (h @ c0) style = getStyles ?props"
    by blast
  note at = propsAt_append [OF i] stateOf_append [OF i] datasetAt_append [OF dv]
  have d: "dataset < length (h @ c0)"
    "\<forall>datum \<in> set (arrayAt (h @ c0) dataset). datum < length (h @ c0)"
    "getData env (propsAt (h @ c0) this) = datasetAt (h @ c0) dataset"
    using dv gd by (auto simp: at)
  from renderData_store_spec [OF inStore_append [OF i] v d]
  obtain c1 where
    r: "renderData_store env this style dataset (h @ c0) =
          (renderData env ?props ?state (getStyles ?props), h @ c0 @ c1)"
    unfolding at o by auto
  have p: "sourceAt (h @ c0 @ c1) (map_of style ''parent'') = get (getStyles ?props) ''parent''"
    using objectsAt_append [OF v, of c1] get_objectsAt [of "h @ c0 @ c1" style "''parent''"]
    by (simp add: o)
  have "render_store env this dataset h =
           (render env ?props ?state,
            h @ c0 @ c1)"
    using False g r p
    by (cases "renderData env ?props ?state (getStyles ?props)")
       (simp_all add: render_store_def render_def Let_def thenDo_store_def thenDo_def at)
  then show ?thesis ..
qed


text \<open>
  C5. One render pass of a mounted component, on a store that holds the objects of its
  props and state, the default styles and the data points: the pass leaves every cell of
  that store as it was (\<^verbatim>\<open>assign\<close> and \<^verbatim>\<open>defaults\<close> only write objects the pass itself
  created, \<^verbatim>\<open>push\<close> only the array of segments), and what it returns, an element tree or
  an error, is \<^verbatim>\<open>render\<close> of the values the store held for the props and the state. So a
  second pass, on the store the first one left, returns what the first returned; and so
  does a pass on any other store that holds the same props, state and data. The same holds
  of \<^verbatim>\<open>renderData\<close> for every style whose entries are in the store. The collaborators are
  taken as functions of their arguments.
\<close>

theorem render_idempotent:
  assumes "inStore h this" and "dataset < length h"
    and "\<forall>datum \<in> set (arrayAt h dataset). datum < length h"
    and "getData env (propsAt h this) = datasetAt h dataset"
  shows "extends h (snd (render_store env this dataset h))
    \<and> fst (render_store env this dataset h) = render env (propsAt h this) (stateOf h this)
    \<and> fst (render_store env this dataset (snd (render_store env this dataset h)))
        = fst (render_store env this dataset h)
    \<and> (inStore h' this' \<longrightarrow> dataset' < length h' \<longrightarrow>
         (\<forall>datum \<in> set (arrayAt h' dataset'). datum < length h') \<longrightarrow>
         propsAt h' this' = propsAt h this \<longrightarrow> stateOf h' this' = stateOf h this \<longrightarrow>
         datasetAt h' dataset' = datasetAt h dataset \<longrightarrow>
         fst (render_store env this' dataset' h') = fst (render_store env this dataset h))
    \<and> (validRefs h style \<longrightarrow>
         extends h (snd (renderData_store env this style dataset h))
         \<and> fst (renderData_store env this style dataset h)
             = renderData env (propsAt h this) (stateOf h this) (objectsAt h style)
         \<and> fst (renderData_store env this style dataset
                  (snd (renderData_store env this style dataset h)))
             = fst (renderData_store env this style dataset h))"
proof -
  note i = assms(1) and dv = assms(2,3) and gd = assms(4)
  from render_store_spec [OF i dv gd] obtain cells where
    r: "render_store env this dataset h = (render env (propsAt h this) (stateOf h this), h @ cells)"
    by blast
  note at = propsAt_append [OF i] stateOf_append [OF i] datasetAt_append [OF dv]
  have d: "dataset < length (h @ cells)"
    "\<forall>datum \<in> set (arrayAt (h @ cells) dataset). datum < length (h @ cells)"
    "getData env (propsAt (h @ cells) this) = datasetAt (h @ cells) dataset" for cells
    using dv gd by (auto simp: at)
  from render_store_spec [OF inStore_append [OF i] d [of cells]] obtain cells' where
    r': "render_store env this dataset (h @ cells) =
           (render env (propsAt h this) (stateOf h this), h @ cells @ cells')"
    unfolding at by auto
  have e: "extends h (snd (render_store env this dataset h))"
    unfolding r extends_append by auto
  have f: "fst (render_store env this dataset h) = render env (propsAt h this) (stateOf h this)"
    by (simp add: r)
  have a: "fst (render_store env this dataset (snd (render_store env this dataset h)))
        = fst (render_store env this dataset h)"
    by (simp add: r r')
  have o: "fst (render_store env this' dataset' h') = fst (render_store env this dataset h)"
    if "inStore h' this'" "dataset' < length h'"
      "\<forall>datum \<in> set (arrayAt h' dataset'). datum < length h'"
      "propsAt h' this' = propsAt h this" "stateOf h' this' = stateOf h this"
      "datasetAt h' dataset' = datasetAt h dataset"
  proof -
    from that(4,6) gd have "getData env (propsAt h' this') = datasetAt h' dataset'"
      by simp
    from render_store_spec [OF that(1,2,3) this] that(4,5) f show ?thesis
      by auto
  qed
  have s: "extends h (snd (renderData_store env this style dataset h))
         \<and> fst (renderData_store env this style dataset h)
             = renderData env (propsAt h this) (stateOf h this) (objectsAt h style)
         \<and> fst (renderData_store env this style dataset
                  (snd (renderData_store env this style dataset h)))
             = fst (renderData_store env this style dataset h)"
    if v: "validRefs h style"
  proof -
    from renderData_store_spec [OF i v dv gd] obtain c where
      x: "renderData_store env this style dataset h =
            (renderData env (propsAt h this) (stateOf h this) (objectsAt h style), h @ c)"
      by blast
    from renderData_store_spec [OF inStore_append [OF i] validRefs_append [OF v] d [of c]]
    obtain c' where
      x': "renderData_store env this style dataset (h @ c) =
            (renderData env (propsAt h this) (stateOf h this) (objectsAt h style), h @ c @ c')"
      unfolding at objectsAt_append [OF v] by auto
    show ?thesis
      unfolding x extends_append by (auto simp: x')
  qed
  from e f a o s show ?thesis by blast
qed


theorem render_idempotent_witness:
  "inStore exampleStore exampleThis
   \<and> datasetAt exampleStore 10 = exampleData
   \<and> fst (renderData_store (plainEnv exampleData) exampleThis exampleStyle 10 exampleStore) =
      Inr (G [(''style'', Undefined)]
       [[Some
          (LineSegment
            [(''key'', Str ''line-segment-0''),
             (''interpolation'', Str ''linear''),
             (''style'', Obj [(''stroke'', Str ''red'')]),
             (''scale'', Obj [(''x'', Fun 0), (''y'', Fun 0)]),
             (''index'', Num 0),
             (''data'', Arr [Obj [(''x'', Num 1), (''y'', Num 1), (''label'', Str ''a'')]]),
             (''events'', Obj [])]),
         Some
          (LineSegment
            [(''key'', Str ''line-segment-1''),
             (''interpolation'', Str ''linear''),
             (''style'', Obj [(''stroke'', Str ''red'')]),
             (''scale'', Obj [(''x'', Fun 0), (''y'', Fun 0)]),
             (''index'', Num 1),
             (''data'', Arr [Obj [(''x'', Num 3), (''y'', Num 3)]]),
             (''events'', Obj [])])],
        [Some
          (G [(''key'', Str ''marker-group-0'')]
            [[Some
               (CloneElement
                 \<lparr>component_type = Str ''Point'', component_props = [(''size'', Num 3)]\<rparr>
                 [(''events'', Obj []), (''key'', Str ''marker-0''),
                  (''style'', Obj [(''opacity'', Num 1)]),
                  (''index'', Num 0),
                  (''datum'', Obj [(''x'', Num 1), (''y'', Num 1), (''label'', Str ''a'')]),
                  (''x'', Num 1), (''y'', Num 1), (''size'', Num 3)])],
             [Some
               (CloneElement
                 \<lparr>component_type = Str ''Label'', component_props = []\<rparr>
                 [(''key'', Str ''label-0''), (''dy'', Num 5),
                  (''textAnchor'', Str ''start''),
                  (''verticalAnchor'', Str ''end''),
                  (''style'',
                   Obj [(''padding'', Num 5),
                        (''fontFamily'', Str ''Helvetica''),
                        (''fontSize'', Num 10), (''strokeWidth'', Num 0),
                        (''stroke'', Str ''transparent''),
                        (''textAnchor'', Str ''start''),
                        (''fill'', Undefined)]),
                  (''text'', Str ''a''), (''index'', Num 0),
                  (''datum'', Obj [(''x'', Num 1), (''y'', Num 1), (''label'', Str ''a'')]),
                  (''x'', Num 1), (''y'', Num 1), (''events'', Obj [])])]]),
         None,
         Some
          (CloneElement
            \<lparr>component_type = Str ''Point'', component_props = [(''size'', Num 3)]\<rparr>
            [(''events'', Obj []), (''key'', Str ''marker-2''),
             (''style'', Obj [(''fill'', Str ''blue'')]),
             (''index'', Num 2),
             (''datum'', Obj [(''x'', Num 3), (''y'', Num 3)]),
             (''x'', Num 3), (''y'', Num 3), (''size'', Num 3)])],
        [Some
          (LineLabel
            [(''key'', Str ''line-label''), (''events'', Obj []),
             (''data'',
              Arr [Obj [(''x'', Num 1), (''y'', Num 1), (''label'', Str ''a'')],
                   Obj [(''x'', Num 2), (''y'', Null)],
                   Obj [(''x'', Num 3), (''y'', Num 3)]]),
             (''x'', Num 3), (''y'', Num 3), (''label'', Str ''s''),
             (''style'',
              Obj [(''padding'', Num 5),
                   (''fontFamily'', Str ''Helvetica''),
                   (''fontSize'', Num 10), (''strokeWidth'', Num 0),
                   (''stroke'', Str ''transparent''),
                   (''textAnchor'', Str ''start''),
                   (''fill'', Undefined)])])]])
   \<and> fst (renderData_store (plainEnv exampleData) exampleThis exampleStyle 10
           (snd (renderData_store (plainEnv exampleData) exampleThis exampleStyle 10
                   exampleStore))) =
      fst (renderData_store (plainEnv exampleData) exampleThis exampleStyle 10 exampleStore)
   \<and> renderData (plainEnv exampleData) (propsAt exampleStore exampleThis)
        (stateOf exampleStore exampleThis) (objectsAt exampleStore exampleStyle) =
      fst (renderData_store (plainEnv exampleData) exampleThis exampleStyle 10 exampleStore)
   \<and> extends exampleStore
        (snd (renderData_store (plainEnv exampleData) exampleThis exampleStyle 10 exampleStore))
   \<and> fst (render_store (plainEnv exampleData) exampleThis 10 exampleStore) = Inl TypeError
   \<and> fst (render_store (plainEnv exampleData) exampleThis 10
           (snd (render_store (plainEnv exampleData) exampleThis 10 exampleStore))) =
      Inl TypeError
   \<and> render (plainEnv exampleData) (propsAt exampleStore exampleThis)
        (stateOf exampleStore exampleThis) = Inl TypeError
   \<and> extends exampleStore (snd (render_store (plainEnv exampleData) exampleThis 10 exampleStore))
   \<and> fst (render_store (plainEnv exampleData) exampleThis 10 (exampleStore @ [ObjectCell []])) =
      Inl TypeError"
proof -
  let ?env = "plainEnv exampleData"
  have i: "inStore exampleStore exampleThis"
    by code_simp
  have d: "10 < length exampleStore"
    "\<forall>datum \<in> set (arrayAt exampleStore 10). datum < length exampleStore"
    by (simp_all add: exampleStore_def arrayAt_def)
  have a: "datasetAt exampleStore 10 = exampleData"
    by code_simp
  have g: "getData ?env (propsAt exampleStore exampleThis) = datasetAt exampleStore 10"
    unfolding a by (simp add: plainEnv_def)
  have v: "validRefs exampleStore exampleStyle"
    by code_simp
  have i': "inStore (exampleStore @ [ObjectCell []]) exampleThis"
    by code_simp
  have d': "10 < length (exampleStore @ [ObjectCell []])"
    "\<forall>datum \<in> set (arrayAt (exampleStore @ [ObjectCell []]) 10).
       datum < length (exampleStore @ [ObjectCell []])"
    by (simp_all add: exampleStore_def arrayAt_def)
  have e: "propsAt (exampleStore @ [ObjectCell []]) exampleThis = propsAt exampleStore exampleThis"
    "stateOf (exampleStore @ [ObjectCell []]) exampleThis = stateOf exampleStore exampleThis"
    "datasetAt (exampleStore @ [ObjectCell []]) 10 = datasetAt exampleStore 10"
    by code_simp+
  have r: "render ?env (propsAt exampleStore exampleThis) (stateOf exampleStore exampleThis)
             = Inl TypeError"
    by code_simp
  have c: "renderData ?env (propsAt exampleStore exampleThis) (stateOf exampleStore exampleThis)
             (objectsAt exampleStore exampleStyle) =
      Inr (G [(''style'', Undefined)]
       [[Some
          (LineSegment
            [(''key'', Str ''line-segment-0''),
             (''interpolation'', Str ''linear''),
             (''style'', Obj [(''stroke'', Str ''red'')]),
             (''scale'', Obj [(''x'', Fun 0), (''y'', Fun 0)]),
             (''index'', Num 0),
             (''data'', Arr [Obj [(''x'', Num 1), (''y'', Num 1), (''label'', Str ''a'')]]),
             (''events'', Obj [])]),
         Some
          (LineSegment
            [(''key'', Str ''line-segment-1''),
             (''interpolation'', Str ''linear''),
             (''style'', Obj [(''stroke'', Str ''red'')]),
             (''scale'', Obj [(''x'', Fun 0), (''y'', Fun 0)]),
             (''index'', Num 1),
             (''data'', Arr [Obj [(''x'', Num 3), (''y'', Num 3)]]),
             (''events'', Obj [])])],
        [Some
          (G [(''key'', Str ''marker-group-0'')]
            [[Some
               (CloneElement
                 \<lparr>component_type = Str ''Point'', component_props = [(''size'', Num 3)]\<rparr>
                 [(''events'', Obj []), (''key'', Str ''marker-0''),
                  (''style'', Obj [(''opacity'', Num 1)]),
                  (''index'', Num 0),
                  (''datum'', Obj [(''x'', Num 1), (''y'', Num 1), (''label'', Str ''a'')]),
                  (''x'', Num 1), (''y'', Num 1), (''size'', Num 3)])],
             [Some
               (CloneElement
                 \<lparr>component_type = Str ''Label'', component_props = []\<rparr>
                 [(''key'', Str ''label-0''), (''dy'', Num 5),
                  (''textAnchor'', Str ''start''),
                  (''verticalAnchor'', Str ''end''),
                  (''style'',
                   Obj [(''padding'', Num 5),
                        (''fontFamily'', Str ''Helvetica''),
                        (''fontSize'', Num 10), (''strokeWidth'', Num 0),
                        (''stroke'', Str ''transparent''),
                        (''textAnchor'', Str ''start''),
                        (''fill'', Undefined)]),
                  (''text'', Str ''a''), (''index'', Num 0),
                  (''datum'', Obj [(''x'', Num 1), (''y'', Num 1), (''label'', Str ''a'')]),
                  (''x'', Num 1), (''y'', Num 1), (''events'', Obj [])])]]),
         None,
         Some
          (CloneElement
            \<lparr>component_type = Str ''Point'', component_props = [(''size'', Num 3)]\<rparr>
            [(''events'', Obj []), (''key'', Str ''marker-2''),
             (''style'', Obj [(''fill'', Str ''blue'')]),
             (''index'', Num 2),
             (''datum'', Obj [(''x'', Num 3), (''y'', Num 3)]),
             (''x'', Num 3), (''y'', Num 3), (''size'', Num 3)])],
        [Some
          (LineLabel
            [(''key'', Str ''line-label''), (''events'', Obj []),
             (''data'',
              Arr [Obj [(''x'', Num 1), (''y'', Num 1), (''label'', Str ''a'')],
                   Obj [(''x'', Num 2), (''y'', Null)],
                   Obj [(''x'', Num 3), (''y'', Num 3)]]),
             (''x'', Num 3), (''y'', Num 3), (''label'', Str ''s''),
             (''style'',
              Obj [(''padding'', Num 5),
                   (''fontFamily'', Str ''Helvetica''),
                   (''fontSize'', Num 10), (''strokeWidth'', Num 0),
                   (''stroke'', Str ''transparent''),
                   (''textAnchor'', Str ''start''),
                   (''fill'', Undefined)])])]])"
    by code_simp
  note t = render_idempotent [OF i d g, where style = exampleStyle
      and h' = "exampleStore @ [ObjectCell []]" and this' = exampleThis and dataset' = 10]
  from t i' d' e v have
    "extends exampleStore (snd (render_store ?env exampleThis 10 exampleStore))"
    "fst (render_store ?env exampleThis 10 exampleStore) =
       render ?env (propsAt exampleStore exampleThis) (stateOf exampleStore exampleThis)"
    "fst (render_store ?env exampleThis 10 (snd (render_store ?env exampleThis 10 exampleStore)))
       = fst (render_store ?env exampleThis 10 exampleStore)"
    "fst (render_store ?env exampleThis 10 (exampleStore @ [ObjectCell []])) =
       fst (render_store ?env exampleThis 10 exampleStore)"
    "extends exampleStore (snd (renderData_store ?env exampleThis exampleStyle 10 exampleStore))"
    "fst (renderData_store ?env exampleThis exampleStyle 10 exampleStore)
       = renderData ?env (propsAt exampleStore exampleThis) (stateOf exampleStore exampleThis)
           (objectsAt exampleStore exampleStyle)"
    "fst (renderData_store ?env exampleThis exampleStyle 10
            (snd (renderData_store ?env exampleThis exampleStyle 10 exampleStore)))
       = fst (renderData_store ?env exampleThis exampleStyle 10 exampleStore)"
    by blast+
  with i a c r show ?thesis
    by simp
qed

end
